theory Spec2Isabelle
  imports Main "HOL-Library.Word"
begin

unbundle bit_operations_syntax

section \<open>SD card initialisation over SPI: the driver of sd\_driver\_init.c\<close>

text \<open>
  The embedding follows \<^verbatim>\<open>External/SDCard_Driver/Src/sd_driver_init.c\<close>. The driver talks
  to the card through the HAL (SPI transmit, byte receive, chip select, millisecond tick),
  so every hardware call is an explicit step on a state that records the trace of the
  calls made so far; what the hardware answers is a parameter of every function. The two
  file-level variables of the C code (\<^verbatim>\<open>sd_card_status\<close> and the function-local static
  \<^verbatim>\<open>sd_card_is_spi_mode\<close>) are fields of that state. The three polling loops have no
  iteration bound in the source, so each is a recursive function on a fuel counter and
  returns \<open>None\<close> when the fuel is used up before the loop leaves.
\<close>

subsection \<open>Machine types and constants\<close>

type_synonym u8 = "8 word"
type_synonym u16 = "16 word"
type_synonym u32 = "32 word"

text \<open>\<^verbatim>\<open>sd_error\<close> is a C enumeration combined with \<^verbatim>\<open>|=\<close>; it is held as a 32-bit word.\<close>

type_synonym sd_error = "32 word"

text \<open>
  \<^verbatim>\<open>SD_OK\<close>: the header that declares it is not among the sources. The code tests
  success with \<^verbatim>\<open>if (status)\<close> and \<^verbatim>\<open>(bool)status\<close>, so OK is the value zero.
\<close>

definition SD_OK :: sd_error where
  "SD_OK = 0"

text \<open>
  The numeric values of the four error codes are declared in the same missing header.
  They are a parameter of every function that returns one of them.
\<close>

record sd_codes =
  SD_ERROR :: sd_error
  SD_TIMEOUT :: sd_error
  SD_TRANSMISSION_ERROR :: sd_error
  SD_UNUSABLE_CARD :: sd_error

text \<open>
  Modelled from the spec: the header with the R1 flag constants is missing. Section 6
  gives the status byte layout: bit 0 is in-idle-state, bit 2 is illegal-command, and
  all flags clear (0x00) means ready.
\<close>

definition R1_CLEAR_FLAGS :: u8 where
  "R1_CLEAR_FLAGS = 0x00"

definition R1_IN_IDLE_STATE :: u8 where
  "R1_IN_IDLE_STATE = 0x01"

definition R1_ILLEGAL_COMMAND :: u8 where
  "R1_ILLEGAL_COMMAND = 0x04"

text \<open>
  Modelled from the spec: \<^verbatim>\<open>sd_card_get_cmd\<close> is missing. Section 3 describes the frame it
  builds as command index, 32-bit argument and checksum; the checksum is a function of the
  other two and is left out.
\<close>

record sd_command =
  cmd_index :: nat
  cmd_arg :: u32

definition sd_card_get_cmd :: "nat \<Rightarrow> u32 \<Rightarrow> sd_command" where
  "sd_card_get_cmd i a = \<lparr>cmd_index = i, cmd_arg = a\<rparr>"

subsection \<open>Session state\<close>

datatype sd_capacity = STANDART | HIGH_OR_EXTENDED

record sd_status =
  version :: u8
  capacity :: sd_capacity
  error_in_initialization :: bool

subsection \<open>Hardware calls\<close>

text \<open>
  One constructor for each call that leaves the driver: the chip-select macros,
  \<^verbatim>\<open>HAL_SPI_Transmit\<close> of data bytes or of a command frame, \<^verbatim>\<open>sd_card_receive_byte\<close>,
  the \<^verbatim>\<open>SEND_CMD\<close> macro, \<^verbatim>\<open>sd_card_get_csd\<close> and \<^verbatim>\<open>HAL_GetTick\<close>.
\<close>

datatype io_op =
    Op_DISELECT_SD
  | Op_SELECT_SD
  | Op_SPI_Transmit "u8 list"
  | Op_SPI_Transmit_cmd sd_command
  | Op_receive_byte
  | Op_SEND_CMD sd_command
  | Op_get_csd
  | Op_GetTick

text \<open>
  What a call hands back: a status, the bytes read, and the tick count. Each call reads
  the fields it has in C and ignores the others.
\<close>

record io_reply =
  rep_status :: sd_error
  rep_bytes :: "u8 list"
  rep_tick :: u32

type_synonym io_event = "io_op \<times> io_reply"

text \<open>
  The hardware is any function from the calls made so far (latest first) and the call
  being made to its reply.
\<close>

type_synonym hardware = "io_event list \<Rightarrow> io_op \<Rightarrow> io_reply"

record sd_state =
  trace :: "io_event list"
  sd_card_status :: sd_status
  sd_card_is_spi_mode :: bool

definition io :: "hardware \<Rightarrow> io_op \<Rightarrow> sd_state \<Rightarrow> io_reply \<times> sd_state" where
  "io hw op s = (let r = hw (trace s) op in (r, s\<lparr>trace := (op, r) # trace s\<rparr>))"

text \<open>Byte \<open>i\<close> of a buffer that C initialised with zeroes before the read.\<close>

definition byte_at :: "u8 list \<Rightarrow> nat \<Rightarrow> u8" where
  "byte_at bs i = (if i < length bs then bs ! i else 0)"

text \<open>Whether a call returns a status in C, and the status an event carried.\<close>

fun has_status :: "io_op \<Rightarrow> bool" where
  "has_status (Op_SPI_Transmit bs) = True"
| "has_status (Op_SPI_Transmit_cmd cmd) = True"
| "has_status Op_receive_byte = True"
| "has_status (Op_SEND_CMD cmd) = True"
| "has_status Op_get_csd = True"
| "has_status Op_DISELECT_SD = False"
| "has_status Op_SELECT_SD = False"
| "has_status Op_GetTick = False"

definition event_status :: "io_event \<Rightarrow> sd_error" where
  "event_status e = (if has_status (fst e) then rep_status (snd e) else 0)"

text \<open>The bitwise OR of every status the hardware returned in a trace.\<close>

fun seen :: "io_event list \<Rightarrow> sd_error" where
  "seen [] = 0"
| "seen (e # es) = event_status e OR seen es"

text \<open>
  Modelled from the spec: the \<^verbatim>\<open>SEND_CMD(hspi, cmd, response, status)\<close> macro is missing.
  Section 4.1: it transmits the frame and reads the response of the command's shape back;
  section 4.6: statuses are combined with bitwise OR. It yields the response bytes and
  the updated status variable.
\<close>

definition SEND_CMD ::
  "hardware \<Rightarrow> sd_command \<Rightarrow> sd_error \<Rightarrow> sd_state \<Rightarrow> u8 list \<times> sd_error \<times> sd_state" where
  "SEND_CMD hw cmd status s =
     (let (r, s1) = io hw (Op_SEND_CMD cmd) s
      in (rep_bytes r, status OR rep_status r, s1))"

text \<open>
  Response shapes. R1 is the status byte. R3 is the status byte followed by the four OCR
  bytes (\<^verbatim>\<open>ocr_register_content[0..3]\<close>). R7 is the status byte (\<^verbatim>\<open>high_order_part\<close>)
  followed by four bytes.
\<close>

definition r1_of :: "u8 list \<Rightarrow> u8" where
  "r1_of bs = byte_at bs 0"

definition ocr_register_content :: "u8 list \<Rightarrow> nat \<Rightarrow> u8" where
  "ocr_register_content bs i = byte_at bs (i + 1)"

definition high_order_part :: "u8 list \<Rightarrow> u8" where
  "high_order_part bs = byte_at bs 0"

text \<open>
  Modelled from the spec: the declaration of \<^verbatim>\<open>sd_r7_response\<close> and the macro
  \<^verbatim>\<open>GET_VOLTAGE_FROM_R7\<close> are missing. Section 6: of the four bytes after the status
  byte, the low 8 bits are the echoed check pattern and bits 11:8 are the accepted
  voltage window.
\<close>

definition echo_back_of_check_pattern :: "u8 list \<Rightarrow> u8" where
  "echo_back_of_check_pattern bs = byte_at bs 4"

definition GET_VOLTAGE_FROM_R7 :: "u8 list \<Rightarrow> u8" where
  "GET_VOLTAGE_FROM_R7 bs = byte_at bs 3 AND 0x0f"

subsection \<open>Power on and SPI mode entry\<close>

text \<open>The \<^verbatim>\<open>for\<close> loop of \<^verbatim>\<open>sd_card_power_on\<close>: \<open>n\<close> dummy bytes, statuses OR-ed.\<close>

fun power_on_clocks :: "hardware \<Rightarrow> nat \<Rightarrow> sd_error \<Rightarrow> sd_state \<Rightarrow> sd_error \<times> sd_state" where
  "power_on_clocks hw 0 status s = (status, s)"
| "power_on_clocks hw (Suc n) status s =
     (let (r, s1) = io hw (Op_SPI_Transmit [0xff]) s
      in power_on_clocks hw n (status OR rep_status r) s1)"

definition sd_card_power_on :: "hardware \<Rightarrow> sd_state \<Rightarrow> sd_error \<times> sd_state" where
  "sd_card_power_on hw s =
     (let (d, s1) = io hw Op_DISELECT_SD s;
          (status, s2) = power_on_clocks hw 10 SD_OK s1;
          (r, s3) = io hw Op_receive_byte s2
      in (status OR rep_status r, s3))"

text \<open>
  How a polling loop is left: \<open>Break\<close> carries the value of \<^verbatim>\<open>status\<close> when the loop
  condition ends the loop, \<open>Return\<close> the value of a \<^verbatim>\<open>return\<close> inside the loop body.
\<close>

datatype loop_exit = Break sd_error | Return sd_error

text \<open>The \<^verbatim>\<open>do ... while (r1 != R1_IN_IDLE_STATE)\<close> loop of \<^verbatim>\<open>sd_card_enter_spi_mode\<close>.\<close>

fun enter_spi_mode_poll ::
  "nat \<Rightarrow> sd_codes \<Rightarrow> hardware \<Rightarrow> u32 \<Rightarrow> sd_error \<Rightarrow> sd_state \<Rightarrow> (loop_exit \<times> sd_state) option" where
  "enter_spi_mode_poll 0 c hw tickstart status s = None"
| "enter_spi_mode_poll (Suc n) c hw tickstart status s =
     (let (r, s1) = io hw Op_receive_byte s;
          status1 = status OR rep_status r;
          r1 = byte_at (rep_bytes r) 0;
          (t, s2) = io hw Op_GetTick s1
      in if rep_tick t - tickstart > 500 then Some (Return (SD_TIMEOUT c), s2)
         else if r1 \<noteq> R1_IN_IDLE_STATE then enter_spi_mode_poll n c hw tickstart status1 s2
         else Some (Break status1, s2))"

definition sd_card_enter_spi_mode ::
  "nat \<Rightarrow> sd_codes \<Rightarrow> hardware \<Rightarrow> sd_state \<Rightarrow> (sd_error \<times> sd_state) option" where
  "sd_card_enter_spi_mode fuel c hw s =
     (let cmd_go_idle_state = sd_card_get_cmd 0 0x0 in
      if sd_card_is_spi_mode s then Some (SD_OK, s)
      else
        let (status, s1) = sd_card_power_on hw s in
        if status \<noteq> 0 then Some (status, s1)
        else
          let (d, s2) = io hw Op_SELECT_SD s1;
              (r, s3) = io hw (Op_SPI_Transmit_cmd cmd_go_idle_state) s2;
              status1 = status OR rep_status r;
              (r', s4) = io hw Op_receive_byte s3;
              status2 = status1 OR rep_status r';
              (t, s5) = io hw Op_GetTick s4
          in case enter_spi_mode_poll fuel c hw (rep_tick t) status2 s5 of
               None \<Rightarrow> None
             | Some (Return e, s6) \<Rightarrow> Some (e, s6)
             | Some (Break status3, s6) \<Rightarrow>
                 (let (d', s7) = io hw Op_DISELECT_SD s6
                  in Some (status3,
                       if status3 = SD_OK then s7\<lparr>sd_card_is_spi_mode := True\<rparr> else s7)))"

subsection \<open>CRC on/off\<close>

definition sd_card_crc_on_off ::
  "sd_codes \<Rightarrow> hardware \<Rightarrow> bool \<Rightarrow> sd_state \<Rightarrow> sd_error \<times> sd_state" where
  "sd_card_crc_on_off c hw crc_enable s =
     (let cmd_crc_on_off = sd_card_get_cmd 59 (if crc_enable then 0x1 else 0x0);
          (r1, status, s1) = SEND_CMD hw cmd_crc_on_off SD_OK s
      in if r1_of r1 \<noteq> R1_IN_IDLE_STATE then (SD_TRANSMISSION_ERROR c, s1)
         else (status, s1))"

subsection \<open>Capacity negotiation\<close>

text \<open>The voltage window test both variants make on the OCR response.\<close>

definition voltage_window_ok :: "u8 list \<Rightarrow> bool" where
  "voltage_window_ok ocr_response \<longleftrightarrow>
     ocr_register_content ocr_response 1 AND 0x1f \<noteq> 0 \<and>
     ocr_register_content ocr_response 2 AND 0x80 \<noteq> 0"

text \<open>The \<^verbatim>\<open>while (true)\<close> loop of \<^verbatim>\<open>sd_card_v1_init_process\<close>.\<close>

fun v1_init_poll ::
  "nat \<Rightarrow> sd_codes \<Rightarrow> hardware \<Rightarrow> u32 \<Rightarrow> sd_error \<Rightarrow> sd_state \<Rightarrow> (loop_exit \<times> sd_state) option" where
  "v1_init_poll 0 c hw tickstart status s = None"
| "v1_init_poll (Suc n) c hw tickstart status s =
     (let (app_response, status1, s1) = SEND_CMD hw (sd_card_get_cmd 55 0x0) status s;
          (send_op_cond_response, status2, s2) = SEND_CMD hw (sd_card_get_cmd 41 0x0) status1 s1
      in if r1_of send_op_cond_response = R1_CLEAR_FLAGS then Some (Break status2, s2)
         else if r1_of send_op_cond_response AND R1_ILLEGAL_COMMAND \<noteq> 0
           then Some (Return (SD_UNUSABLE_CARD c), s2)
         else
           let (t, s3) = io hw Op_GetTick s2
           in if rep_tick t - tickstart > 1000 then Some (Return (SD_TIMEOUT c), s3)
              else v1_init_poll n c hw tickstart status2 s3)"

definition sd_card_v1_init_process ::
  "nat \<Rightarrow> sd_codes \<Rightarrow> hardware \<Rightarrow> sd_state \<Rightarrow> (sd_error \<times> sd_state) option" where
  "sd_card_v1_init_process fuel c hw s =
     (let (ocr_response, status, s1) = SEND_CMD hw (sd_card_get_cmd 58 0x0) SD_OK s
      in if \<not> voltage_window_ok ocr_response then Some (SD_ERROR c, s1)
         else
           let (t, s2) = io hw Op_GetTick s1
           in case v1_init_poll fuel c hw (rep_tick t) status s2 of
                None \<Rightarrow> None
              | Some (Return e, s3) \<Rightarrow> Some (e, s3)
              | Some (Break status1, s3) \<Rightarrow>
                  Some (status1,
                    s3\<lparr>sd_card_status :=
                         (sd_card_status s3)\<lparr>version := 1, capacity := STANDART\<rparr>\<rparr>))"

text \<open>The \<^verbatim>\<open>while (true)\<close> loop of \<^verbatim>\<open>sd_card_v2_init_process\<close>.\<close>

fun v2_init_poll ::
  "nat \<Rightarrow> sd_codes \<Rightarrow> hardware \<Rightarrow> u32 \<Rightarrow> sd_error \<Rightarrow> sd_state \<Rightarrow> (loop_exit \<times> sd_state) option" where
  "v2_init_poll 0 c hw tickstart status s = None"
| "v2_init_poll (Suc n) c hw tickstart status s =
     (let (app_response, status1, s1) = SEND_CMD hw (sd_card_get_cmd 55 0x0) status s;
          (send_op_cond_response, status2, s2) = SEND_CMD hw (sd_card_get_cmd 41 0x0) status1 s1
      in if r1_of send_op_cond_response = R1_CLEAR_FLAGS then Some (Break status2, s2)
         else
           let (t, s3) = io hw Op_GetTick s2
           in if rep_tick t - tickstart > 1000 then Some (Return (SD_TIMEOUT c), s3)
              else v2_init_poll n c hw tickstart status2 s3)"

definition sd_card_v2_init_process ::
  "nat \<Rightarrow> sd_codes \<Rightarrow> hardware \<Rightarrow> sd_state \<Rightarrow> (sd_error \<times> sd_state) option" where
  "sd_card_v2_init_process fuel c hw s =
     (let (ocr_response, status, s1) = SEND_CMD hw (sd_card_get_cmd 58 0x0) SD_OK s
      in if \<not> voltage_window_ok ocr_response then Some (SD_UNUSABLE_CARD c, s1)
         else
           let (t, s2) = io hw Op_GetTick s1
           in case v2_init_poll fuel c hw (rep_tick t) status s2 of
                None \<Rightarrow> None
              | Some (Return e, s3) \<Rightarrow> Some (e, s3)
              | Some (Break status1, s3) \<Rightarrow>
                  (let cap = (if ocr_register_content ocr_response 0 AND 0x2 \<noteq> 0
                              then HIGH_OR_EXTENDED else STANDART)
                   in Some (status1,
                        s3\<lparr>sd_card_status :=
                             (sd_card_status s3)\<lparr>version := 2, capacity := cap\<rparr>\<rparr>)))"

subsection \<open>Reset\<close>

text \<open>The code after the label \<^verbatim>\<open>end_of_initialization\<close>.\<close>

definition end_of_initialization :: "sd_error \<Rightarrow> sd_state \<Rightarrow> sd_error \<times> sd_state" where
  "end_of_initialization status s =
     (status,
      s\<lparr>sd_card_status := (sd_card_status s)\<lparr>error_in_initialization := (status \<noteq> 0)\<rparr>\<rparr>)"

definition sd_card_reset ::
  "nat \<Rightarrow> sd_codes \<Rightarrow> hardware \<Rightarrow> bool \<Rightarrow> sd_state \<Rightarrow> (sd_error \<times> sd_state) option" where
  "sd_card_reset fuel c hw crc_enable s =
     (let cmd_send_if_cond = sd_card_get_cmd 8 (push_bit 8 1 OR 0x55) in
      case sd_card_enter_spi_mode fuel c hw s of
        None \<Rightarrow> None
      | Some (status, s1) \<Rightarrow>
          if status \<noteq> 0 then Some (end_of_initialization status s1)
          else
            let (send_if_cond_response, status1, s2) = SEND_CMD hw cmd_send_if_cond status s1 in
            if status1 \<noteq> 0 then Some (end_of_initialization status1 s2)
            else
              let (e, s3) = sd_card_crc_on_off c hw crc_enable s2;
                  status2 = status1 OR e
              in if high_order_part send_if_cond_response AND R1_ILLEGAL_COMMAND \<noteq> 0
                 then
                   (case sd_card_v1_init_process fuel c hw s3 of
                      None \<Rightarrow> None
                    | Some (e1, s4) \<Rightarrow> Some (end_of_initialization (status2 OR e1) s4))
                 else if \<not> (echo_back_of_check_pattern send_if_cond_response = 0x55 \<and>
                            GET_VOLTAGE_FROM_R7 send_if_cond_response = 0x1)
                 then Some (end_of_initialization (status2 OR SD_UNUSABLE_CARD c) s3)
                 else
                   (case sd_card_v2_init_process fuel c hw s3 of
                      None \<Rightarrow> None
                    | Some (e2, s4) \<Rightarrow> Some (end_of_initialization (status2 OR e2) s4)))"

subsection \<open>Geometry\<close>

text \<open>
  Modelled from the spec: the declaration of \<^verbatim>\<open>sd_info\<close> is missing. Section 3 lists the
  geometry result: total byte capacity, maximum block size, command-class bitmap, whether
  partial block writes are allowed, and the maximum transfer speed. The transfer speed is
  a product of two single-precision table entries and is not part of the record here; the
  integer fields are 32 bits wide.
\<close>

record sd_info =
  command_classes :: u32
  max_data_block_size :: u32
  partial_blocks_allowed :: bool
  size :: u32

text \<open>The 16 CSD bytes, read as the C expressions read them (promoted to 32 bits).\<close>

definition csd_byte :: "u8 list \<Rightarrow> nat \<Rightarrow> u32" where
  "csd_byte csd_register i = ucast (byte_at csd_register i)"

definition csd_size_mult :: "u8 list \<Rightarrow> nat" where
  "csd_size_mult csd_register = unat (drop_bit 5 (csd_byte csd_register 9 AND 0xe0))"

text \<open>\<^verbatim>\<open>device_size\<close> is a \<^verbatim>\<open>uint16_t\<close>: the 32-bit expression is cut to 16 bits.\<close>

definition csd_device_size :: "u8 list \<Rightarrow> u16" where
  "csd_device_size csd_register =
     ucast (push_bit 11 (csd_byte csd_register 6 AND 0x3) OR
            push_bit 2 (csd_byte csd_register 7) OR
            drop_bit 6 (csd_byte csd_register 8 AND 0xc0))"

definition csd_c_size :: "u8 list \<Rightarrow> u32" where
  "csd_c_size csd_register =
     push_bit 16 (csd_byte csd_register 7 AND 0x3f) OR
     push_bit 8 (csd_byte csd_register 8) OR
     csd_byte csd_register 9"

definition sd_card_get_common_info ::
  "hardware \<Rightarrow> sd_info \<Rightarrow> sd_state \<Rightarrow> sd_error \<times> sd_info \<times> sd_state" where
  "sd_card_get_common_info hw info s =
     (let (r, s1) = io hw Op_get_csd s;
          csd_register = rep_bytes r;
          status = rep_status r
      in if status \<noteq> 0 then (status, info, s1)
         else
           let info1 = info\<lparr>
                 command_classes :=
                   push_bit 4 (csd_byte csd_register 4) OR
                   drop_bit 4 (csd_byte csd_register 5 AND 0xf0),
                 max_data_block_size := 2 ^ unat (csd_byte csd_register 5 AND 0xf),
                 partial_blocks_allowed := (csd_byte csd_register 6 AND 0x80 \<noteq> 0)\<rparr>
           in if version (sd_card_status s1) = 1
              then
                let size_mult = csd_size_mult csd_register;
                    mult = (2 :: u32) ^ (size_mult + 2);
                    device_size = csd_device_size csd_register;
                    blocknr = (ucast device_size + 1) * mult
                in (SD_OK, info1\<lparr>size := blocknr * max_data_block_size info1\<rparr>, s1)
              else
                let c_size = csd_c_size csd_register
                in (SD_OK, info1\<lparr>size := (c_size + 1) * 512\<rparr>, s1))"

subsection \<open>Observations on a run\<close>

text \<open>The tick count read by the latest hardware call, when that call was \<^verbatim>\<open>HAL_GetTick\<close>.\<close>

definition last_tick :: "sd_state \<Rightarrow> u32 option" where
  "last_tick s = (case trace s of (Op_GetTick, r) # tr \<Rightarrow> Some (rep_tick r) | _ \<Rightarrow> None)"

text \<open>The latest hardware call was ACMD41 and the card answered it with all flags clear.\<close>

definition acmd41_ready_last :: "sd_state \<Rightarrow> bool" where
  "acmd41_ready_last s =
     (case trace s of
        (Op_SEND_CMD cmd, r) # tr \<Rightarrow>
          cmd = sd_card_get_cmd 41 0 \<and> r1_of (rep_bytes r) = R1_CLEAR_FLAGS
      | _ \<Rightarrow> False)"

text \<open>The latest hardware call was ACMD41 and the answer had the illegal-command flag.\<close>

definition acmd41_illegal_last :: "sd_state \<Rightarrow> bool" where
  "acmd41_illegal_last s =
     (case trace s of
        (Op_SEND_CMD cmd, r) # tr \<Rightarrow>
          cmd = sd_card_get_cmd 41 0 \<and> r1_of (rep_bytes r) AND R1_ILLEGAL_COMMAND \<noteq> 0
      | _ \<Rightarrow> False)"

text \<open>The hardware calls made between two states of one run, latest first.\<close>

definition events_since :: "sd_state \<Rightarrow> sd_state \<Rightarrow> io_event list" where
  "events_since s s' = take (length (trace s') - length (trace s)) (trace s')"

text \<open>The tick count read by the earliest \<^verbatim>\<open>HAL_GetTick\<close> in a list of calls (latest first).\<close>

definition first_tick :: "io_event list \<Rightarrow> u32 option" where
  "first_tick evs =
     (case filter (\<lambda>e. fst e = Op_GetTick) (rev evs) of
        [] \<Rightarrow> None
      | e # es \<Rightarrow> Some (rep_tick (snd e)))"

text \<open>An ACMD41 exchange, and the first byte a call read (the R1 byte of a poll).\<close>

definition is_acmd41 :: "io_event \<Rightarrow> bool" where
  "is_acmd41 e \<longleftrightarrow> fst e = Op_SEND_CMD (sd_card_get_cmd 41 0)"

definition polled_r1 :: "io_event \<Rightarrow> u8" where
  "polled_r1 e = byte_at (rep_bytes (snd e)) 0"

text \<open>The two \<^verbatim>\<open>SEND_CMD\<close> lines that open each iteration of the negotiation loops.\<close>

definition acmd41_exchange ::
  "hardware \<Rightarrow> sd_error \<Rightarrow> sd_state \<Rightarrow> u8 list \<times> sd_error \<times> sd_state" where
  "acmd41_exchange hw status s =
     (let (app_response, status1, s1) = SEND_CMD hw (sd_card_get_cmd 55 0x0) status s
      in SEND_CMD hw (sd_card_get_cmd 41 0x0) status1 s1)"

text \<open>
  The hardware calls of a mode entry that runs to its end, latest first: the closing
  deselect; \<open>k + 1\<close> polls, each a byte read followed by a tick read; the tick read that
  gives \<^verbatim>\<open>tickstart\<close>; the byte read after CMD0, CMD0 itself and the select; and the
  power-on sequence (a byte read, after ten dummy bytes, after a deselect).
\<close>

definition entry_sequence :: "nat \<Rightarrow> io_op list" where
  "entry_sequence k =
     Op_DISELECT_SD # concat (replicate (Suc k) [Op_GetTick, Op_receive_byte]) @
     [Op_GetTick, Op_receive_byte, Op_SPI_Transmit_cmd (sd_card_get_cmd 0 0x0), Op_SELECT_SD,
      Op_receive_byte] @
     replicate 10 (Op_SPI_Transmit [0xff]) @ [Op_DISELECT_SD]"

text \<open>
  The hardware calls of a negotiation that ends with a tick read, latest first: \<open>k + 1\<close>
  polls, each CMD55, ACMD41 and a tick read; the tick read that gives \<^verbatim>\<open>tickstart\<close>; and
  CMD58.
\<close>

definition negotiation_sequence :: "nat \<Rightarrow> io_op list" where
  "negotiation_sequence k =
     concat (replicate (Suc k)
       [Op_GetTick, Op_SEND_CMD (sd_card_get_cmd 41 0x0), Op_SEND_CMD (sd_card_get_cmd 55 0x0)]) @
     [Op_GetTick, Op_SEND_CMD (sd_card_get_cmd 58 0x0)]"

subsection \<open>A simulated card\<close>

text \<open>
  A card with fixed answers, for running the driver on concrete inputs: the byte every
  \<^verbatim>\<open>sd_card_receive_byte\<close> reads, the responses to CMD8, CMD58 (with the status of that
  exchange) and ACMD41, the CSD register, and the number of ticks that pass per hardware
  call. Every other command is answered with in-idle-state, every other status is OK.
\<close>

record sim_card =
  sim_rx :: u8
  sim_if_cond :: "u8 list"
  sim_ocr_status :: sd_error
  sim_ocr :: "u8 list"
  sim_acmd41 :: u8
  sim_csd :: "u8 list"
  sim_tick_step :: u32

definition sim_hw :: "sim_card \<Rightarrow> hardware" where
  "sim_hw sc h op =
     (case op of
        Op_SEND_CMD cmd \<Rightarrow>
          (if cmd_index cmd = 8
             then \<lparr>rep_status = 0, rep_bytes = sim_if_cond sc, rep_tick = 0\<rparr>
           else if cmd_index cmd = 58
             then \<lparr>rep_status = sim_ocr_status sc, rep_bytes = sim_ocr sc, rep_tick = 0\<rparr>
           else if cmd_index cmd = 41
             then \<lparr>rep_status = 0, rep_bytes = [sim_acmd41 sc], rep_tick = 0\<rparr>
           else \<lparr>rep_status = 0, rep_bytes = [0x01], rep_tick = 0\<rparr>)
      | Op_receive_byte \<Rightarrow> \<lparr>rep_status = 0, rep_bytes = [sim_rx sc], rep_tick = 0\<rparr>
      | Op_get_csd \<Rightarrow> \<lparr>rep_status = 0, rep_bytes = sim_csd sc, rep_tick = 0\<rparr>
      | Op_GetTick \<Rightarrow>
          \<lparr>rep_status = 0, rep_bytes = [], rep_tick = of_nat (length h) * sim_tick_step sc\<rparr>
      | _ \<Rightarrow> \<lparr>rep_status = 0, rep_bytes = [], rep_tick = 0\<rparr>)"

text \<open>
  A later-revision card that is ready at the first ACMD41. Its OCR has byte 0 equal to 0x40
  and the whole voltage window set; its CSD carries the size field 1000 in bytes 7 to 9.
\<close>

definition card_v2 :: sim_card where
  "card_v2 =
     \<lparr>sim_rx = 0x01, sim_if_cond = [0x01, 0x00, 0x00, 0x01, 0x55], sim_ocr_status = 0,
      sim_ocr = [0x00, 0x40, 0xff, 0x80, 0x00], sim_acmd41 = 0x00,
      sim_csd = [0x40, 0x0e, 0x00, 0x32, 0x5b, 0x59, 0x00, 0x00,
                 0x03, 0xe8, 0x7f, 0x80, 0x0a, 0x40, 0x00, 0x01],
      sim_tick_step = 1\<rparr>"

text \<open>An earlier-revision card: it answers CMD8 with the illegal-command flag.\<close>

definition card_v1 :: sim_card where
  "card_v1 = card_v2\<lparr>sim_if_cond := [0x05, 0x00, 0x00, 0x00, 0x00],
                       sim_ocr := [0x00, 0x00, 0xff, 0x80, 0x00]\<rparr>"

text \<open>
  Modelled from the spec: the header with the numeric error codes is missing. Section 4.6
  says that distinct error codes are each a distinct bit; these are four such values, used
  where a concrete run needs numbers.
\<close>

definition example_codes :: sd_codes where
  "example_codes =
     \<lparr>SD_ERROR = 1, SD_TIMEOUT = 2, SD_TRANSMISSION_ERROR = 4, SD_UNUSABLE_CARD = 8\<rparr>"

text \<open>
  The session state at start-up: \<^verbatim>\<open>sd_card_status = { 0 }\<close> (the capacity field is taken
  to be \<^verbatim>\<open>STANDART\<close>; no claim reads it before it is written), latch false, nothing sent.
\<close>

definition s_init :: sd_state where
  "s_init =
     \<lparr>trace = [],
      sd_card_status = \<lparr>version = 0, capacity = STANDART, error_in_initialization = False\<rparr>,
      sd_card_is_spi_mode = False\<rparr>"

text \<open>
  A card whose CMD58 exchange ends with status 2 (the timeout code of \<open>example_codes\<close>)
  and no byte read.
\<close>

definition card_ocr_timeout :: sim_card where
  "card_ocr_timeout = card_v2\<lparr>sim_ocr_status := 2, sim_ocr := []\<rparr>"

text \<open>A cleared geometry record to decode into.\<close>

definition info_zero :: sd_info where
  "info_zero =
     \<lparr>command_classes = 0, max_data_block_size = 0, partial_blocks_allowed = False, size = 0\<rparr>"

text \<open>
  A version 1 CSD register whose device-size bits are all set (low two bits of byte 6,
  byte 7, high two bits of byte 8), with size multiplier 0 and block length exponent 9;
  and a session in which version 1 has been recorded.
\<close>

definition csd_v1_example :: "u8 list" where
  "csd_v1_example = [0x00, 0x26, 0x00, 0x32, 0x5f, 0x59, 0x03, 0xff,
                     0xc0, 0x00, 0x00, 0x00, 0x00, 0x00, 0x00, 0x01]"

definition s_v1 :: sd_state where
  "s_v1 = s_init\<lparr>sd_card_status := (sd_card_status s_init)\<lparr>version := 1\<rparr>\<rparr>"

text \<open>
  A healthy later-revision card behind a transport that reports status 4 for the
  interface-condition exchange (CMD8 with argument 0x155) and returns no bytes for it.
\<close>

definition hw_if_cond_fails :: hardware where
  "hw_if_cond_fails h op =
     (if op = Op_SEND_CMD (sd_card_get_cmd 8 0x155)
      then \<lparr>rep_status = 4, rep_bytes = [], rep_tick = 0\<rparr>
      else sim_hw card_v2 h op)"

text \<open>
  A card that goes idle just as the deadline of mode entry passes. The tick source reads 0
  up to and including the read that gives \<^verbatim>\<open>tickstart\<close> (the sixteenth hardware call of
  mode entry), 499 in the first poll and 501 from the second poll on; the byte received is
  0xff up to and including the first poll and in-idle-state (0x01) from the second poll
  on. Every status is OK.
\<close>

definition hw_idle_at_deadline :: hardware where
  "hw_idle_at_deadline h op =
     (case op of
        Op_receive_byte \<Rightarrow>
          \<lparr>rep_status = 0, rep_bytes = [if length h < 18 then 0xff else 0x01], rep_tick = 0\<rparr>
      | Op_GetTick \<Rightarrow>
          \<lparr>rep_status = 0, rep_bytes = [],
           rep_tick = (if length h < 17 then 0 else if length h < 19 then 499 else 501)\<rparr>
      | _ \<Rightarrow> \<lparr>rep_status = 0, rep_bytes = [], rep_tick = 0\<rparr>)"

section \<open>Properties\<close>

subsection \<open>Hardware calls change the trace only\<close>

lemma io_eq:
  "io hw op s = (hw (trace s) op, s\<lparr>trace := (op, hw (trace s) op) # trace s\<rparr>)"
  by (simp add: io_def Let_def)

lemma SEND_CMD_eq:
  "SEND_CMD hw cmd status s =
     (rep_bytes (hw (trace s) (Op_SEND_CMD cmd)),
      status OR rep_status (hw (trace s) (Op_SEND_CMD cmd)),
      s\<lparr>trace := (Op_SEND_CMD cmd, hw (trace s) (Op_SEND_CMD cmd)) # trace s\<rparr>)"
  by (simp add: SEND_CMD_def io_eq)

lemma v1_init_poll_frame:
  "v1_init_poll f c hw t0 st s = Some (x, s') \<Longrightarrow>
     sd_card_status s' = sd_card_status s \<and>
     sd_card_is_spi_mode s' = sd_card_is_spi_mode s \<and>
     (acmd41_ready_last s' \<longleftrightarrow> (\<exists>b. x = Break b))"
proof (induction f arbitrary: st s)
  case 0
  then show ?case by simp
next
  case (Suc n)
  then show ?case
    by (auto simp: SEND_CMD_eq io_eq Let_def acmd41_ready_last_def R1_CLEAR_FLAGS_def
          split: if_splits)
qed

lemma v2_init_poll_frame:
  "v2_init_poll f c hw t0 st s = Some (x, s') \<Longrightarrow>
     sd_card_status s' = sd_card_status s \<and>
     sd_card_is_spi_mode s' = sd_card_is_spi_mode s \<and>
     (acmd41_ready_last s' \<longleftrightarrow> (\<exists>b. x = Break b))"
proof (induction f arbitrary: st s)
  case 0
  then show ?case by simp
next
  case (Suc n)
  then show ?case
    by (auto simp: SEND_CMD_eq io_eq Let_def acmd41_ready_last_def R1_CLEAR_FLAGS_def
          split: if_splits)
qed

subsection \<open>What a run adds to the trace\<close>

lemma seen_append: "seen (xs @ ys) = seen xs OR seen ys"
  by (induction xs) (simp_all add: or.assoc)

lemma events_since_append: "trace s' = new @ trace s \<Longrightarrow> events_since s s' = new"
  by (simp add: events_since_def)

lemma enter_spi_mode_poll_trace:
  "enter_spi_mode_poll f c hw t0 st s = Some (x, s') \<Longrightarrow>
     \<exists>new. trace s' = new @ trace s \<and> 2 \<le> length new \<and>
       sd_card_status s' = sd_card_status s \<and>
       sd_card_is_spi_mode s' = sd_card_is_spi_mode s \<and>
       (\<forall>e \<in> set (drop 2 new). fst e = Op_receive_byte \<longrightarrow> polled_r1 e \<noteq> R1_IN_IDLE_STATE) \<and>
       (case x of
          Break b \<Rightarrow> b = st OR seen new \<and> last_tick s' \<noteq> None
        | Return e \<Rightarrow> e = SD_TIMEOUT c \<and> (\<exists>t. last_tick s' = Some t \<and> 500 < t - t0))"
proof (induction f arbitrary: st s)
  case 0
  then show ?case by simp
next
  case (Suc n)
  let ?r = "hw (trace s) Op_receive_byte"
  let ?s1 = "s\<lparr>trace := (Op_receive_byte, ?r) # trace s\<rparr>"
  let ?t = "hw (trace ?s1) Op_GetTick"
  let ?s2 = "?s1\<lparr>trace := (Op_GetTick, ?t) # trace ?s1\<rparr>"
  show ?case
  proof (cases "500 < rep_tick ?t - t0")
    case True
    with Suc.prems have "x = Return (SD_TIMEOUT c)" "s' = ?s2"
      by (auto simp: io_eq Let_def)
    then show ?thesis using True
      by (intro exI[of _ "[(Op_GetTick, ?t), (Op_receive_byte, ?r)]"])
         (simp add: last_tick_def)
  next
    case False
    note nt = this
    show ?thesis
    proof (cases "byte_at (rep_bytes ?r) 0 = R1_IN_IDLE_STATE")
      case True
      with nt Suc.prems have "x = Break (st OR rep_status ?r)" "s' = ?s2"
        by (auto simp: io_eq Let_def)
      then show ?thesis
        by (intro exI[of _ "[(Op_GetTick, ?t), (Op_receive_byte, ?r)]"])
           (simp add: last_tick_def event_status_def)
    next
      case False
      with nt Suc.prems have rec: "enter_spi_mode_poll n c hw t0 (st OR rep_status ?r) ?s2 = Some (x, s')"
        by (auto simp: io_eq Let_def)
      from Suc.IH[OF rec] obtain new where
        n1: "trace s' = new @ trace ?s2" and n0: "2 \<le> length new" and
        n2: "sd_card_status s' = sd_card_status ?s2" "sd_card_is_spi_mode s' = sd_card_is_spi_mode ?s2" and
        n3: "\<forall>e \<in> set (drop 2 new). fst e = Op_receive_byte \<longrightarrow> polled_r1 e \<noteq> R1_IN_IDLE_STATE" and
        n4: "(case x of
          Break b \<Rightarrow> b = (st OR rep_status ?r) OR seen new \<and> last_tick s' \<noteq> None
        | Return e \<Rightarrow> e = SD_TIMEOUT c \<and> (\<exists>t. last_tick s' = Some t \<and> 500 < t - t0))"
        by blast
      let ?new = "new @ [(Op_GetTick, ?t), (Op_receive_byte, ?r)]"
      have a: "trace s' = ?new @ trace s" using n1 by simp
      have b: "\<forall>e \<in> set (drop 2 ?new). fst e = Op_receive_byte \<longrightarrow> polled_r1 e \<noteq> R1_IN_IDLE_STATE"
        using n3 n0 False by (auto simp: polled_r1_def)
      have c: "seen ?new = rep_status ?r OR seen new"
        by (simp add: seen_append event_status_def or.commute)
      have d: "(case x of
          Break b \<Rightarrow> b = st OR seen ?new \<and> last_tick s' \<noteq> None
        | Return e \<Rightarrow> e = SD_TIMEOUT c \<and> (\<exists>t. last_tick s' = Some t \<and> 500 < t - t0))"
        using n4 c by (cases x) (simp_all add: or.assoc)
      from a b d n2 n0 show ?thesis by (intro exI[of _ ?new]) simp
    qed
  qed
qed

lemma v1_init_poll_trace:
  "v1_init_poll f c hw t0 st s = Some (x, s') \<Longrightarrow>
     \<exists>new. trace s' = new @ trace s \<and>
       (case x of
          Break b \<Rightarrow> b = st OR seen new
        | Return e \<Rightarrow>
            (\<forall>ev \<in> set new. is_acmd41 ev \<longrightarrow> polled_r1 ev \<noteq> R1_CLEAR_FLAGS) \<and>
            (e = SD_UNUSABLE_CARD c \<and> acmd41_illegal_last s' \<or>
             e = SD_TIMEOUT c \<and> (\<exists>t. last_tick s' = Some t \<and> 1000 < t - t0)))"
proof (induction f arbitrary: st s)
  case 0
  then show ?case by simp
next
  case (Suc n)
  let ?a = "hw (trace s) (Op_SEND_CMD (sd_card_get_cmd 55 0))"
  let ?s1 = "s\<lparr>trace := (Op_SEND_CMD (sd_card_get_cmd 55 0), ?a) # trace s\<rparr>"
  let ?r = "hw (trace ?s1) (Op_SEND_CMD (sd_card_get_cmd 41 0))"
  let ?s2 = "?s1\<lparr>trace := (Op_SEND_CMD (sd_card_get_cmd 41 0), ?r) # trace ?s1\<rparr>"
  let ?t = "hw (trace ?s2) Op_GetTick"
  let ?s3 = "?s2\<lparr>trace := (Op_GetTick, ?t) # trace ?s2\<rparr>"
  let ?st2 = "(st OR rep_status ?a) OR rep_status ?r"
  let ?two = "[(Op_SEND_CMD (sd_card_get_cmd 41 0), ?r), (Op_SEND_CMD (sd_card_get_cmd 55 0), ?a)]"
  have seen_two: "seen ?two = rep_status ?r OR rep_status ?a"
    by (simp add: event_status_def)
  consider (ready) "r1_of (rep_bytes ?r) = R1_CLEAR_FLAGS"
    | (illegal) "r1_of (rep_bytes ?r) \<noteq> R1_CLEAR_FLAGS" "r1_of (rep_bytes ?r) AND R1_ILLEGAL_COMMAND \<noteq> 0"
    | (late) "r1_of (rep_bytes ?r) \<noteq> R1_CLEAR_FLAGS" "r1_of (rep_bytes ?r) AND R1_ILLEGAL_COMMAND = 0"
        "1000 < rep_tick ?t - t0"
    | (again) "r1_of (rep_bytes ?r) \<noteq> R1_CLEAR_FLAGS" "r1_of (rep_bytes ?r) AND R1_ILLEGAL_COMMAND = 0"
        "\<not> 1000 < rep_tick ?t - t0"
    by blast
  then show ?case
  proof cases
    case ready
    with Suc.prems have "x = Break ?st2" "s' = ?s2"
      by (auto simp: SEND_CMD_eq io_eq Let_def)
    then show ?thesis
      by (intro exI[of _ ?two]) (simp add: event_status_def ac_simps)
  next
    case illegal
    with Suc.prems have "x = Return (SD_UNUSABLE_CARD c)" "s' = ?s2"
      by (auto simp: SEND_CMD_eq io_eq Let_def)
    then show ?thesis using illegal
      by (intro exI[of _ ?two])
         (simp add: acmd41_illegal_last_def is_acmd41_def polled_r1_def r1_of_def sd_card_get_cmd_def)
  next
    case late
    with Suc.prems have "x = Return (SD_TIMEOUT c)" "s' = ?s3"
      by (auto simp: SEND_CMD_eq io_eq Let_def)
    then show ?thesis using late
      by (intro exI[of _ "(Op_GetTick, ?t) # ?two"])
         (simp add: last_tick_def is_acmd41_def polled_r1_def r1_of_def sd_card_get_cmd_def)
  next
    case again
    with Suc.prems have rec: "v1_init_poll n c hw t0 ?st2 ?s3 = Some (x, s')"
      by (auto simp: SEND_CMD_eq io_eq Let_def)
    from Suc.IH[OF rec] obtain new where
      n1: "trace s' = new @ trace ?s3" and
      n2: "(case x of
          Break b \<Rightarrow> b = ?st2 OR seen new
        | Return e \<Rightarrow>
            (\<forall>ev \<in> set new. is_acmd41 ev \<longrightarrow> polled_r1 ev \<noteq> R1_CLEAR_FLAGS) \<and>
            (e = SD_UNUSABLE_CARD c \<and> acmd41_illegal_last s' \<or>
             e = SD_TIMEOUT c \<and> (\<exists>t. last_tick s' = Some t \<and> 1000 < t - t0)))"
      by blast
    let ?new = "new @ (Op_GetTick, ?t) # ?two"
    have a: "trace s' = ?new @ trace s" using n1 by simp
    have c: "seen ?new = seen new OR (rep_status ?r OR rep_status ?a)"
      by (simp add: seen_append event_status_def)
    have d: "\<forall>ev \<in> set ((Op_GetTick, ?t) # ?two). is_acmd41 ev \<longrightarrow> polled_r1 ev \<noteq> R1_CLEAR_FLAGS"
      using again(1) by (simp add: is_acmd41_def polled_r1_def r1_of_def sd_card_get_cmd_def)
    have e: "(case x of
          Break b \<Rightarrow> b = st OR seen ?new
        | Return e \<Rightarrow>
            (\<forall>ev \<in> set ?new. is_acmd41 ev \<longrightarrow> polled_r1 ev \<noteq> R1_CLEAR_FLAGS) \<and>
            (e = SD_UNUSABLE_CARD c \<and> acmd41_illegal_last s' \<or>
             e = SD_TIMEOUT c \<and> (\<exists>t. last_tick s' = Some t \<and> 1000 < t - t0)))"
    proof (cases x)
      case (Break b)
      with n2 c show ?thesis by (simp add: ac_simps)
    next
      case (Return e)
      with n2 d show ?thesis by auto
    qed
    from a e show ?thesis by (intro exI[of _ ?new]) simp
  qed
qed

lemma v2_init_poll_trace:
  "v2_init_poll f c hw t0 st s = Some (x, s') \<Longrightarrow>
     \<exists>new. trace s' = new @ trace s \<and>
       (case x of
          Break b \<Rightarrow> b = st OR seen new
        | Return e \<Rightarrow>
            (\<forall>ev \<in> set new. is_acmd41 ev \<longrightarrow> polled_r1 ev \<noteq> R1_CLEAR_FLAGS) \<and>
            e = SD_TIMEOUT c \<and> (\<exists>t. last_tick s' = Some t \<and> 1000 < t - t0))"
proof (induction f arbitrary: st s)
  case 0
  then show ?case by simp
next
  case (Suc n)
  let ?a = "hw (trace s) (Op_SEND_CMD (sd_card_get_cmd 55 0))"
  let ?s1 = "s\<lparr>trace := (Op_SEND_CMD (sd_card_get_cmd 55 0), ?a) # trace s\<rparr>"
  let ?r = "hw (trace ?s1) (Op_SEND_CMD (sd_card_get_cmd 41 0))"
  let ?s2 = "?s1\<lparr>trace := (Op_SEND_CMD (sd_card_get_cmd 41 0), ?r) # trace ?s1\<rparr>"
  let ?t = "hw (trace ?s2) Op_GetTick"
  let ?s3 = "?s2\<lparr>trace := (Op_GetTick, ?t) # trace ?s2\<rparr>"
  let ?st2 = "(st OR rep_status ?a) OR rep_status ?r"
  let ?two = "[(Op_SEND_CMD (sd_card_get_cmd 41 0), ?r), (Op_SEND_CMD (sd_card_get_cmd 55 0), ?a)]"
  consider (ready) "r1_of (rep_bytes ?r) = R1_CLEAR_FLAGS"
    | (late) "r1_of (rep_bytes ?r) \<noteq> R1_CLEAR_FLAGS" "1000 < rep_tick ?t - t0"
    | (again) "r1_of (rep_bytes ?r) \<noteq> R1_CLEAR_FLAGS" "\<not> 1000 < rep_tick ?t - t0"
    by blast
  then show ?case
  proof cases
    case ready
    with Suc.prems have "x = Break ?st2" "s' = ?s2"
      by (auto simp: SEND_CMD_eq io_eq Let_def)
    then show ?thesis
      by (intro exI[of _ ?two]) (simp add: event_status_def ac_simps)
  next
    case late
    with Suc.prems have "x = Return (SD_TIMEOUT c)" "s' = ?s3"
      by (auto simp: SEND_CMD_eq io_eq Let_def)
    then show ?thesis using late
      by (intro exI[of _ "(Op_GetTick, ?t) # ?two"])
         (simp add: last_tick_def is_acmd41_def polled_r1_def r1_of_def sd_card_get_cmd_def)
  next
    case again
    with Suc.prems have rec: "v2_init_poll n c hw t0 ?st2 ?s3 = Some (x, s')"
      by (auto simp: SEND_CMD_eq io_eq Let_def)
    from Suc.IH[OF rec] obtain new where
      n1: "trace s' = new @ trace ?s3" and
      n2: "(case x of
          Break b \<Rightarrow> b = ?st2 OR seen new
        | Return e \<Rightarrow>
            (\<forall>ev \<in> set new. is_acmd41 ev \<longrightarrow> polled_r1 ev \<noteq> R1_CLEAR_FLAGS) \<and>
            e = SD_TIMEOUT c \<and> (\<exists>t. last_tick s' = Some t \<and> 1000 < t - t0))"
      by blast
    let ?new = "new @ (Op_GetTick, ?t) # ?two"
    have a: "trace s' = ?new @ trace s" using n1 by simp
    have c: "seen ?new = seen new OR (rep_status ?r OR rep_status ?a)"
      by (simp add: seen_append event_status_def)
    have d: "\<forall>ev \<in> set ((Op_GetTick, ?t) # ?two). is_acmd41 ev \<longrightarrow> polled_r1 ev \<noteq> R1_CLEAR_FLAGS"
      using again(1) by (simp add: is_acmd41_def polled_r1_def r1_of_def sd_card_get_cmd_def)
    have e: "(case x of
          Break b \<Rightarrow> b = st OR seen ?new
        | Return e \<Rightarrow>
            (\<forall>ev \<in> set ?new. is_acmd41 ev \<longrightarrow> polled_r1 ev \<noteq> R1_CLEAR_FLAGS) \<and>
            e = SD_TIMEOUT c \<and> (\<exists>t. last_tick s' = Some t \<and> 1000 < t - t0))"
    proof (cases x)
      case (Break b)
      with n2 c show ?thesis by (simp add: ac_simps)
    next
      case (Return e)
      with n2 d show ?thesis by auto
    qed
    from a e show ?thesis by (intro exI[of _ ?new]) simp
  qed
qed

lemma first_tick_append_old:
  "\<forall>e \<in> set old. fst e \<noteq> Op_GetTick \<Longrightarrow> first_tick (new @ old) = first_tick new"
  by (simp add: first_tick_def)

lemma first_tick_snoc: "first_tick (new @ [(Op_GetTick, t)]) = Some (rep_tick t)"
  by (simp add: first_tick_def)

lemma last_tick_cons: "trace s = (op, r) # tr \<Longrightarrow> op \<noteq> Op_GetTick \<Longrightarrow> last_tick s = None"
  by (cases op) (simp_all add: last_tick_def)

lemma acmd41_ready_last_no_tick: "acmd41_ready_last s \<Longrightarrow> last_tick s = None"
  by (auto simp: acmd41_ready_last_def last_tick_def split: list.splits io_op.splits)

lemma acmd41_illegal_last_no_tick: "acmd41_illegal_last s \<Longrightarrow> last_tick s = None"
  by (auto simp: acmd41_illegal_last_def last_tick_def split: list.splits io_op.splits)

lemma power_on_clocks_no_tick:
  "power_on_clocks hw n st s = (st', s') \<Longrightarrow>
     \<exists>new. trace s' = new @ trace s \<and> st' = st OR seen new \<and>
       (\<forall>e \<in> set new. fst e \<noteq> Op_GetTick) \<and>
       sd_card_is_spi_mode s' = sd_card_is_spi_mode s \<and> sd_card_status s' = sd_card_status s"
proof (induction n arbitrary: st s)
  case 0
  then show ?case by simp
next
  case (Suc n)
  let ?r = "hw (trace s) (Op_SPI_Transmit [0xff])"
  let ?s1 = "s\<lparr>trace := (Op_SPI_Transmit [0xff], ?r) # trace s\<rparr>"
  from Suc.prems have rec: "power_on_clocks hw n (st OR rep_status ?r) ?s1 = (st', s')"
    by (simp add: io_eq)
  from Suc.IH[OF rec] obtain new where
    n1: "trace s' = new @ trace ?s1" and n2: "st' = (st OR rep_status ?r) OR seen new" and
    n3: "\<forall>e \<in> set new. fst e \<noteq> Op_GetTick" and
    n4: "sd_card_is_spi_mode s' = sd_card_is_spi_mode ?s1" "sd_card_status s' = sd_card_status ?s1"
    by blast
  show ?case using n1 n2 n3 n4
    by (intro exI[of _ "new @ [(Op_SPI_Transmit [0xff], ?r)]"])
       (simp add: seen_append event_status_def ac_simps)
qed

lemma sd_card_power_on_returns:
  "sd_card_power_on hw s = (st, s') \<Longrightarrow>
     \<exists>new. trace s' = new @ trace s \<and> st = seen new \<and> new \<noteq> [] \<and>
       (\<forall>e \<in> set new. fst e \<noteq> Op_GetTick) \<and>
       sd_card_is_spi_mode s' = sd_card_is_spi_mode s \<and> sd_card_status s' = sd_card_status s"
proof -
  assume a: "sd_card_power_on hw s = (st, s')"
  let ?d = "hw (trace s) Op_DISELECT_SD"
  let ?s1 = "s\<lparr>trace := (Op_DISELECT_SD, ?d) # trace s\<rparr>"
  obtain st2 s2 where p: "power_on_clocks hw 10 SD_OK ?s1 = (st2, s2)"
    by (cases "power_on_clocks hw 10 SD_OK ?s1") auto
  from power_on_clocks_no_tick[OF p] obtain new where
    n1: "trace s2 = new @ trace ?s1" and n2: "st2 = SD_OK OR seen new" and
    n3: "\<forall>e \<in> set new. fst e \<noteq> Op_GetTick" and
    n4: "sd_card_is_spi_mode s2 = sd_card_is_spi_mode ?s1" "sd_card_status s2 = sd_card_status ?s1"
    by blast
  let ?r = "hw (trace s2) Op_receive_byte"
  from a p have e: "st = st2 OR rep_status ?r" "s' = s2\<lparr>trace := (Op_receive_byte, ?r) # trace s2\<rparr>"
    by (auto simp: sd_card_power_on_def io_eq Let_def)
  show ?thesis using e n1 n2 n3 n4
    by (intro exI[of _ "(Op_receive_byte, ?r) # new @ [(Op_DISELECT_SD, ?d)]"])
       (simp add: seen_append event_status_def SD_OK_def ac_simps)
qed

lemma sd_card_enter_spi_mode_returns:
  assumes a: "sd_card_enter_spi_mode f c hw s = Some (e, s')"
      and nl: "\<not> sd_card_is_spi_mode s"
  shows "\<exists>new. trace s' = new @ trace s \<and>
           (case last_tick s' of
              Some t \<Rightarrow> e = SD_TIMEOUT c \<and> (\<exists>t0. first_tick new = Some t0 \<and> 500 < t - t0)
            | None \<Rightarrow> e = seen new)"
proof -
  obtain st1 s1 where p: "sd_card_power_on hw s = (st1, s1)"
    by (cases "sd_card_power_on hw s") auto
  from sd_card_power_on_returns[OF p] obtain new1 where
    n1: "trace s1 = new1 @ trace s" "st1 = seen new1" "new1 \<noteq> []"
        "\<forall>e \<in> set new1. fst e \<noteq> Op_GetTick"
    by blast
  show ?thesis
  proof (cases "st1 = 0")
    case nz: False
    with a nl p have r: "e = st1" "s' = s1" by (auto simp: sd_card_enter_spi_mode_def)
    from n1 have "last_tick s1 = None"
      by (cases new1) (auto intro: last_tick_cons)
    with r n1 show ?thesis by (intro exI[of _ new1]) simp
  next
    case z: True
    let ?d = "hw (trace s1) Op_SELECT_SD"
    let ?s2 = "s1\<lparr>trace := (Op_SELECT_SD, ?d) # trace s1\<rparr>"
    let ?r = "hw (trace ?s2) (Op_SPI_Transmit_cmd (sd_card_get_cmd 0 0))"
    let ?s3 = "?s2\<lparr>trace := (Op_SPI_Transmit_cmd (sd_card_get_cmd 0 0), ?r) # trace ?s2\<rparr>"
    let ?r' = "hw (trace ?s3) Op_receive_byte"
    let ?s4 = "?s3\<lparr>trace := (Op_receive_byte, ?r') # trace ?s3\<rparr>"
    let ?t = "hw (trace ?s4) Op_GetTick"
    let ?s5 = "?s4\<lparr>trace := (Op_GetTick, ?t) # trace ?s4\<rparr>"
    let ?st2 = "(st1 OR rep_status ?r) OR rep_status ?r'"
    let ?old = "[(Op_receive_byte, ?r'), (Op_SPI_Transmit_cmd (sd_card_get_cmd 0 0), ?r),
                 (Op_SELECT_SD, ?d)] @ new1"
    have old: "trace ?s5 = (Op_GetTick, ?t) # ?old @ trace s"
      "seen ?old = rep_status ?r' OR rep_status ?r" "\<forall>e \<in> set ?old. fst e \<noteq> Op_GetTick"
      using n1 z by (simp_all add: seen_append event_status_def)
    from a nl p z obtain x s6 where
      l: "enter_spi_mode_poll f c hw (rep_tick ?t) ?st2 ?s5 = Some (x, s6)"
      by (auto simp: sd_card_enter_spi_mode_def io_eq Let_def split: option.splits)
    from enter_spi_mode_poll_trace[OF l] obtain new2 where
      n2: "trace s6 = new2 @ trace ?s5"
        "(case x of Break b \<Rightarrow> b = ?st2 OR seen new2 \<and> last_tick s6 \<noteq> None
          | Return e \<Rightarrow> e = SD_TIMEOUT c \<and> (\<exists>t. last_tick s6 = Some t \<and> 500 < t - rep_tick ?t))"
      by blast
    have ft: "\<And>pre. first_tick ((pre @ new2 @ [(Op_GetTick, ?t)]) @ ?old) = Some (rep_tick ?t)"
    proof -
      fix pre
      have "first_tick ((pre @ new2 @ [(Op_GetTick, ?t)]) @ ?old) =
              first_tick ((pre @ new2) @ [(Op_GetTick, ?t)])"
        using old(3) by (subst first_tick_append_old) simp_all
      then show "first_tick ((pre @ new2 @ [(Op_GetTick, ?t)]) @ ?old) = Some (rep_tick ?t)"
        by (simp only: first_tick_snoc)
    qed
    show ?thesis
    proof (cases x)
      case (Return e')
      with a nl p z l have r: "e = e'" "s' = s6"
        by (auto simp: sd_card_enter_spi_mode_def io_eq Let_def)
      from Return n2 obtain t where t: "e' = SD_TIMEOUT c" "last_tick s6 = Some t"
        "500 < t - rep_tick ?t" by auto
      have "trace s' = (([] @ new2 @ [(Op_GetTick, ?t)]) @ ?old) @ trace s"
        using r n2 old by simp
      with r t ft[of "[]"] show ?thesis
        by (intro exI[of _ "([] @ new2 @ [(Op_GetTick, ?t)]) @ ?old"]) simp
    next
      case (Break b)
      let ?d' = "hw (trace s6) Op_DISELECT_SD"
      from Break a nl p z l have r: "e = b" "trace s' = (Op_DISELECT_SD, ?d') # trace s6"
        by (auto simp: sd_card_enter_spi_mode_def io_eq Let_def split: if_splits)
      from Break n2 have b: "b = ?st2 OR seen new2" by simp
      have lt: "last_tick s' = None" using r(2) by (rule last_tick_cons) simp
      have tr: "trace s' = (([(Op_DISELECT_SD, ?d')] @ new2 @ [(Op_GetTick, ?t)]) @ ?old) @ trace s"
        using r n2 old by simp
      have "seen (([(Op_DISELECT_SD, ?d')] @ new2 @ [(Op_GetTick, ?t)]) @ ?old) = b"
        using b n1(2) old(2) z by (simp add: seen_append event_status_def ac_simps)
      with r lt tr show ?thesis
        by (intro exI[of _ "([(Op_DISELECT_SD, ?d')] @ new2 @ [(Op_GetTick, ?t)]) @ ?old"]) simp
    qed
  qed
qed

lemma sd_card_v1_init_process_returns:
  assumes a: "sd_card_v1_init_process f c hw s = Some (e, s')"
  shows "\<exists>new. trace s' = new @ trace s \<and>
           (case last_tick s' of
              Some t \<Rightarrow> e = SD_TIMEOUT c \<and> (\<exists>t0. first_tick new = Some t0 \<and> 1000 < t - t0)
            | None \<Rightarrow> e = SD_ERROR c \<or> e = SD_UNUSABLE_CARD c \<or> e = seen new)"
proof -
  let ?o = "hw (trace s) (Op_SEND_CMD (sd_card_get_cmd 58 0))"
  let ?s1 = "s\<lparr>trace := (Op_SEND_CMD (sd_card_get_cmd 58 0), ?o) # trace s\<rparr>"
  let ?t = "hw (trace ?s1) Op_GetTick"
  let ?s2 = "?s1\<lparr>trace := (Op_GetTick, ?t) # trace ?s1\<rparr>"
  let ?old = "[(Op_SEND_CMD (sd_card_get_cmd 58 0), ?o)]"
  show ?thesis
  proof (cases "voltage_window_ok (rep_bytes ?o)")
    case False
    with a have "e = SD_ERROR c" "s' = ?s1"
      by (auto simp: sd_card_v1_init_process_def SEND_CMD_eq)
    then show ?thesis
      by (intro exI[of _ ?old]) (simp add: last_tick_def)
  next
    case True
    with a obtain x s3 where
      l: "v1_init_poll f c hw (rep_tick ?t) (SD_OK OR rep_status ?o) ?s2 = Some (x, s3)"
      by (auto simp: sd_card_v1_init_process_def SEND_CMD_eq io_eq Let_def split: option.splits)
    from v1_init_poll_trace[OF l] obtain new where
      n: "trace s3 = new @ trace ?s2"
        "(case x of Break b \<Rightarrow> b = (SD_OK OR rep_status ?o) OR seen new
          | Return e \<Rightarrow>
            (\<forall>ev \<in> set new. is_acmd41 ev \<longrightarrow> polled_r1 ev \<noteq> R1_CLEAR_FLAGS) \<and>
            (e = SD_UNUSABLE_CARD c \<and> acmd41_illegal_last s3 \<or>
             e = SD_TIMEOUT c \<and> (\<exists>t. last_tick s3 = Some t \<and> 1000 < t - rep_tick ?t)))"
      by blast
    let ?new = "(new @ [(Op_GetTick, ?t)]) @ ?old"
    have tr: "trace s3 = ?new @ trace s" using n(1) by simp
    have "first_tick ?new = first_tick (new @ [(Op_GetTick, ?t)])"
      by (rule first_tick_append_old) simp
    then have ft: "first_tick ?new = Some (rep_tick ?t)"
      by (simp only: first_tick_snoc)
    show ?thesis
    proof (cases x)
      case (Return e')
      with a True l have r: "e = e'" "s' = s3"
        by (auto simp: sd_card_v1_init_process_def SEND_CMD_eq io_eq Let_def)
      from Return n(2) consider
          (unusable) "e' = SD_UNUSABLE_CARD c" "acmd41_illegal_last s3"
        | (timeout) t where "e' = SD_TIMEOUT c" "last_tick s3 = Some t" "1000 < t - rep_tick ?t"
        by auto
      then show ?thesis
      proof cases
        case unusable
        from unusable(2) have "last_tick s3 = None" by (rule acmd41_illegal_last_no_tick)
        with unusable r tr show ?thesis
          by (intro exI[of _ ?new]) simp
      next
        case timeout
        with r tr ft show ?thesis
          by (intro exI[of _ ?new]) simp
      qed
    next
      case (Break b)
      with a True l have r: "e = b" "trace s' = trace s3"
        by (auto simp: sd_card_v1_init_process_def SEND_CMD_eq io_eq Let_def)
      from v1_init_poll_frame[OF l] Break have "acmd41_ready_last s3" by blast
      then have "last_tick s3 = None" by (rule acmd41_ready_last_no_tick)
      with r(2) have lt: "last_tick s' = None" by (simp add: last_tick_def)
      from Break n(2) have "b = (SD_OK OR rep_status ?o) OR seen new" by simp
      then have "seen ?new = b"
        by (simp add: seen_append event_status_def SD_OK_def ac_simps)
      with r tr lt show ?thesis
        by (intro exI[of _ ?new]) simp
    qed
  qed
qed

lemma sd_card_v2_init_process_returns:
  assumes a: "sd_card_v2_init_process f c hw s = Some (e, s')"
  shows "\<exists>new. trace s' = new @ trace s \<and>
           (case last_tick s' of
              Some t \<Rightarrow> e = SD_TIMEOUT c \<and> (\<exists>t0. first_tick new = Some t0 \<and> 1000 < t - t0)
            | None \<Rightarrow> e = SD_UNUSABLE_CARD c \<or> e = seen new)"
proof -
  let ?o = "hw (trace s) (Op_SEND_CMD (sd_card_get_cmd 58 0))"
  let ?s1 = "s\<lparr>trace := (Op_SEND_CMD (sd_card_get_cmd 58 0), ?o) # trace s\<rparr>"
  let ?t = "hw (trace ?s1) Op_GetTick"
  let ?s2 = "?s1\<lparr>trace := (Op_GetTick, ?t) # trace ?s1\<rparr>"
  let ?old = "[(Op_SEND_CMD (sd_card_get_cmd 58 0), ?o)]"
  show ?thesis
  proof (cases "voltage_window_ok (rep_bytes ?o)")
    case False
    with a have "e = SD_UNUSABLE_CARD c" "s' = ?s1"
      by (auto simp: sd_card_v2_init_process_def SEND_CMD_eq)
    then show ?thesis
      by (intro exI[of _ ?old]) (simp add: last_tick_def)
  next
    case True
    with a obtain x s3 where
      l: "v2_init_poll f c hw (rep_tick ?t) (SD_OK OR rep_status ?o) ?s2 = Some (x, s3)"
      by (auto simp: sd_card_v2_init_process_def SEND_CMD_eq io_eq Let_def split: option.splits)
    from v2_init_poll_trace[OF l] obtain new where
      n: "trace s3 = new @ trace ?s2"
        "(case x of Break b \<Rightarrow> b = (SD_OK OR rep_status ?o) OR seen new
          | Return e \<Rightarrow>
            (\<forall>ev \<in> set new. is_acmd41 ev \<longrightarrow> polled_r1 ev \<noteq> R1_CLEAR_FLAGS) \<and>
            e = SD_TIMEOUT c \<and> (\<exists>t. last_tick s3 = Some t \<and> 1000 < t - rep_tick ?t))"
      by blast
    let ?new = "(new @ [(Op_GetTick, ?t)]) @ ?old"
    have tr: "trace s3 = ?new @ trace s" using n(1) by simp
    have "first_tick ?new = first_tick (new @ [(Op_GetTick, ?t)])"
      by (rule first_tick_append_old) simp
    then have ft: "first_tick ?new = Some (rep_tick ?t)"
      by (simp only: first_tick_snoc)
    show ?thesis
    proof (cases x)
      case (Return e')
      with a True l have r: "e = e'" "s' = s3"
        by (auto simp: sd_card_v2_init_process_def SEND_CMD_eq io_eq Let_def)
      from Return n(2) obtain t where
        "e' = SD_TIMEOUT c" "last_tick s3 = Some t" "1000 < t - rep_tick ?t"
        by auto
      with r tr ft show ?thesis
        by (intro exI[of _ ?new]) simp
    next
      case (Break b)
      with a True l have r: "e = b" "trace s' = trace s3"
        by (auto simp: sd_card_v2_init_process_def SEND_CMD_eq io_eq Let_def split: if_splits)
      from v2_init_poll_frame[OF l] Break have "acmd41_ready_last s3" by blast
      then have "last_tick s3 = None" by (rule acmd41_ready_last_no_tick)
      with r(2) have lt: "last_tick s' = None" by (simp add: last_tick_def)
      from Break n(2) have "b = (SD_OK OR rep_status ?o) OR seen new" by simp
      then have "seen ?new = b"
        by (simp add: seen_append event_status_def SD_OK_def ac_simps)
      with r tr lt show ?thesis
        by (intro exI[of _ ?new]) simp
    qed
  qed
qed

lemma sd_card_enter_spi_mode_trace:
  assumes a: "sd_card_enter_spi_mode f c hw s = Some (e, s')"
      and tz: "SD_TIMEOUT c \<noteq> 0"
  shows "\<exists>new. trace s' = new @ trace s \<and> (e = 0 \<longrightarrow> seen new = 0)"
proof (cases "sd_card_is_spi_mode s")
  case True
  with a have "s' = s" by (simp add: sd_card_enter_spi_mode_def)
  then show ?thesis by (intro exI[of _ "[]"]) simp
next
  case False
  from sd_card_enter_spi_mode_returns[OF a False] tz show ?thesis
    by (auto split: option.splits)
qed

lemma sd_card_crc_on_off_trace:
  assumes a: "sd_card_crc_on_off c hw b s = (e, s')"
      and tz: "SD_TRANSMISSION_ERROR c \<noteq> 0"
  shows "\<exists>new. trace s' = new @ trace s \<and> (e = 0 \<longrightarrow> seen new = 0)"
proof -
  let ?cmd = "sd_card_get_cmd 59 (if b then 1 else 0)"
  let ?r = "hw (trace s) (Op_SEND_CMD ?cmd)"
  from a tz show ?thesis
    by (intro exI[of _ "[(Op_SEND_CMD ?cmd, ?r)]"])
       (auto simp: sd_card_crc_on_off_def SEND_CMD_eq Let_def event_status_def SD_OK_def
          split: if_splits)
qed

lemma sd_card_v1_init_process_trace:
  assumes a: "sd_card_v1_init_process f c hw s = Some (e, s')"
      and tz: "SD_ERROR c \<noteq> 0" "SD_TIMEOUT c \<noteq> 0" "SD_UNUSABLE_CARD c \<noteq> 0"
  shows "\<exists>new. trace s' = new @ trace s \<and> (e = 0 \<longrightarrow> seen new = 0)"
  using sd_card_v1_init_process_returns[OF a] tz
  by (auto split: option.splits)

lemma sd_card_v2_init_process_trace:
  assumes a: "sd_card_v2_init_process f c hw s = Some (e, s')"
      and tz: "SD_TIMEOUT c \<noteq> 0" "SD_UNUSABLE_CARD c \<noteq> 0"
  shows "\<exists>new. trace s' = new @ trace s \<and> (e = 0 \<longrightarrow> seen new = 0)"
  using sd_card_v2_init_process_returns[OF a] tz
  by (auto split: option.splits)

lemma sd_card_crc_on_off_frame:
  "sd_card_crc_on_off c hw b s = (e, s') \<Longrightarrow>
     sd_card_status s' = sd_card_status s \<and> sd_card_is_spi_mode s' = sd_card_is_spi_mode s"
  by (auto simp: sd_card_crc_on_off_def SEND_CMD_eq Let_def split: if_splits)

lemma sd_card_v1_init_process_latch:
  "sd_card_v1_init_process f c hw s = Some (e, s') \<Longrightarrow>
     sd_card_is_spi_mode s' = sd_card_is_spi_mode s"
  by (auto simp: sd_card_v1_init_process_def SEND_CMD_eq io_eq Let_def
        split: if_splits option.splits loop_exit.splits dest!: v1_init_poll_frame)

lemma sd_card_v2_init_process_latch:
  "sd_card_v2_init_process f c hw s = Some (e, s') \<Longrightarrow>
     sd_card_is_spi_mode s' = sd_card_is_spi_mode s"
  by (auto simp: sd_card_v2_init_process_def SEND_CMD_eq io_eq Let_def
        split: if_splits option.splits loop_exit.splits dest!: v2_init_poll_frame)

lemma sd_card_reset_keeps_latch:
  assumes "sd_card_is_spi_mode s" "sd_card_reset f c hw crc s = Some (e, s')"
  shows "sd_card_is_spi_mode s'"
proof -
  from assms(1) have en: "sd_card_enter_spi_mode f c hw s = Some (SD_OK, s)"
    by (simp add: sd_card_enter_spi_mode_def)
  from assms en show ?thesis
    by (auto simp: sd_card_reset_def SD_OK_def SEND_CMD_eq Let_def end_of_initialization_def
          split: if_splits option.splits prod.splits
          dest!: sd_card_crc_on_off_frame sd_card_v1_init_process_latch sd_card_v2_init_process_latch)
qed

subsection \<open>The hardware calls of mode entry\<close>

lemma concat_replicate_snoc: "concat (replicate n xs) @ xs = concat (replicate (Suc n) xs)"
  by (induction n) simp_all

lemma length_concat_replicate: "length (concat (replicate n xs)) = n * length xs"
  by (induction n) simp_all

lemma power_on_clocks_ops:
  "power_on_clocks hw n st s = (st', s') \<Longrightarrow>
     \<exists>new. trace s' = new @ trace s \<and> st' = st OR seen new \<and>
       map fst new = replicate n (Op_SPI_Transmit [0xff]) \<and>
       sd_card_is_spi_mode s' = sd_card_is_spi_mode s \<and> sd_card_status s' = sd_card_status s"
proof (induction n arbitrary: st s)
  case 0
  then show ?case by simp
next
  case (Suc n)
  let ?r = "hw (trace s) (Op_SPI_Transmit [0xff])"
  let ?s1 = "s\<lparr>trace := (Op_SPI_Transmit [0xff], ?r) # trace s\<rparr>"
  from Suc.prems have rec: "power_on_clocks hw n (st OR rep_status ?r) ?s1 = (st', s')"
    by (simp add: io_eq)
  from Suc.IH[OF rec] obtain new where
    n1: "trace s' = new @ trace ?s1" and n2: "st' = (st OR rep_status ?r) OR seen new" and
    n3: "map fst new = replicate n (Op_SPI_Transmit [0xff])" and
    n4: "sd_card_is_spi_mode s' = sd_card_is_spi_mode ?s1" "sd_card_status s' = sd_card_status ?s1"
    by blast
  have "replicate n (Op_SPI_Transmit [0xff]) @ [Op_SPI_Transmit [0xff]] =
          replicate (Suc n) (Op_SPI_Transmit [0xff])"
    by (simp add: replicate_append_same)
  with n1 n2 n3 n4 show ?case
    by (intro exI[of _ "new @ [(Op_SPI_Transmit [0xff], ?r)]"])
       (simp add: seen_append event_status_def ac_simps)
qed

lemma enter_spi_mode_poll_ops:
  "enter_spi_mode_poll f c hw t0 st s = Some (x, s') \<Longrightarrow>
     \<exists>new k. trace s' = new @ trace s \<and>
       map fst new = concat (replicate (Suc k) [Op_GetTick, Op_receive_byte]) \<and>
       (case x of
          Break b \<Rightarrow> b = st OR seen new \<and> polled_r1 (new ! 1) = R1_IN_IDLE_STATE
        | Return e \<Rightarrow> e = SD_TIMEOUT c)"
proof (induction f arbitrary: st s)
  case 0
  then show ?case by simp
next
  case (Suc n)
  let ?r = "hw (trace s) Op_receive_byte"
  let ?s1 = "s\<lparr>trace := (Op_receive_byte, ?r) # trace s\<rparr>"
  let ?t = "hw (trace ?s1) Op_GetTick"
  let ?s2 = "?s1\<lparr>trace := (Op_GetTick, ?t) # trace ?s1\<rparr>"
  let ?one = "[(Op_GetTick, ?t), (Op_receive_byte, ?r)]"
  consider (late) "500 < rep_tick ?t - t0"
    | (idle) "\<not> 500 < rep_tick ?t - t0" "byte_at (rep_bytes ?r) 0 = R1_IN_IDLE_STATE"
    | (again) "\<not> 500 < rep_tick ?t - t0" "byte_at (rep_bytes ?r) 0 \<noteq> R1_IN_IDLE_STATE"
    by blast
  then show ?case
  proof cases
    case late
    with Suc.prems have "x = Return (SD_TIMEOUT c)" "s' = ?s2"
      by (auto simp: io_eq Let_def)
    then show ?thesis
      by (intro exI[of _ ?one] exI[of _ 0]) simp
  next
    case idle
    with Suc.prems have "x = Break (st OR rep_status ?r)" "s' = ?s2"
      by (auto simp: io_eq Let_def)
    with idle(2) show ?thesis
      by (intro exI[of _ ?one] exI[of _ 0]) (simp add: event_status_def polled_r1_def)
  next
    case again
    with Suc.prems have rec:
      "enter_spi_mode_poll n c hw t0 (st OR rep_status ?r) ?s2 = Some (x, s')"
      by (auto simp: io_eq Let_def)
    from Suc.IH[OF rec] obtain new k where
      n1: "trace s' = new @ trace ?s2" and
      n2: "map fst new = concat (replicate (Suc k) [Op_GetTick, Op_receive_byte])" and
      n3: "(case x of
          Break b \<Rightarrow> b = (st OR rep_status ?r) OR seen new \<and> polled_r1 (new ! 1) = R1_IN_IDLE_STATE
        | Return e \<Rightarrow> e = SD_TIMEOUT c)"
      by blast
    let ?new = "new @ ?one"
    have len: "2 \<le> length new"
    proof -
      have "length new = length (map fst new)" by simp
      also have "\<dots> = length (concat (replicate (Suc k) [Op_GetTick, Op_receive_byte]))"
        by (simp only: n2)
      finally show ?thesis by simp
    qed
    have a: "trace s' = ?new @ trace s" using n1 by simp
    have "map fst ?new = concat (replicate (Suc k) [Op_GetTick, Op_receive_byte]) @
            [Op_GetTick, Op_receive_byte]"
      using n2 by simp
    then have b: "map fst ?new = concat (replicate (Suc (Suc k)) [Op_GetTick, Op_receive_byte])"
      by (simp only: concat_replicate_snoc)
    have c: "seen ?new = seen new OR rep_status ?r"
      by (simp add: seen_append event_status_def)
    have d: "?new ! 1 = new ! 1" using len by (simp add: nth_append)
    have e: "(case x of
          Break b \<Rightarrow> b = st OR seen ?new \<and> polled_r1 (?new ! 1) = R1_IN_IDLE_STATE
        | Return e \<Rightarrow> e = SD_TIMEOUT c)"
      using n3 c d by (cases x) (simp_all add: ac_simps)
    from a b e show ?thesis
      by (intro exI[of _ ?new] exI[of _ "Suc k"]) (simp only: simp_thms)
  qed
qed

lemma sd_card_power_on_ops:
  assumes a: "sd_card_power_on hw s = (st, s')"
  shows "\<exists>new. trace s' = new @ trace s \<and> st = seen new \<and>
       map fst new = Op_receive_byte # replicate 10 (Op_SPI_Transmit [0xff]) @ [Op_DISELECT_SD] \<and>
       sd_card_is_spi_mode s' = sd_card_is_spi_mode s \<and> sd_card_status s' = sd_card_status s"
proof -
  let ?d = "hw (trace s) Op_DISELECT_SD"
  let ?s1 = "s\<lparr>trace := (Op_DISELECT_SD, ?d) # trace s\<rparr>"
  obtain st2 s2 where p: "power_on_clocks hw 10 SD_OK ?s1 = (st2, s2)"
    by (cases "power_on_clocks hw 10 SD_OK ?s1") auto
  from power_on_clocks_ops[OF p] obtain new where
    n1: "trace s2 = new @ trace ?s1" and n2: "st2 = SD_OK OR seen new" and
    n3: "map fst new = replicate 10 (Op_SPI_Transmit [0xff])" and
    n4: "sd_card_is_spi_mode s2 = sd_card_is_spi_mode ?s1" "sd_card_status s2 = sd_card_status ?s1"
    by blast
  let ?r = "hw (trace s2) Op_receive_byte"
  from a p have e: "st = st2 OR rep_status ?r"
    "s' = s2\<lparr>trace := (Op_receive_byte, ?r) # trace s2\<rparr>"
    by (auto simp: sd_card_power_on_def io_eq Let_def)
  show ?thesis using e n1 n2 n3 n4
    by (intro exI[of _ "(Op_receive_byte, ?r) # new @ [(Op_DISELECT_SD, ?d)]"])
       (simp add: seen_append event_status_def SD_OK_def ac_simps)
qed

lemma sd_card_enter_spi_mode_sets_latch:
  assumes a: "sd_card_enter_spi_mode f c hw s = Some (e, s')"
      and nl: "\<not> sd_card_is_spi_mode s" and l: "sd_card_is_spi_mode s'"
  shows "e = SD_OK \<and> seen (events_since s s') = SD_OK \<and>
         (\<exists>k. map fst (events_since s s') = entry_sequence k) \<and>
         polled_r1 (events_since s s' ! 2) = R1_IN_IDLE_STATE \<and>
         sd_card_status s' = sd_card_status s"
proof -
  obtain st1 s1 where p: "sd_card_power_on hw s = (st1, s1)"
    by (cases "sd_card_power_on hw s") auto
  from sd_card_power_on_ops[OF p] obtain new1 where
    n1': "trace s1 = new1 @ trace s \<and> st1 = seen new1 \<and>
       map fst new1 = Op_receive_byte # replicate 10 (Op_SPI_Transmit [0xff]) @ [Op_DISELECT_SD] \<and>
       sd_card_is_spi_mode s1 = sd_card_is_spi_mode s \<and> sd_card_status s1 = sd_card_status s"
    by (rule exE)
  then have
    n1: "trace s1 = new1 @ trace s" "st1 = seen new1"
        "map fst new1 = Op_receive_byte # replicate 10 (Op_SPI_Transmit [0xff]) @ [Op_DISELECT_SD]"
        "sd_card_is_spi_mode s1 = sd_card_is_spi_mode s" "sd_card_status s1 = sd_card_status s"
    by simp_all
  have z: "st1 = 0"
  proof (rule ccontr)
    assume "st1 \<noteq> 0"
    with a nl p have "s' = s1" by (auto simp: sd_card_enter_spi_mode_def)
    with n1(4) nl l show False by simp
  qed
  let ?d = "hw (trace s1) Op_SELECT_SD"
  let ?s2 = "s1\<lparr>trace := (Op_SELECT_SD, ?d) # trace s1\<rparr>"
  let ?r = "hw (trace ?s2) (Op_SPI_Transmit_cmd (sd_card_get_cmd 0 0))"
  let ?s3 = "?s2\<lparr>trace := (Op_SPI_Transmit_cmd (sd_card_get_cmd 0 0), ?r) # trace ?s2\<rparr>"
  let ?r' = "hw (trace ?s3) Op_receive_byte"
  let ?s4 = "?s3\<lparr>trace := (Op_receive_byte, ?r') # trace ?s3\<rparr>"
  let ?t = "hw (trace ?s4) Op_GetTick"
  let ?s5 = "?s4\<lparr>trace := (Op_GetTick, ?t) # trace ?s4\<rparr>"
  let ?st2 = "(st1 OR rep_status ?r) OR rep_status ?r'"
  let ?mid = "[(Op_GetTick, ?t), (Op_receive_byte, ?r'),
               (Op_SPI_Transmit_cmd (sd_card_get_cmd 0 0), ?r), (Op_SELECT_SD, ?d)]"
  have mid: "trace ?s5 = ?mid @ new1 @ trace s" "seen ?mid = rep_status ?r' OR rep_status ?r"
    "sd_card_is_spi_mode ?s5 = sd_card_is_spi_mode s" "sd_card_status ?s5 = sd_card_status s"
    using n1 by (simp_all add: event_status_def)
  from a nl p z obtain x s6 where
    lp: "enter_spi_mode_poll f c hw (rep_tick ?t) ?st2 ?s5 = Some (x, s6)"
    by (auto simp: sd_card_enter_spi_mode_def io_eq Let_def split: option.splits)
  from enter_spi_mode_poll_trace[OF lp] have fr:
    "sd_card_is_spi_mode s6 = sd_card_is_spi_mode ?s5" "sd_card_status s6 = sd_card_status ?s5"
    by auto
  from enter_spi_mode_poll_ops[OF lp] obtain new2 k where
    n2: "trace s6 = new2 @ trace ?s5"
        "map fst new2 = concat (replicate (Suc k) [Op_GetTick, Op_receive_byte])"
        "(case x of
            Break b \<Rightarrow> b = ?st2 OR seen new2 \<and> polled_r1 (new2 ! 1) = R1_IN_IDLE_STATE
          | Return e \<Rightarrow> e = SD_TIMEOUT c)"
    by blast
  obtain b where xb: "x = Break b"
  proof (cases x)
    case (Return e')
    with a nl p z lp have "s' = s6"
      by (auto simp: sd_card_enter_spi_mode_def io_eq Let_def)
    with fr(1) mid(3) nl l show ?thesis by simp
  next
    case (Break b)
    then show ?thesis by (rule that)
  qed
  let ?d' = "hw (trace s6) Op_DISELECT_SD"
  let ?s7 = "s6\<lparr>trace := (Op_DISELECT_SD, ?d') # trace s6\<rparr>"
  from xb a nl p z lp have r: "e = b"
    "s' = (if b = SD_OK then ?s7\<lparr>sd_card_is_spi_mode := True\<rparr> else ?s7)"
    by (auto simp: sd_card_enter_spi_mode_def io_eq Let_def)
  have b0: "b = SD_OK"
  proof (rule ccontr)
    assume "b \<noteq> SD_OK"
    with r(2) have "sd_card_is_spi_mode s' = sd_card_is_spi_mode s6" by simp
    with fr(1) mid(3) nl l show False by simp
  qed
  let ?new = "(Op_DISELECT_SD, ?d') # new2 @ ?mid @ new1"
  from r(2) b0 n2(1) mid(1) have tr: "trace s' = ?new @ trace s" by simp
  then have ev: "events_since s s' = ?new" by (rule events_since_append)
  from xb n2(3) have bv: "b = ?st2 OR seen new2" "polled_r1 (new2 ! 1) = R1_IN_IDLE_STATE"
    by simp_all
  have sn: "seen ?new = b"
    using bv(1) n1(2) mid(2) by (simp add: seen_append event_status_def ac_simps)
  have len: "2 \<le> length new2"
  proof -
    have "length new2 = length (map fst new2)" by simp
    also have "\<dots> = length (concat (replicate (Suc k) [Op_GetTick, Op_receive_byte]))"
      by (simp only: n2(2))
    finally show ?thesis by simp
  qed
  have ix: "?new ! 2 = new2 ! 1" using len by (simp add: nth_append numeral_2_eq_2)
  have ops: "map fst ?new = entry_sequence k"
    using n2(2) n1(3) by (simp add: entry_sequence_def)
  have st: "sd_card_status s' = sd_card_status s"
    using r(2) fr(2) mid(4) by simp
  from r(1) b0 sn ev ix bv(2) ops st show ?thesis
    by (simp only: simp_thms) blast
qed

lemma sd_card_enter_spi_mode_timeout_polls:
  assumes a: "sd_card_enter_spi_mode f c hw s = Some (e, s')"
      and nl: "\<not> sd_card_is_spi_mode s" and lt: "last_tick s' \<noteq> None"
  shows "\<exists>k. map fst (events_since s s') = tl (entry_sequence k) \<and>
           (\<forall>ev \<in> set (drop 2 (take (2 * Suc k) (events_since s s'))).
              fst ev = Op_receive_byte \<longrightarrow> polled_r1 ev \<noteq> R1_IN_IDLE_STATE)"
proof -
  obtain st1 s1 where p: "sd_card_power_on hw s = (st1, s1)"
    by (cases "sd_card_power_on hw s") auto
  from sd_card_power_on_ops[OF p] obtain new1 where
    n1': "trace s1 = new1 @ trace s \<and> st1 = seen new1 \<and>
       map fst new1 = Op_receive_byte # replicate 10 (Op_SPI_Transmit [0xff]) @ [Op_DISELECT_SD] \<and>
       sd_card_is_spi_mode s1 = sd_card_is_spi_mode s \<and> sd_card_status s1 = sd_card_status s"
    by (rule exE)
  then have
    n1: "trace s1 = new1 @ trace s"
        "map fst new1 = Op_receive_byte # replicate 10 (Op_SPI_Transmit [0xff]) @ [Op_DISELECT_SD]"
    by simp_all
  have z: "st1 = 0"
  proof (rule ccontr)
    assume "st1 \<noteq> 0"
    with a nl p have "s' = s1" by (auto simp: sd_card_enter_spi_mode_def)
    moreover from n1 obtain r tr where "trace s1 = (Op_receive_byte, r) # tr"
      by (cases new1) auto
    then have "last_tick s1 = None" by (rule last_tick_cons) simp
    ultimately show False using lt by simp
  qed
  let ?d = "hw (trace s1) Op_SELECT_SD"
  let ?s2 = "s1\<lparr>trace := (Op_SELECT_SD, ?d) # trace s1\<rparr>"
  let ?r = "hw (trace ?s2) (Op_SPI_Transmit_cmd (sd_card_get_cmd 0 0))"
  let ?s3 = "?s2\<lparr>trace := (Op_SPI_Transmit_cmd (sd_card_get_cmd 0 0), ?r) # trace ?s2\<rparr>"
  let ?r' = "hw (trace ?s3) Op_receive_byte"
  let ?s4 = "?s3\<lparr>trace := (Op_receive_byte, ?r') # trace ?s3\<rparr>"
  let ?t = "hw (trace ?s4) Op_GetTick"
  let ?s5 = "?s4\<lparr>trace := (Op_GetTick, ?t) # trace ?s4\<rparr>"
  let ?st2 = "(st1 OR rep_status ?r) OR rep_status ?r'"
  let ?mid = "[(Op_GetTick, ?t), (Op_receive_byte, ?r'),
               (Op_SPI_Transmit_cmd (sd_card_get_cmd 0 0), ?r), (Op_SELECT_SD, ?d)]"
  have mid: "trace ?s5 = ?mid @ new1 @ trace s"
    using n1 by simp
  from a nl p z obtain x s6 where
    lp: "enter_spi_mode_poll f c hw (rep_tick ?t) ?st2 ?s5 = Some (x, s6)"
    by (auto simp: sd_card_enter_spi_mode_def io_eq Let_def split: option.splits)
  from enter_spi_mode_poll_ops[OF lp] obtain new2 k where
    n2: "trace s6 = new2 @ trace ?s5"
        "map fst new2 = concat (replicate (Suc k) [Op_GetTick, Op_receive_byte])"
    by blast
  from enter_spi_mode_poll_trace[OF lp] obtain new2' where
    n3: "trace s6 = new2' @ trace ?s5"
        "\<forall>e \<in> set (drop 2 new2'). fst e = Op_receive_byte \<longrightarrow> polled_r1 e \<noteq> R1_IN_IDLE_STATE"
    by blast
  from n2(1) n3(1) have "new2' = new2" by simp
  with n3(2) have ni:
    "\<forall>e \<in> set (drop 2 new2). fst e = Op_receive_byte \<longrightarrow> polled_r1 e \<noteq> R1_IN_IDLE_STATE"
    by simp
  have s6: "s' = s6"
  proof (cases x)
    case (Return e')
    with a nl p z lp show ?thesis
      by (auto simp: sd_card_enter_spi_mode_def io_eq Let_def)
  next
    case (Break b)
    with a nl p z lp have "trace s' = (Op_DISELECT_SD, hw (trace s6) Op_DISELECT_SD) # trace s6"
      by (auto simp: sd_card_enter_spi_mode_def io_eq Let_def split: if_splits)
    then have "last_tick s' = None" by (rule last_tick_cons) simp
    with lt show ?thesis by simp
  qed
  let ?new = "new2 @ ?mid @ new1"
  from s6 n2(1) mid have "trace s' = ?new @ trace s" by simp
  then have ev: "events_since s s' = ?new" by (rule events_since_append)
  have len: "length new2 = 2 * Suc k"
  proof -
    have "length new2 = length (map fst new2)" by simp
    also have "\<dots> = length (concat (replicate (Suc k) [Op_GetTick, Op_receive_byte]))"
      by (simp only: n2(2))
    also have "\<dots> = 2 * Suc k" by (simp only: length_concat_replicate) simp
    finally show ?thesis .
  qed
  have ops: "map fst ?new = tl (entry_sequence k)"
    using n2(2) n1(2) by (simp add: entry_sequence_def)
  have tk: "take (2 * Suc k) ?new = new2"
    using len by simp
  have g1: "map fst (events_since s s') = tl (entry_sequence k)"
    using ops by (simp only: ev)
  have g2: "\<forall>ev \<in> set (drop 2 (take (2 * Suc k) (events_since s s'))).
              fst ev = Op_receive_byte \<longrightarrow> polled_r1 ev \<noteq> R1_IN_IDLE_STATE"
    using ni by (simp only: ev tk)
  from g1 g2 show ?thesis by (intro exI[of _ k] conjI)
qed

subsection \<open>The value each step returns\<close>

lemma sd_card_enter_spi_mode_value:
  assumes a: "sd_card_enter_spi_mode f c hw s = Some (e, s')"
  shows "if sd_card_is_spi_mode s then e = SD_OK \<and> s' = s
         else (case last_tick s' of
                 Some t \<Rightarrow> e = SD_TIMEOUT c
               | None \<Rightarrow> e = seen (events_since s s'))"
proof (cases "sd_card_is_spi_mode s")
  case True
  with a show ?thesis by (simp add: sd_card_enter_spi_mode_def)
next
  case False
  from sd_card_enter_spi_mode_returns[OF a False] obtain new where
    n: "trace s' = new @ trace s"
       "case last_tick s' of
          Some t \<Rightarrow> e = SD_TIMEOUT c \<and> (\<exists>t0. first_tick new = Some t0 \<and> 500 < t - t0)
        | None \<Rightarrow> e = seen new"
    by blast
  from n(1) have "events_since s s' = new" by (rule events_since_append)
  with n(2) False show ?thesis by (auto split: option.splits)
qed

lemma sd_card_crc_on_off_value:
  assumes a: "sd_card_crc_on_off c hw b s = (e, s')"
  shows "e = (if polled_r1 (hd (trace s')) \<noteq> R1_IN_IDLE_STATE then SD_TRANSMISSION_ERROR c
              else seen (events_since s s'))"
proof -
  let ?cmd = "sd_card_get_cmd 59 (if b then 1 else 0)"
  let ?r = "hw (trace s) (Op_SEND_CMD ?cmd)"
  from a have t: "trace s' = [(Op_SEND_CMD ?cmd, ?r)] @ trace s"
    by (auto simp: sd_card_crc_on_off_def SEND_CMD_eq Let_def split: if_splits)
  then have ev: "events_since s s' = [(Op_SEND_CMD ?cmd, ?r)]" by (rule events_since_append)
  from a t show ?thesis unfolding ev
    by (auto simp: sd_card_crc_on_off_def SEND_CMD_eq Let_def event_status_def SD_OK_def
          polled_r1_def r1_of_def split: if_splits)
qed

lemma sd_card_v1_init_process_value:
  assumes a: "sd_card_v1_init_process f c hw s = Some (e, s')"
  shows "e = (if acmd41_ready_last s' then seen (events_since s s')
              else if acmd41_illegal_last s' then SD_UNUSABLE_CARD c
              else if last_tick s' \<noteq> None then SD_TIMEOUT c
              else SD_ERROR c)"
proof -
  let ?o = "hw (trace s) (Op_SEND_CMD (sd_card_get_cmd 58 0))"
  let ?s1 = "s\<lparr>trace := (Op_SEND_CMD (sd_card_get_cmd 58 0), ?o) # trace s\<rparr>"
  let ?t = "hw (trace ?s1) Op_GetTick"
  let ?s2 = "?s1\<lparr>trace := (Op_GetTick, ?t) # trace ?s1\<rparr>"
  let ?old = "[(Op_SEND_CMD (sd_card_get_cmd 58 0), ?o)]"
  show ?thesis
  proof (cases "voltage_window_ok (rep_bytes ?o)")
    case False
    with a have "e = SD_ERROR c" "s' = ?s1"
      by (auto simp: sd_card_v1_init_process_def SEND_CMD_eq)
    then show ?thesis
      by (simp add: last_tick_def acmd41_ready_last_def acmd41_illegal_last_def
            sd_card_get_cmd_def)
  next
    case True
    with a obtain x s3 where
      l: "v1_init_poll f c hw (rep_tick ?t) (SD_OK OR rep_status ?o) ?s2 = Some (x, s3)"
      by (auto simp: sd_card_v1_init_process_def SEND_CMD_eq io_eq Let_def split: option.splits)
    from v1_init_poll_trace[OF l] obtain new where
      n: "trace s3 = new @ trace ?s2"
        "(case x of Break b \<Rightarrow> b = (SD_OK OR rep_status ?o) OR seen new
          | Return e \<Rightarrow>
            (\<forall>ev \<in> set new. is_acmd41 ev \<longrightarrow> polled_r1 ev \<noteq> R1_CLEAR_FLAGS) \<and>
            (e = SD_UNUSABLE_CARD c \<and> acmd41_illegal_last s3 \<or>
             e = SD_TIMEOUT c \<and> (\<exists>t. last_tick s3 = Some t \<and> 1000 < t - rep_tick ?t)))"
      by blast
    from v1_init_poll_frame[OF l] have fr: "acmd41_ready_last s3 \<longleftrightarrow> (\<exists>b. x = Break b)"
      by blast
    let ?new = "(new @ [(Op_GetTick, ?t)]) @ ?old"
    have tr: "trace s3 = ?new @ trace s" using n(1) by simp
    show ?thesis
    proof (cases x)
      case (Return e')
      with a True l have r: "e = e'" "s' = s3"
        by (auto simp: sd_card_v1_init_process_def SEND_CMD_eq io_eq Let_def)
      from Return fr have nr: "\<not> acmd41_ready_last s3" by simp
      from Return n(2) consider
          (unusable) "e' = SD_UNUSABLE_CARD c" "acmd41_illegal_last s3"
        | (timeout) t where "e' = SD_TIMEOUT c" "last_tick s3 = Some t"
        by auto
      then show ?thesis
      proof cases
        case unusable
        with r nr show ?thesis by simp
      next
        case timeout
        from timeout(2) have "\<not> acmd41_illegal_last s3"
          using acmd41_illegal_last_no_tick by fastforce
        with timeout r nr show ?thesis by simp
      qed
    next
      case (Break b)
      with a True l have r: "e = b" "trace s' = trace s3"
        by (auto simp: sd_card_v1_init_process_def SEND_CMD_eq io_eq Let_def)
      from Break fr have "acmd41_ready_last s3" by simp
      with r(2) have rl: "acmd41_ready_last s'" by (simp add: acmd41_ready_last_def)
      from r(2) tr have "trace s' = ?new @ trace s" by simp
      then have ev: "events_since s s' = ?new" by (rule events_since_append)
      from Break n(2) have "b = (SD_OK OR rep_status ?o) OR seen new" by simp
      then have "seen ?new = b"
        by (simp add: seen_append event_status_def SD_OK_def ac_simps)
      with r(1) rl ev show ?thesis by simp
    qed
  qed
qed

lemma sd_card_v2_init_process_value:
  assumes a: "sd_card_v2_init_process f c hw s = Some (e, s')"
  shows "e = (if acmd41_ready_last s' then seen (events_since s s')
              else if last_tick s' \<noteq> None then SD_TIMEOUT c
              else SD_UNUSABLE_CARD c)"
proof -
  let ?o = "hw (trace s) (Op_SEND_CMD (sd_card_get_cmd 58 0))"
  let ?s1 = "s\<lparr>trace := (Op_SEND_CMD (sd_card_get_cmd 58 0), ?o) # trace s\<rparr>"
  let ?t = "hw (trace ?s1) Op_GetTick"
  let ?s2 = "?s1\<lparr>trace := (Op_GetTick, ?t) # trace ?s1\<rparr>"
  let ?old = "[(Op_SEND_CMD (sd_card_get_cmd 58 0), ?o)]"
  show ?thesis
  proof (cases "voltage_window_ok (rep_bytes ?o)")
    case False
    with a have "e = SD_UNUSABLE_CARD c" "s' = ?s1"
      by (auto simp: sd_card_v2_init_process_def SEND_CMD_eq)
    then show ?thesis
      by (simp add: last_tick_def acmd41_ready_last_def sd_card_get_cmd_def)
  next
    case True
    with a obtain x s3 where
      l: "v2_init_poll f c hw (rep_tick ?t) (SD_OK OR rep_status ?o) ?s2 = Some (x, s3)"
      by (auto simp: sd_card_v2_init_process_def SEND_CMD_eq io_eq Let_def split: option.splits)
    from v2_init_poll_trace[OF l] obtain new where
      n: "trace s3 = new @ trace ?s2"
        "(case x of Break b \<Rightarrow> b = (SD_OK OR rep_status ?o) OR seen new
          | Return e \<Rightarrow>
            (\<forall>ev \<in> set new. is_acmd41 ev \<longrightarrow> polled_r1 ev \<noteq> R1_CLEAR_FLAGS) \<and>
            e = SD_TIMEOUT c \<and> (\<exists>t. last_tick s3 = Some t \<and> 1000 < t - rep_tick ?t))"
      by blast
    from v2_init_poll_frame[OF l] have fr: "acmd41_ready_last s3 \<longleftrightarrow> (\<exists>b. x = Break b)"
      by blast
    let ?new = "(new @ [(Op_GetTick, ?t)]) @ ?old"
    have tr: "trace s3 = ?new @ trace s" using n(1) by simp
    show ?thesis
    proof (cases x)
      case (Return e')
      with a True l have r: "e = e'" "s' = s3"
        by (auto simp: sd_card_v2_init_process_def SEND_CMD_eq io_eq Let_def)
      from Return fr have nr: "\<not> acmd41_ready_last s3" by simp
      from Return n(2) obtain t where "e' = SD_TIMEOUT c" "last_tick s3 = Some t"
        by auto
      with r nr show ?thesis by simp
    next
      case (Break b)
      with a True l have r: "e = b" "trace s' = trace s3"
        by (auto simp: sd_card_v2_init_process_def SEND_CMD_eq io_eq Let_def split: if_splits)
      from Break fr have "acmd41_ready_last s3" by simp
      with r(2) have rl: "acmd41_ready_last s'" by (simp add: acmd41_ready_last_def)
      from r(2) tr have "trace s' = ?new @ trace s" by simp
      then have ev: "events_since s s' = ?new" by (rule events_since_append)
      from Break n(2) have "b = (SD_OK OR rep_status ?o) OR seen new" by simp
      then have "seen ?new = b"
        by (simp add: seen_append event_status_def SD_OK_def ac_simps)
      with r(1) rl ev show ?thesis by simp
    qed
  qed
qed

subsection \<open>Answers to ACMD41 in a negotiation\<close>

lemma tl_append_nonempty: "xs \<noteq> [] \<Longrightarrow> tl (xs @ ys) = tl xs @ ys"
  by (cases xs) simp_all

lemma v1_init_poll_illegal:
  "v1_init_poll f c hw t0 st s = Some (x, s') \<Longrightarrow>
     \<exists>new. trace s' = new @ trace s \<and> new \<noteq> [] \<and>
       (\<forall>ev \<in> set (tl new). is_acmd41 ev \<longrightarrow> polled_r1 ev AND R1_ILLEGAL_COMMAND = 0) \<and>
       (acmd41_illegal_last s' \<longrightarrow> x = Return (SD_UNUSABLE_CARD c))"
proof (induction f arbitrary: st s)
  case 0
  then show ?case by simp
next
  case (Suc n)
  let ?a = "hw (trace s) (Op_SEND_CMD (sd_card_get_cmd 55 0))"
  let ?s1 = "s\<lparr>trace := (Op_SEND_CMD (sd_card_get_cmd 55 0), ?a) # trace s\<rparr>"
  let ?r = "hw (trace ?s1) (Op_SEND_CMD (sd_card_get_cmd 41 0))"
  let ?s2 = "?s1\<lparr>trace := (Op_SEND_CMD (sd_card_get_cmd 41 0), ?r) # trace ?s1\<rparr>"
  let ?t = "hw (trace ?s2) Op_GetTick"
  let ?s3 = "?s2\<lparr>trace := (Op_GetTick, ?t) # trace ?s2\<rparr>"
  let ?st2 = "(st OR rep_status ?a) OR rep_status ?r"
  let ?two = "[(Op_SEND_CMD (sd_card_get_cmd 41 0), ?r), (Op_SEND_CMD (sd_card_get_cmd 55 0), ?a)]"
  consider (ready) "r1_of (rep_bytes ?r) = R1_CLEAR_FLAGS"
    | (illegal) "r1_of (rep_bytes ?r) \<noteq> R1_CLEAR_FLAGS" "r1_of (rep_bytes ?r) AND R1_ILLEGAL_COMMAND \<noteq> 0"
    | (late) "r1_of (rep_bytes ?r) \<noteq> R1_CLEAR_FLAGS" "r1_of (rep_bytes ?r) AND R1_ILLEGAL_COMMAND = 0"
        "1000 < rep_tick ?t - t0"
    | (again) "r1_of (rep_bytes ?r) \<noteq> R1_CLEAR_FLAGS" "r1_of (rep_bytes ?r) AND R1_ILLEGAL_COMMAND = 0"
        "\<not> 1000 < rep_tick ?t - t0"
    by blast
  then show ?case
  proof cases
    case ready
    with Suc.prems have "x = Break ?st2" "s' = ?s2"
      by (auto simp: SEND_CMD_eq io_eq Let_def)
    then show ?thesis using ready
      by (intro exI[of _ ?two])
         (simp add: acmd41_illegal_last_def is_acmd41_def sd_card_get_cmd_def R1_CLEAR_FLAGS_def)
  next
    case illegal
    with Suc.prems have "x = Return (SD_UNUSABLE_CARD c)" "s' = ?s2"
      by (auto simp: SEND_CMD_eq io_eq Let_def)
    then show ?thesis
      by (intro exI[of _ ?two]) (simp add: is_acmd41_def sd_card_get_cmd_def)
  next
    case late
    with Suc.prems have "x = Return (SD_TIMEOUT c)" "s' = ?s3"
      by (auto simp: SEND_CMD_eq io_eq Let_def)
    then show ?thesis using late
      by (intro exI[of _ "(Op_GetTick, ?t) # ?two"])
         (simp add: acmd41_illegal_last_def is_acmd41_def polled_r1_def r1_of_def
            sd_card_get_cmd_def)
  next
    case again
    with Suc.prems have rec: "v1_init_poll n c hw t0 ?st2 ?s3 = Some (x, s')"
      by (auto simp: SEND_CMD_eq io_eq Let_def)
    from Suc.IH[OF rec] obtain new where
      n1: "trace s' = new @ trace ?s3" and n0: "new \<noteq> []" and
      n2: "\<forall>ev \<in> set (tl new). is_acmd41 ev \<longrightarrow> polled_r1 ev AND R1_ILLEGAL_COMMAND = 0" and
      n3: "acmd41_illegal_last s' \<longrightarrow> x = Return (SD_UNUSABLE_CARD c)"
      by blast
    let ?new = "new @ (Op_GetTick, ?t) # ?two"
    have a: "trace s' = ?new @ trace s" using n1 by simp
    have b: "tl ?new = tl new @ (Op_GetTick, ?t) # ?two"
      using n0 by (rule tl_append_nonempty)
    have d: "\<forall>ev \<in> set ((Op_GetTick, ?t) # ?two).
               is_acmd41 ev \<longrightarrow> polled_r1 ev AND R1_ILLEGAL_COMMAND = 0"
      using again(2) by (simp add: is_acmd41_def polled_r1_def r1_of_def sd_card_get_cmd_def)
    have e: "\<forall>ev \<in> set (tl ?new). is_acmd41 ev \<longrightarrow> polled_r1 ev AND R1_ILLEGAL_COMMAND = 0"
      unfolding b using n2 d by auto
    from a e n3 n0 show ?thesis by (intro exI[of _ ?new]) simp
  qed
qed

lemma v2_init_poll_ready:
  "v2_init_poll f c hw t0 st s = Some (x, s') \<Longrightarrow>
     \<exists>new. trace s' = new @ trace s \<and> new \<noteq> [] \<and>
       (\<forall>ev \<in> set (tl new). is_acmd41 ev \<longrightarrow> polled_r1 ev \<noteq> R1_CLEAR_FLAGS) \<and>
       (case x of
          Break b \<Rightarrow> acmd41_ready_last s'
        | Return e \<Rightarrow> e = SD_TIMEOUT c \<and> last_tick s' \<noteq> None)"
proof (induction f arbitrary: st s)
  case 0
  then show ?case by simp
next
  case (Suc n)
  let ?a = "hw (trace s) (Op_SEND_CMD (sd_card_get_cmd 55 0))"
  let ?s1 = "s\<lparr>trace := (Op_SEND_CMD (sd_card_get_cmd 55 0), ?a) # trace s\<rparr>"
  let ?r = "hw (trace ?s1) (Op_SEND_CMD (sd_card_get_cmd 41 0))"
  let ?s2 = "?s1\<lparr>trace := (Op_SEND_CMD (sd_card_get_cmd 41 0), ?r) # trace ?s1\<rparr>"
  let ?t = "hw (trace ?s2) Op_GetTick"
  let ?s3 = "?s2\<lparr>trace := (Op_GetTick, ?t) # trace ?s2\<rparr>"
  let ?st2 = "(st OR rep_status ?a) OR rep_status ?r"
  let ?two = "[(Op_SEND_CMD (sd_card_get_cmd 41 0), ?r), (Op_SEND_CMD (sd_card_get_cmd 55 0), ?a)]"
  consider (ready) "r1_of (rep_bytes ?r) = R1_CLEAR_FLAGS"
    | (late) "r1_of (rep_bytes ?r) \<noteq> R1_CLEAR_FLAGS" "1000 < rep_tick ?t - t0"
    | (again) "r1_of (rep_bytes ?r) \<noteq> R1_CLEAR_FLAGS" "\<not> 1000 < rep_tick ?t - t0"
    by blast
  then show ?case
  proof cases
    case ready
    with Suc.prems have "x = Break ?st2" "s' = ?s2"
      by (auto simp: SEND_CMD_eq io_eq Let_def)
    then show ?thesis using ready
      by (intro exI[of _ ?two])
         (simp add: acmd41_ready_last_def is_acmd41_def sd_card_get_cmd_def)
  next
    case late
    with Suc.prems have "x = Return (SD_TIMEOUT c)" "s' = ?s3"
      by (auto simp: SEND_CMD_eq io_eq Let_def)
    then show ?thesis using late
      by (intro exI[of _ "(Op_GetTick, ?t) # ?two"])
         (simp add: last_tick_def is_acmd41_def polled_r1_def r1_of_def sd_card_get_cmd_def)
  next
    case again
    with Suc.prems have rec: "v2_init_poll n c hw t0 ?st2 ?s3 = Some (x, s')"
      by (auto simp: SEND_CMD_eq io_eq Let_def)
    from Suc.IH[OF rec] obtain new where
      n1: "trace s' = new @ trace ?s3" and n0: "new \<noteq> []" and
      n2: "\<forall>ev \<in> set (tl new). is_acmd41 ev \<longrightarrow> polled_r1 ev \<noteq> R1_CLEAR_FLAGS" and
      n3: "(case x of
          Break b \<Rightarrow> acmd41_ready_last s'
        | Return e \<Rightarrow> e = SD_TIMEOUT c \<and> last_tick s' \<noteq> None)"
      by blast
    let ?new = "new @ (Op_GetTick, ?t) # ?two"
    have a: "trace s' = ?new @ trace s" using n1 by simp
    have b: "tl ?new = tl new @ (Op_GetTick, ?t) # ?two"
      using n0 by (rule tl_append_nonempty)
    have d: "\<forall>ev \<in> set ((Op_GetTick, ?t) # ?two). is_acmd41 ev \<longrightarrow> polled_r1 ev \<noteq> R1_CLEAR_FLAGS"
      using again(1) by (simp add: is_acmd41_def polled_r1_def r1_of_def sd_card_get_cmd_def)
    have e: "\<forall>ev \<in> set (tl ?new). is_acmd41 ev \<longrightarrow> polled_r1 ev \<noteq> R1_CLEAR_FLAGS"
      unfolding b using n2 d by auto
    from a e n3 n0 show ?thesis by (intro exI[of _ ?new]) simp
  qed
qed

lemma acmd41_ready_not_illegal: "acmd41_ready_last s \<Longrightarrow> \<not> acmd41_illegal_last s"
  by (auto simp: acmd41_ready_last_def acmd41_illegal_last_def R1_CLEAR_FLAGS_def
        split: list.splits io_op.splits)

lemma sd_card_v1_init_process_illegal:
  assumes a: "sd_card_v1_init_process f c hw s = Some (e, s')"
  shows "(\<forall>ev \<in> set (tl (events_since s s')).
            is_acmd41 ev \<longrightarrow> polled_r1 ev AND R1_ILLEGAL_COMMAND = 0) \<and>
         (acmd41_illegal_last s' \<longrightarrow> e = SD_UNUSABLE_CARD c)"
proof -
  let ?o = "hw (trace s) (Op_SEND_CMD (sd_card_get_cmd 58 0))"
  let ?s1 = "s\<lparr>trace := (Op_SEND_CMD (sd_card_get_cmd 58 0), ?o) # trace s\<rparr>"
  let ?t = "hw (trace ?s1) Op_GetTick"
  let ?s2 = "?s1\<lparr>trace := (Op_GetTick, ?t) # trace ?s1\<rparr>"
  let ?old = "[(Op_GetTick, ?t), (Op_SEND_CMD (sd_card_get_cmd 58 0), ?o)]"
  show ?thesis
  proof (cases "voltage_window_ok (rep_bytes ?o)")
    case False
    with a have r: "e = SD_ERROR c" "s' = ?s1"
      by (auto simp: sd_card_v1_init_process_def SEND_CMD_eq)
    from r(2) have "trace s' = [(Op_SEND_CMD (sd_card_get_cmd 58 0), ?o)] @ trace s" by simp
    then have "events_since s s' = [(Op_SEND_CMD (sd_card_get_cmd 58 0), ?o)]"
      by (rule events_since_append)
    with r show ?thesis
      by (simp add: acmd41_illegal_last_def sd_card_get_cmd_def)
  next
    case True
    with a obtain x s3 where
      l: "v1_init_poll f c hw (rep_tick ?t) (SD_OK OR rep_status ?o) ?s2 = Some (x, s3)"
      by (auto simp: sd_card_v1_init_process_def SEND_CMD_eq io_eq Let_def split: option.splits)
    from v1_init_poll_illegal[OF l] obtain new where
      n: "trace s3 = new @ trace ?s2" "new \<noteq> []"
         "\<forall>ev \<in> set (tl new). is_acmd41 ev \<longrightarrow> polled_r1 ev AND R1_ILLEGAL_COMMAND = 0"
         "acmd41_illegal_last s3 \<longrightarrow> x = Return (SD_UNUSABLE_CARD c)"
      by blast
    from v1_init_poll_frame[OF l] have fr: "acmd41_ready_last s3 \<longleftrightarrow> (\<exists>b. x = Break b)"
      by blast
    from a True l have tr: "trace s' = trace s3"
      by (cases x) (auto simp: sd_card_v1_init_process_def SEND_CMD_eq io_eq Let_def)
    with n(1) have "trace s' = (new @ ?old) @ trace s" by simp
    then have ev: "events_since s s' = new @ ?old" by (rule events_since_append)
    have tl: "tl (new @ ?old) = tl new @ ?old" using n(2) by (rule tl_append_nonempty)
    have p1: "\<forall>ev \<in> set (tl (events_since s s')).
            is_acmd41 ev \<longrightarrow> polled_r1 ev AND R1_ILLEGAL_COMMAND = 0"
      unfolding ev tl using n(3) by (auto simp: is_acmd41_def sd_card_get_cmd_def)
    have p2: "acmd41_illegal_last s' \<longrightarrow> e = SD_UNUSABLE_CARD c"
    proof
      assume "acmd41_illegal_last s'"
      with tr have il: "acmd41_illegal_last s3" by (simp add: acmd41_illegal_last_def)
      with n(4) have x: "x = Return (SD_UNUSABLE_CARD c)" by simp
      with a True l show "e = SD_UNUSABLE_CARD c"
        by (auto simp: sd_card_v1_init_process_def SEND_CMD_eq io_eq Let_def)
    qed
    from p1 p2 show ?thesis by simp
  qed
qed

lemma sd_card_v2_init_process_exits:
  assumes a: "sd_card_v2_init_process f c hw s = Some (e, s')"
  shows "\<not> acmd41_illegal_last s' \<and>
         (\<forall>ev \<in> set (tl (events_since s s')). is_acmd41 ev \<longrightarrow> polled_r1 ev \<noteq> R1_CLEAR_FLAGS) \<and>
         (voltage_window_ok (rep_bytes (hw (trace s) (Op_SEND_CMD (sd_card_get_cmd 58 0)))) \<longrightarrow>
            acmd41_ready_last s' \<or> last_tick s' \<noteq> None \<and> e = SD_TIMEOUT c)"
proof -
  let ?o = "hw (trace s) (Op_SEND_CMD (sd_card_get_cmd 58 0))"
  let ?s1 = "s\<lparr>trace := (Op_SEND_CMD (sd_card_get_cmd 58 0), ?o) # trace s\<rparr>"
  let ?t = "hw (trace ?s1) Op_GetTick"
  let ?s2 = "?s1\<lparr>trace := (Op_GetTick, ?t) # trace ?s1\<rparr>"
  let ?old = "[(Op_GetTick, ?t), (Op_SEND_CMD (sd_card_get_cmd 58 0), ?o)]"
  show ?thesis
  proof (cases "voltage_window_ok (rep_bytes ?o)")
    case False
    with a have r: "e = SD_UNUSABLE_CARD c" "s' = ?s1"
      by (auto simp: sd_card_v2_init_process_def SEND_CMD_eq)
    from r(2) have "trace s' = [(Op_SEND_CMD (sd_card_get_cmd 58 0), ?o)] @ trace s" by simp
    then have "events_since s s' = [(Op_SEND_CMD (sd_card_get_cmd 58 0), ?o)]"
      by (rule events_since_append)
    with r False show ?thesis
      by (simp add: acmd41_illegal_last_def sd_card_get_cmd_def)
  next
    case True
    with a obtain x s3 where
      l: "v2_init_poll f c hw (rep_tick ?t) (SD_OK OR rep_status ?o) ?s2 = Some (x, s3)"
      by (auto simp: sd_card_v2_init_process_def SEND_CMD_eq io_eq Let_def split: option.splits)
    from v2_init_poll_ready[OF l] obtain new where
      n: "trace s3 = new @ trace ?s2" "new \<noteq> []"
         "\<forall>ev \<in> set (tl new). is_acmd41 ev \<longrightarrow> polled_r1 ev \<noteq> R1_CLEAR_FLAGS"
         "(case x of
             Break b \<Rightarrow> acmd41_ready_last s3
           | Return e \<Rightarrow> e = SD_TIMEOUT c \<and> last_tick s3 \<noteq> None)"
      by blast
    from a True l have tr: "trace s' = trace s3"
      by (cases x)
         (auto simp: sd_card_v2_init_process_def SEND_CMD_eq io_eq Let_def split: if_splits)
    with n(1) have "trace s' = (new @ ?old) @ trace s" by simp
    then have ev: "events_since s s' = new @ ?old" by (rule events_since_append)
    have tl: "tl (new @ ?old) = tl new @ ?old" using n(2) by (rule tl_append_nonempty)
    have p1: "\<forall>ev \<in> set (tl (events_since s s')). is_acmd41 ev \<longrightarrow> polled_r1 ev \<noteq> R1_CLEAR_FLAGS"
      unfolding ev tl using n(3) by (auto simp: is_acmd41_def sd_card_get_cmd_def)
    have p2: "acmd41_ready_last s' \<or> last_tick s' \<noteq> None \<and> e = SD_TIMEOUT c"
    proof (cases x)
      case (Break b)
      with n(4) have "acmd41_ready_last s3" by simp
      with tr show ?thesis by (simp add: acmd41_ready_last_def)
    next
      case (Return e')
      with n(4) have "e' = SD_TIMEOUT c" "last_tick s3 \<noteq> None" by simp_all
      moreover from Return a True l have "e = e'"
        by (auto simp: sd_card_v2_init_process_def SEND_CMD_eq io_eq Let_def)
      ultimately show ?thesis using tr by (simp add: last_tick_def)
    qed
    have p3: "\<not> acmd41_illegal_last s'"
    proof
      assume il: "acmd41_illegal_last s'"
      then have "last_tick s' = None" by (rule acmd41_illegal_last_no_tick)
      moreover from il have "\<not> acmd41_ready_last s'"
        using acmd41_ready_not_illegal by blast
      ultimately show False using p2 by simp
    qed
    from p1 p2 p3 show ?thesis by simp
  qed
qed

lemma sd_card_v1_init_process_polls:
  assumes "SEND_CMD hw (sd_card_get_cmd 58 0) SD_OK s = (ocr, st0, s1)"
      and "voltage_window_ok ocr"
  shows "sd_card_v1_init_process f c hw s =
           (case v1_init_poll f c hw (rep_tick (fst (io hw Op_GetTick s1))) st0
                   (snd (io hw Op_GetTick s1)) of
              None \<Rightarrow> None
            | Some (Return e, s3) \<Rightarrow> Some (e, s3)
            | Some (Break status1, s3) \<Rightarrow>
                Some (status1,
                  s3\<lparr>sd_card_status :=
                       (sd_card_status s3)\<lparr>version := 1, capacity := STANDART\<rparr>\<rparr>))"
  using assms by (simp add: sd_card_v1_init_process_def case_prod_beta)

lemma sd_card_v2_init_process_polls:
  assumes "SEND_CMD hw (sd_card_get_cmd 58 0) SD_OK s = (ocr, st0, s1)"
      and "voltage_window_ok ocr"
  shows "sd_card_v2_init_process f c hw s =
           (case v2_init_poll f c hw (rep_tick (fst (io hw Op_GetTick s1))) st0
                   (snd (io hw Op_GetTick s1)) of
              None \<Rightarrow> None
            | Some (Return e, s3) \<Rightarrow> Some (e, s3)
            | Some (Break status1, s3) \<Rightarrow>
                Some (status1,
                  s3\<lparr>sd_card_status :=
                       (sd_card_status s3)\<lparr>version := 2,
                          capacity := (if ocr_register_content ocr 0 AND 0x2 \<noteq> 0
                                       then HIGH_OR_EXTENDED else STANDART)\<rparr>\<rparr>))"
  using assms
  by (simp add: sd_card_v2_init_process_def case_prod_beta Let_def
        split: option.splits loop_exit.splits)

lemma v1_init_poll_step_illegal:
  assumes "acmd41_exchange hw status s = (resp, status', s')"
      and "r1_of resp AND R1_ILLEGAL_COMMAND \<noteq> 0"
  shows "v1_init_poll (Suc n) c hw tickstart status s = Some (Return (SD_UNUSABLE_CARD c), s')"
proof -
  from assms(2) have nz: "r1_of resp \<noteq> R1_CLEAR_FLAGS"
    by (auto simp: R1_CLEAR_FLAGS_def)
  from assms(1) nz assms(2) show ?thesis
    by (auto simp: acmd41_exchange_def SEND_CMD_eq io_eq Let_def)
qed

lemma v2_init_poll_step:
  assumes "acmd41_exchange hw status s = (resp, status', s')"
  shows "v2_init_poll (Suc n) c hw tickstart status s =
           (if r1_of resp = R1_CLEAR_FLAGS then Some (Break status', s')
            else if rep_tick (fst (io hw Op_GetTick s')) - tickstart > 1000
            then Some (Return (SD_TIMEOUT c), snd (io hw Op_GetTick s'))
            else v2_init_poll n c hw tickstart status' (snd (io hw Op_GetTick s')))"
  using assms by (auto simp: acmd41_exchange_def SEND_CMD_eq io_eq Let_def)

subsection \<open>Deadlines\<close>

lemma enter_spi_mode_poll_deadline:
  "500 < rep_tick (fst (io hw Op_GetTick (snd (io hw Op_receive_byte s)))) - t0 \<Longrightarrow>
     enter_spi_mode_poll (Suc n) c hw t0 st s =
       Some (Return (SD_TIMEOUT c), snd (io hw Op_GetTick (snd (io hw Op_receive_byte s))))"
  by (simp add: io_eq Let_def)

lemma v1_init_poll_deadline:
  "acmd41_exchange hw st s = (resp, st', s') \<Longrightarrow> r1_of resp \<noteq> R1_CLEAR_FLAGS \<Longrightarrow>
   r1_of resp AND R1_ILLEGAL_COMMAND = 0 \<Longrightarrow>
   1000 < rep_tick (fst (io hw Op_GetTick s')) - t0 \<Longrightarrow>
     v1_init_poll (Suc n) c hw t0 st s = Some (Return (SD_TIMEOUT c), snd (io hw Op_GetTick s'))"
  by (auto simp: acmd41_exchange_def SEND_CMD_eq io_eq Let_def)

lemma v2_init_poll_deadline:
  "acmd41_exchange hw st s = (resp, st', s') \<Longrightarrow> r1_of resp \<noteq> R1_CLEAR_FLAGS \<Longrightarrow>
   1000 < rep_tick (fst (io hw Op_GetTick s')) - t0 \<Longrightarrow>
     v2_init_poll (Suc n) c hw t0 st s = Some (Return (SD_TIMEOUT c), snd (io hw Op_GetTick s'))"
  by (auto simp: acmd41_exchange_def SEND_CMD_eq io_eq Let_def)

lemma sd_card_v1_init_process_timeout_polls:
  assumes a: "sd_card_v1_init_process f c hw s = Some (e, s')"
      and lt: "last_tick s' \<noteq> None"
  shows "\<forall>ev \<in> set (events_since s s'). is_acmd41 ev \<longrightarrow> polled_r1 ev \<noteq> R1_CLEAR_FLAGS"
proof -
  let ?o = "hw (trace s) (Op_SEND_CMD (sd_card_get_cmd 58 0))"
  let ?s1 = "s\<lparr>trace := (Op_SEND_CMD (sd_card_get_cmd 58 0), ?o) # trace s\<rparr>"
  let ?t = "hw (trace ?s1) Op_GetTick"
  let ?s2 = "?s1\<lparr>trace := (Op_GetTick, ?t) # trace ?s1\<rparr>"
  let ?old = "[(Op_GetTick, ?t), (Op_SEND_CMD (sd_card_get_cmd 58 0), ?o)]"
  have ok: "voltage_window_ok (rep_bytes ?o)"
  proof (rule ccontr)
    assume "\<not> voltage_window_ok (rep_bytes ?o)"
    with a have "s' = ?s1"
      by (auto simp: sd_card_v1_init_process_def SEND_CMD_eq)
    then have "last_tick s' = None" by (simp add: last_tick_def)
    with lt show False by simp
  qed
  with a obtain x s3 where
    l: "v1_init_poll f c hw (rep_tick ?t) (SD_OK OR rep_status ?o) ?s2 = Some (x, s3)"
    by (auto simp: sd_card_v1_init_process_def SEND_CMD_eq io_eq Let_def split: option.splits)
  from v1_init_poll_trace[OF l] obtain new where
    n: "trace s3 = new @ trace ?s2"
       "(case x of Break b \<Rightarrow> b = (SD_OK OR rep_status ?o) OR seen new
         | Return e \<Rightarrow>
           (\<forall>ev \<in> set new. is_acmd41 ev \<longrightarrow> polled_r1 ev \<noteq> R1_CLEAR_FLAGS) \<and>
           (e = SD_UNUSABLE_CARD c \<and> acmd41_illegal_last s3 \<or>
            e = SD_TIMEOUT c \<and> (\<exists>t. last_tick s3 = Some t \<and> 1000 < t - rep_tick ?t)))"
    by blast
  from a ok l have tr: "trace s' = trace s3"
    by (cases x) (auto simp: sd_card_v1_init_process_def SEND_CMD_eq io_eq Let_def)
  obtain e' where x: "x = Return e'"
  proof (cases x)
    case (Break b)
    with v1_init_poll_frame[OF l] have "acmd41_ready_last s3" by blast
    then have "last_tick s3 = None" by (rule acmd41_ready_last_no_tick)
    with tr lt show ?thesis by (simp add: last_tick_def)
  next
    case (Return e')
    then show ?thesis by (rule that)
  qed
  with n(2) have ni: "\<forall>ev \<in> set new. is_acmd41 ev \<longrightarrow> polled_r1 ev \<noteq> R1_CLEAR_FLAGS"
    by simp
  from tr n(1) have "trace s' = (new @ ?old) @ trace s" by simp
  then have ev: "events_since s s' = new @ ?old" by (rule events_since_append)
  from ni show ?thesis unfolding ev
    by (auto simp: is_acmd41_def sd_card_get_cmd_def)
qed

lemma sd_card_v2_init_process_timeout_polls:
  assumes a: "sd_card_v2_init_process f c hw s = Some (e, s')"
      and lt: "last_tick s' \<noteq> None"
  shows "\<forall>ev \<in> set (events_since s s'). is_acmd41 ev \<longrightarrow> polled_r1 ev \<noteq> R1_CLEAR_FLAGS"
proof -
  let ?o = "hw (trace s) (Op_SEND_CMD (sd_card_get_cmd 58 0))"
  let ?s1 = "s\<lparr>trace := (Op_SEND_CMD (sd_card_get_cmd 58 0), ?o) # trace s\<rparr>"
  let ?t = "hw (trace ?s1) Op_GetTick"
  let ?s2 = "?s1\<lparr>trace := (Op_GetTick, ?t) # trace ?s1\<rparr>"
  let ?old = "[(Op_GetTick, ?t), (Op_SEND_CMD (sd_card_get_cmd 58 0), ?o)]"
  have ok: "voltage_window_ok (rep_bytes ?o)"
  proof (rule ccontr)
    assume "\<not> voltage_window_ok (rep_bytes ?o)"
    with a have "s' = ?s1"
      by (auto simp: sd_card_v2_init_process_def SEND_CMD_eq)
    then have "last_tick s' = None" by (simp add: last_tick_def)
    with lt show False by simp
  qed
  with a obtain x s3 where
    l: "v2_init_poll f c hw (rep_tick ?t) (SD_OK OR rep_status ?o) ?s2 = Some (x, s3)"
    by (auto simp: sd_card_v2_init_process_def SEND_CMD_eq io_eq Let_def split: option.splits)
  from v2_init_poll_trace[OF l] obtain new where
    n: "trace s3 = new @ trace ?s2"
       "(case x of Break b \<Rightarrow> b = (SD_OK OR rep_status ?o) OR seen new
         | Return e \<Rightarrow>
           (\<forall>ev \<in> set new. is_acmd41 ev \<longrightarrow> polled_r1 ev \<noteq> R1_CLEAR_FLAGS) \<and>
           e = SD_TIMEOUT c \<and> (\<exists>t. last_tick s3 = Some t \<and> 1000 < t - rep_tick ?t))"
    by blast
  from a ok l have tr: "trace s' = trace s3"
    by (cases x)
       (auto simp: sd_card_v2_init_process_def SEND_CMD_eq io_eq Let_def split: if_splits)
  obtain e' where x: "x = Return e'"
  proof (cases x)
    case (Break b)
    with v2_init_poll_frame[OF l] have "acmd41_ready_last s3" by blast
    then have "last_tick s3 = None" by (rule acmd41_ready_last_no_tick)
    with tr lt show ?thesis by (simp add: last_tick_def)
  next
    case (Return e')
    then show ?thesis by (rule that)
  qed
  with n(2) have ni: "\<forall>ev \<in> set new. is_acmd41 ev \<longrightarrow> polled_r1 ev \<noteq> R1_CLEAR_FLAGS"
    by simp
  from tr n(1) have "trace s' = (new @ ?old) @ trace s" by simp
  then have ev: "events_since s s' = new @ ?old" by (rule events_since_append)
  from ni show ?thesis unfolding ev
    by (auto simp: is_acmd41_def sd_card_get_cmd_def)
qed

lemma v1_init_poll_ops:
  "v1_init_poll f c hw t0 st s = Some (x, s') \<Longrightarrow>
     \<exists>new k. trace s' = new @ trace s \<and>
       map fst new =
         (if last_tick s' \<noteq> None
          then concat (replicate (Suc k)
                 [Op_GetTick, Op_SEND_CMD (sd_card_get_cmd 41 0), Op_SEND_CMD (sd_card_get_cmd 55 0)])
          else [Op_SEND_CMD (sd_card_get_cmd 41 0), Op_SEND_CMD (sd_card_get_cmd 55 0)] @
               concat (replicate k
                 [Op_GetTick, Op_SEND_CMD (sd_card_get_cmd 41 0), Op_SEND_CMD (sd_card_get_cmd 55 0)]))"
proof (induction f arbitrary: st s)
  case 0
  then show ?case by simp
next
  case (Suc n)
  let ?a = "hw (trace s) (Op_SEND_CMD (sd_card_get_cmd 55 0))"
  let ?s1 = "s\<lparr>trace := (Op_SEND_CMD (sd_card_get_cmd 55 0), ?a) # trace s\<rparr>"
  let ?r = "hw (trace ?s1) (Op_SEND_CMD (sd_card_get_cmd 41 0))"
  let ?s2 = "?s1\<lparr>trace := (Op_SEND_CMD (sd_card_get_cmd 41 0), ?r) # trace ?s1\<rparr>"
  let ?t = "hw (trace ?s2) Op_GetTick"
  let ?s3 = "?s2\<lparr>trace := (Op_GetTick, ?t) # trace ?s2\<rparr>"
  let ?st2 = "(st OR rep_status ?a) OR rep_status ?r"
  let ?two = "[(Op_SEND_CMD (sd_card_get_cmd 41 0), ?r), (Op_SEND_CMD (sd_card_get_cmd 55 0), ?a)]"
  let ?T = "[Op_GetTick, Op_SEND_CMD (sd_card_get_cmd 41 0), Op_SEND_CMD (sd_card_get_cmd 55 0)]"
  consider (stop) "r1_of (rep_bytes ?r) = R1_CLEAR_FLAGS \<or>
                   r1_of (rep_bytes ?r) AND R1_ILLEGAL_COMMAND \<noteq> 0"
    | (late) "r1_of (rep_bytes ?r) \<noteq> R1_CLEAR_FLAGS" "r1_of (rep_bytes ?r) AND R1_ILLEGAL_COMMAND = 0"
        "1000 < rep_tick ?t - t0"
    | (again) "r1_of (rep_bytes ?r) \<noteq> R1_CLEAR_FLAGS" "r1_of (rep_bytes ?r) AND R1_ILLEGAL_COMMAND = 0"
        "\<not> 1000 < rep_tick ?t - t0"
    by blast
  then show ?case
  proof cases
    case stop
    with Suc.prems have "s' = ?s2"
      by (auto simp: SEND_CMD_eq io_eq Let_def split: if_splits)
    then show ?thesis
      by (intro exI[of _ ?two] exI[of _ 0]) (simp add: last_tick_def)
  next
    case late
    with Suc.prems have "s' = ?s3"
      by (auto simp: SEND_CMD_eq io_eq Let_def)
    then show ?thesis
      by (intro exI[of _ "(Op_GetTick, ?t) # ?two"] exI[of _ 0]) (simp add: last_tick_def)
  next
    case again
    with Suc.prems have rec: "v1_init_poll n c hw t0 ?st2 ?s3 = Some (x, s')"
      by (auto simp: SEND_CMD_eq io_eq Let_def)
    from Suc.IH[OF rec] obtain new k where
      n1: "trace s' = new @ trace ?s3" and
      n2: "map fst new =
         (if last_tick s' \<noteq> None then concat (replicate (Suc k) ?T)
          else [Op_SEND_CMD (sd_card_get_cmd 41 0), Op_SEND_CMD (sd_card_get_cmd 55 0)] @
               concat (replicate k ?T))"
      by blast
    let ?new = "new @ (Op_GetTick, ?t) # ?two"
    have a: "trace s' = ?new @ trace s" using n1 by simp
    have b: "map fst ?new = map fst new @ ?T" by simp
    have c: "map fst ?new =
         (if last_tick s' \<noteq> None then concat (replicate (Suc (Suc k)) ?T)
          else [Op_SEND_CMD (sd_card_get_cmd 41 0), Op_SEND_CMD (sd_card_get_cmd 55 0)] @
               concat (replicate (Suc k) ?T))"
    proof (cases "last_tick s' \<noteq> None")
      case True
      with n2 b have "map fst ?new = concat (replicate (Suc k) ?T) @ ?T" by simp
      then have "map fst ?new = concat (replicate (Suc (Suc k)) ?T)"
        by (simp only: concat_replicate_snoc)
      with True show ?thesis by simp
    next
      case False
      with n2 b have "map fst ?new =
          [Op_SEND_CMD (sd_card_get_cmd 41 0), Op_SEND_CMD (sd_card_get_cmd 55 0)] @
          (concat (replicate k ?T) @ ?T)" by simp
      then have "map fst ?new =
          [Op_SEND_CMD (sd_card_get_cmd 41 0), Op_SEND_CMD (sd_card_get_cmd 55 0)] @
          concat (replicate (Suc k) ?T)"
        by (simp only: concat_replicate_snoc)
      with False show ?thesis by simp
    qed
    from a c show ?thesis
      by (intro exI[of _ ?new] exI[of _ "Suc k"]) (simp only: simp_thms)
  qed
qed

lemma v2_init_poll_ops:
  "v2_init_poll f c hw t0 st s = Some (x, s') \<Longrightarrow>
     \<exists>new k. trace s' = new @ trace s \<and>
       map fst new =
         (if last_tick s' \<noteq> None
          then concat (replicate (Suc k)
                 [Op_GetTick, Op_SEND_CMD (sd_card_get_cmd 41 0), Op_SEND_CMD (sd_card_get_cmd 55 0)])
          else [Op_SEND_CMD (sd_card_get_cmd 41 0), Op_SEND_CMD (sd_card_get_cmd 55 0)] @
               concat (replicate k
                 [Op_GetTick, Op_SEND_CMD (sd_card_get_cmd 41 0), Op_SEND_CMD (sd_card_get_cmd 55 0)]))"
proof (induction f arbitrary: st s)
  case 0
  then show ?case by simp
next
  case (Suc n)
  let ?a = "hw (trace s) (Op_SEND_CMD (sd_card_get_cmd 55 0))"
  let ?s1 = "s\<lparr>trace := (Op_SEND_CMD (sd_card_get_cmd 55 0), ?a) # trace s\<rparr>"
  let ?r = "hw (trace ?s1) (Op_SEND_CMD (sd_card_get_cmd 41 0))"
  let ?s2 = "?s1\<lparr>trace := (Op_SEND_CMD (sd_card_get_cmd 41 0), ?r) # trace ?s1\<rparr>"
  let ?t = "hw (trace ?s2) Op_GetTick"
  let ?s3 = "?s2\<lparr>trace := (Op_GetTick, ?t) # trace ?s2\<rparr>"
  let ?st2 = "(st OR rep_status ?a) OR rep_status ?r"
  let ?two = "[(Op_SEND_CMD (sd_card_get_cmd 41 0), ?r), (Op_SEND_CMD (sd_card_get_cmd 55 0), ?a)]"
  let ?T = "[Op_GetTick, Op_SEND_CMD (sd_card_get_cmd 41 0), Op_SEND_CMD (sd_card_get_cmd 55 0)]"
  consider (stop) "r1_of (rep_bytes ?r) = R1_CLEAR_FLAGS"
    | (late) "r1_of (rep_bytes ?r) \<noteq> R1_CLEAR_FLAGS" "1000 < rep_tick ?t - t0"
    | (again) "r1_of (rep_bytes ?r) \<noteq> R1_CLEAR_FLAGS" "\<not> 1000 < rep_tick ?t - t0"
    by blast
  then show ?case
  proof cases
    case stop
    with Suc.prems have "s' = ?s2"
      by (auto simp: SEND_CMD_eq io_eq Let_def)
    then show ?thesis
      by (intro exI[of _ ?two] exI[of _ 0]) (simp add: last_tick_def)
  next
    case late
    with Suc.prems have "s' = ?s3"
      by (auto simp: SEND_CMD_eq io_eq Let_def)
    then show ?thesis
      by (intro exI[of _ "(Op_GetTick, ?t) # ?two"] exI[of _ 0]) (simp add: last_tick_def)
  next
    case again
    with Suc.prems have rec: "v2_init_poll n c hw t0 ?st2 ?s3 = Some (x, s')"
      by (auto simp: SEND_CMD_eq io_eq Let_def)
    from Suc.IH[OF rec] obtain new k where
      n1: "trace s' = new @ trace ?s3" and
      n2: "map fst new =
         (if last_tick s' \<noteq> None then concat (replicate (Suc k) ?T)
          else [Op_SEND_CMD (sd_card_get_cmd 41 0), Op_SEND_CMD (sd_card_get_cmd 55 0)] @
               concat (replicate k ?T))"
      by blast
    let ?new = "new @ (Op_GetTick, ?t) # ?two"
    have a: "trace s' = ?new @ trace s" using n1 by simp
    have b: "map fst ?new = map fst new @ ?T" by simp
    have c: "map fst ?new =
         (if last_tick s' \<noteq> None then concat (replicate (Suc (Suc k)) ?T)
          else [Op_SEND_CMD (sd_card_get_cmd 41 0), Op_SEND_CMD (sd_card_get_cmd 55 0)] @
               concat (replicate (Suc k) ?T))"
    proof (cases "last_tick s' \<noteq> None")
      case True
      with n2 b have "map fst ?new = concat (replicate (Suc k) ?T) @ ?T" by simp
      then have "map fst ?new = concat (replicate (Suc (Suc k)) ?T)"
        by (simp only: concat_replicate_snoc)
      with True show ?thesis by simp
    next
      case False
      with n2 b have "map fst ?new =
          [Op_SEND_CMD (sd_card_get_cmd 41 0), Op_SEND_CMD (sd_card_get_cmd 55 0)] @
          (concat (replicate k ?T) @ ?T)" by simp
      then have "map fst ?new =
          [Op_SEND_CMD (sd_card_get_cmd 41 0), Op_SEND_CMD (sd_card_get_cmd 55 0)] @
          concat (replicate (Suc k) ?T)"
        by (simp only: concat_replicate_snoc)
      with False show ?thesis by simp
    qed
    from a c show ?thesis
      by (intro exI[of _ ?new] exI[of _ "Suc k"]) (simp only: simp_thms)
  qed
qed

lemma sd_card_v1_init_process_timeout_ops:
  assumes a: "sd_card_v1_init_process f c hw s = Some (e, s')"
      and lt: "last_tick s' \<noteq> None"
  shows "\<exists>k. map fst (events_since s s') = negotiation_sequence k"
proof -
  let ?o = "hw (trace s) (Op_SEND_CMD (sd_card_get_cmd 58 0))"
  let ?s1 = "s\<lparr>trace := (Op_SEND_CMD (sd_card_get_cmd 58 0), ?o) # trace s\<rparr>"
  let ?t = "hw (trace ?s1) Op_GetTick"
  let ?s2 = "?s1\<lparr>trace := (Op_GetTick, ?t) # trace ?s1\<rparr>"
  let ?old = "[(Op_GetTick, ?t), (Op_SEND_CMD (sd_card_get_cmd 58 0), ?o)]"
  have ok: "voltage_window_ok (rep_bytes ?o)"
  proof (rule ccontr)
    assume "\<not> voltage_window_ok (rep_bytes ?o)"
    with a have "s' = ?s1"
      by (auto simp: sd_card_v1_init_process_def SEND_CMD_eq)
    then have "last_tick s' = None" by (simp add: last_tick_def)
    with lt show False by simp
  qed
  with a obtain x s3 where
    l: "v1_init_poll f c hw (rep_tick ?t) (SD_OK OR rep_status ?o) ?s2 = Some (x, s3)"
    by (auto simp: sd_card_v1_init_process_def SEND_CMD_eq io_eq Let_def split: option.splits)
  from a ok l have tr: "trace s' = trace s3"
    by (cases x) (auto simp: sd_card_v1_init_process_def SEND_CMD_eq io_eq Let_def)
  with lt have lt3: "last_tick s3 \<noteq> None" by (simp add: last_tick_def)
  from v1_init_poll_ops[OF l] lt3 obtain new k where
    n: "trace s3 = new @ trace ?s2"
       "map fst new = concat (replicate (Suc k)
          [Op_GetTick, Op_SEND_CMD (sd_card_get_cmd 41 0), Op_SEND_CMD (sd_card_get_cmd 55 0)])"
    by auto
  from tr n(1) have "trace s' = (new @ ?old) @ trace s" by simp
  then have ev: "events_since s s' = new @ ?old" by (rule events_since_append)
  have "map fst (new @ ?old) = negotiation_sequence k"
    using n(2) by (simp add: negotiation_sequence_def)
  then show ?thesis unfolding ev by (rule exI)
qed

lemma sd_card_v2_init_process_timeout_ops:
  assumes a: "sd_card_v2_init_process f c hw s = Some (e, s')"
      and lt: "last_tick s' \<noteq> None"
  shows "\<exists>k. map fst (events_since s s') = negotiation_sequence k"
proof -
  let ?o = "hw (trace s) (Op_SEND_CMD (sd_card_get_cmd 58 0))"
  let ?s1 = "s\<lparr>trace := (Op_SEND_CMD (sd_card_get_cmd 58 0), ?o) # trace s\<rparr>"
  let ?t = "hw (trace ?s1) Op_GetTick"
  let ?s2 = "?s1\<lparr>trace := (Op_GetTick, ?t) # trace ?s1\<rparr>"
  let ?old = "[(Op_GetTick, ?t), (Op_SEND_CMD (sd_card_get_cmd 58 0), ?o)]"
  have ok: "voltage_window_ok (rep_bytes ?o)"
  proof (rule ccontr)
    assume "\<not> voltage_window_ok (rep_bytes ?o)"
    with a have "s' = ?s1"
      by (auto simp: sd_card_v2_init_process_def SEND_CMD_eq)
    then have "last_tick s' = None" by (simp add: last_tick_def)
    with lt show False by simp
  qed
  with a obtain x s3 where
    l: "v2_init_poll f c hw (rep_tick ?t) (SD_OK OR rep_status ?o) ?s2 = Some (x, s3)"
    by (auto simp: sd_card_v2_init_process_def SEND_CMD_eq io_eq Let_def split: option.splits)
  from a ok l have tr: "trace s' = trace s3"
    by (cases x)
       (auto simp: sd_card_v2_init_process_def SEND_CMD_eq io_eq Let_def split: if_splits)
  with lt have lt3: "last_tick s3 \<noteq> None" by (simp add: last_tick_def)
  from v2_init_poll_ops[OF l] lt3 obtain new k where
    n: "trace s3 = new @ trace ?s2"
       "map fst new = concat (replicate (Suc k)
          [Op_GetTick, Op_SEND_CMD (sd_card_get_cmd 41 0), Op_SEND_CMD (sd_card_get_cmd 55 0)])"
    by auto
  from tr n(1) have "trace s' = (new @ ?old) @ trace s" by simp
  then have ev: "events_since s s' = new @ ?old" by (rule events_since_append)
  have "map fst (new @ ?old) = negotiation_sequence k"
    using n(2) by (simp add: negotiation_sequence_def)
  then show ?thesis unfolding ev by (rule exI)
qed

lemma sd_card_enter_spi_mode_deadline:
  assumes a: "sd_card_enter_spi_mode f c hw s = Some (e, s')"
      and nl: "\<not> sd_card_is_spi_mode s"
  shows "case last_tick s' of
           Some t \<Rightarrow> e = SD_TIMEOUT c \<and>
             (\<exists>t0. first_tick (events_since s s') = Some t0 \<and> 500 < t - t0) \<and>
             (\<exists>k. map fst (events_since s s') = tl (entry_sequence k) \<and>
                (\<forall>ev \<in> set (drop 2 (take (2 * Suc k) (events_since s s'))).
                   fst ev = Op_receive_byte \<longrightarrow> polled_r1 ev \<noteq> R1_IN_IDLE_STATE))
         | None \<Rightarrow> e = seen (events_since s s')"
proof -
  from sd_card_enter_spi_mode_returns[OF a nl] obtain new where
    n: "trace s' = new @ trace s"
       "case last_tick s' of
          Some t \<Rightarrow> e = SD_TIMEOUT c \<and> (\<exists>t0. first_tick new = Some t0 \<and> 500 < t - t0)
        | None \<Rightarrow> e = seen new"
    by blast
  from n(1) have ev: "events_since s s' = new" by (rule events_since_append)
  show ?thesis
  proof (cases "last_tick s'")
    case None
    with n(2) ev show ?thesis by simp
  next
    case (Some t)
    then have "last_tick s' \<noteq> None" by simp
    from sd_card_enter_spi_mode_timeout_polls[OF a nl this] Some n(2) ev
    show ?thesis by simp
  qed
qed

lemma sd_card_v1_init_process_deadline:
  assumes a: "sd_card_v1_init_process f c hw s = Some (e, s')"
  shows "case last_tick s' of
           Some t \<Rightarrow> e = SD_TIMEOUT c \<and>
             (\<exists>t0. first_tick (events_since s s') = Some t0 \<and> 1000 < t - t0) \<and>
             (\<exists>k. map fst (events_since s s') = negotiation_sequence k) \<and>
             (\<forall>ev \<in> set (events_since s s'). is_acmd41 ev \<longrightarrow> polled_r1 ev \<noteq> R1_CLEAR_FLAGS)
         | None \<Rightarrow> e = SD_ERROR c \<or> e = SD_UNUSABLE_CARD c \<or> e = seen (events_since s s')"
proof -
  from sd_card_v1_init_process_returns[OF a] obtain new where
    n: "trace s' = new @ trace s"
       "case last_tick s' of
          Some t \<Rightarrow> e = SD_TIMEOUT c \<and> (\<exists>t0. first_tick new = Some t0 \<and> 1000 < t - t0)
        | None \<Rightarrow> e = SD_ERROR c \<or> e = SD_UNUSABLE_CARD c \<or> e = seen new"
    by blast
  from n(1) have ev: "events_since s s' = new" by (rule events_since_append)
  show ?thesis
  proof (cases "last_tick s'")
    case None
    with n(2) ev show ?thesis by simp
  next
    case (Some t)
    then have "last_tick s' \<noteq> None" by simp
    note lt = this
    from sd_card_v1_init_process_timeout_polls[OF a lt]
         sd_card_v1_init_process_timeout_ops[OF a lt] Some n(2) ev
    show ?thesis by simp
  qed
qed

lemma sd_card_v2_init_process_deadline:
  assumes a: "sd_card_v2_init_process f c hw s = Some (e, s')"
  shows "case last_tick s' of
           Some t \<Rightarrow> e = SD_TIMEOUT c \<and>
             (\<exists>t0. first_tick (events_since s s') = Some t0 \<and> 1000 < t - t0) \<and>
             (\<exists>k. map fst (events_since s s') = negotiation_sequence k) \<and>
             (\<forall>ev \<in> set (events_since s s'). is_acmd41 ev \<longrightarrow> polled_r1 ev \<noteq> R1_CLEAR_FLAGS)
         | None \<Rightarrow> e = SD_UNUSABLE_CARD c \<or> e = seen (events_since s s')"
proof -
  from sd_card_v2_init_process_returns[OF a] obtain new where
    n: "trace s' = new @ trace s"
       "case last_tick s' of
          Some t \<Rightarrow> e = SD_TIMEOUT c \<and> (\<exists>t0. first_tick new = Some t0 \<and> 1000 < t - t0)
        | None \<Rightarrow> e = SD_UNUSABLE_CARD c \<or> e = seen new"
    by blast
  from n(1) have ev: "events_since s s' = new" by (rule events_since_append)
  show ?thesis
  proof (cases "last_tick s'")
    case None
    with n(2) ev show ?thesis by simp
  next
    case (Some t)
    then have "last_tick s' \<noteq> None" by simp
    note lt = this
    from sd_card_v2_init_process_timeout_polls[OF a lt]
         sd_card_v2_init_process_timeout_ops[OF a lt] Some n(2) ev
    show ?thesis by simp
  qed
qed

subsection \<open>The steps of reset\<close>

lemma sd_card_reset_stops:
  "sd_card_enter_spi_mode f c hw s = Some (e0, s1) \<Longrightarrow> e0 \<noteq> SD_OK \<Longrightarrow>
     sd_card_reset f c hw crc_enable s = Some (end_of_initialization e0 s1)"
  "sd_card_enter_spi_mode f c hw s = Some (SD_OK, s1) \<Longrightarrow>
   SEND_CMD hw (sd_card_get_cmd 8 0x155) SD_OK s1 = (resp, e1, s2) \<Longrightarrow> e1 \<noteq> SD_OK \<Longrightarrow>
     sd_card_reset f c hw crc_enable s = Some (end_of_initialization e1 s2)"
proof -
  show "sd_card_enter_spi_mode f c hw s = Some (e0, s1) \<Longrightarrow> e0 \<noteq> SD_OK \<Longrightarrow>
     sd_card_reset f c hw crc_enable s = Some (end_of_initialization e0 s1)"
    by (simp add: sd_card_reset_def SD_OK_def)
  have "(push_bit 8 1 OR 0x55 :: u32) = 0x155" by simp
  then show "sd_card_enter_spi_mode f c hw s = Some (SD_OK, s1) \<Longrightarrow>
   SEND_CMD hw (sd_card_get_cmd 8 0x155) SD_OK s1 = (resp, e1, s2) \<Longrightarrow> e1 \<noteq> SD_OK \<Longrightarrow>
     sd_card_reset f c hw crc_enable s = Some (end_of_initialization e1 s2)"
    by (simp add: sd_card_reset_def SD_OK_def Let_def)
qed

lemma sd_card_reset_steps:
  assumes en: "sd_card_enter_spi_mode f c hw s = Some (SD_OK, s1)"
      and ic: "SEND_CMD hw (sd_card_get_cmd 8 0x155) SD_OK s1 = (resp, SD_OK, s2)"
      and crc: "sd_card_crc_on_off c hw crc_enable s2 = (e2, s3)"
  shows "sd_card_reset f c hw crc_enable s =
           (if high_order_part resp AND R1_ILLEGAL_COMMAND \<noteq> 0
            then map_option (\<lambda>(e3, s4). end_of_initialization (e2 OR e3) s4)
                   (sd_card_v1_init_process f c hw s3)
            else if echo_back_of_check_pattern resp = 0x55 \<and> GET_VOLTAGE_FROM_R7 resp = 0x1
            then map_option (\<lambda>(e3, s4). end_of_initialization (e2 OR e3) s4)
                   (sd_card_v2_init_process f c hw s3)
            else Some (end_of_initialization (e2 OR SD_UNUSABLE_CARD c) s3))"
proof -
  have "(push_bit 8 1 OR 0x55 :: u32) = 0x155" by simp
  with en ic crc show ?thesis
    by (auto simp: sd_card_reset_def SD_OK_def Let_def split: option.splits)
qed

lemma sd_card_reset_flag:
  assumes a: "sd_card_reset f c hw crc s = Some (e, s')"
  shows "error_in_initialization (sd_card_status s') = (e \<noteq> SD_OK)"
  using a
  by (auto simp: sd_card_reset_def Let_def SD_OK_def end_of_initialization_def
        split: option.splits prod.splits if_splits)

lemma sd_card_reset_ok_seen:
  assumes a: "sd_card_reset f c hw crc s = Some (e, s')"
      and tz: "SD_ERROR c \<noteq> 0" "SD_TIMEOUT c \<noteq> 0" "SD_TRANSMISSION_ERROR c \<noteq> 0"
              "SD_UNUSABLE_CARD c \<noteq> 0"
  shows "(e = SD_OK \<longrightarrow> seen (events_since s s') = SD_OK) \<and>
         error_in_initialization (sd_card_status s') = (e \<noteq> SD_OK)"
proof -
  let ?cmd8 = "sd_card_get_cmd 8 (push_bit 8 1 OR 0x55)"
  from a obtain e0 s1 where en: "sd_card_enter_spi_mode f c hw s = Some (e0, s1)"
    by (auto simp: sd_card_reset_def split: option.splits)
  from sd_card_enter_spi_mode_trace[OF en tz(2)] obtain new1 where
    n1: "trace s1 = new1 @ trace s" "e0 = 0 \<longrightarrow> seen new1 = 0"
    by blast
  have "\<exists>new. trace s' = new @ trace s \<and> (e = 0 \<longrightarrow> seen new = 0) \<and>
          error_in_initialization (sd_card_status s') = (e \<noteq> 0)"
  proof (cases "e0 = 0")
    case False
    with a en have "(e, s') = end_of_initialization e0 s1"
      by (simp add: sd_card_reset_def)
    with False n1 show ?thesis
      by (intro exI[of _ new1]) (auto simp: end_of_initialization_def)
  next
    case z0: True
    let ?r = "hw (trace s1) (Op_SEND_CMD ?cmd8)"
    let ?s2 = "s1\<lparr>trace := (Op_SEND_CMD ?cmd8, ?r) # trace s1\<rparr>"
    let ?new2 = "(Op_SEND_CMD ?cmd8, ?r) # new1"
    have n2: "trace ?s2 = ?new2 @ trace s" "seen ?new2 = rep_status ?r"
      using n1 z0 by (simp_all add: event_status_def)
    show ?thesis
    proof (cases "rep_status ?r = 0")
      case False
      with a en z0 have "(e, s') = end_of_initialization (rep_status ?r) ?s2"
        by (auto simp: sd_card_reset_def SEND_CMD_eq Let_def)
      with False n2 show ?thesis
        by (intro exI[of _ ?new2]) (auto simp: end_of_initialization_def)
    next
      case z1: True
      obtain e2 s3 where crc: "sd_card_crc_on_off c hw crc ?s2 = (e2, s3)"
        by (cases "sd_card_crc_on_off c hw crc ?s2") auto
      from sd_card_crc_on_off_trace[OF crc tz(3)] obtain new3 where
        n3: "trace s3 = new3 @ trace ?s2" "e2 = 0 \<longrightarrow> seen new3 = 0"
        by blast
      have n3': "trace s3 = (new3 @ ?new2) @ trace s"
        "e2 = 0 \<longrightarrow> seen (new3 @ ?new2) = 0"
        using n3 n2 z1 by (simp_all add: seen_append)
      consider (v1) "high_order_part (rep_bytes ?r) AND R1_ILLEGAL_COMMAND \<noteq> 0"
        | (bad) "high_order_part (rep_bytes ?r) AND R1_ILLEGAL_COMMAND = 0"
            "\<not> (echo_back_of_check_pattern (rep_bytes ?r) = 0x55 \<and>
                GET_VOLTAGE_FROM_R7 (rep_bytes ?r) = 0x1)"
        | (v2) "high_order_part (rep_bytes ?r) AND R1_ILLEGAL_COMMAND = 0"
            "echo_back_of_check_pattern (rep_bytes ?r) = 0x55"
            "GET_VOLTAGE_FROM_R7 (rep_bytes ?r) = 0x1"
        by blast
      then show ?thesis
      proof cases
        case v1
        with a en z0 z1 crc obtain e3 s4 where
          v: "sd_card_v1_init_process f c hw s3 = Some (e3, s4)" and
          r: "(e, s') = end_of_initialization (e2 OR e3) s4"
          by (auto simp: sd_card_reset_def SEND_CMD_eq Let_def split: option.splits)
        from sd_card_v1_init_process_trace[OF v tz(1) tz(2) tz(4)] obtain new4 where
          n4: "trace s4 = new4 @ trace s3" "e3 = 0 \<longrightarrow> seen new4 = 0"
          by blast
        from r n4 n3' show ?thesis
          by (intro exI[of _ "new4 @ new3 @ ?new2"])
             (auto simp: end_of_initialization_def seen_append or_eq_0_iff)
      next
        case bad
        with a en z0 z1 crc have
          r: "(e, s') = end_of_initialization (e2 OR SD_UNUSABLE_CARD c) s3"
          by (auto simp: sd_card_reset_def SEND_CMD_eq Let_def)
        from r n3' tz(4) show ?thesis
          by (intro exI[of _ "new3 @ ?new2"])
             (auto simp: end_of_initialization_def or_eq_0_iff)
      next
        case v2
        with a en z0 z1 crc obtain e3 s4 where
          v: "sd_card_v2_init_process f c hw s3 = Some (e3, s4)" and
          r: "(e, s') = end_of_initialization (e2 OR e3) s4"
          by (auto simp: sd_card_reset_def SEND_CMD_eq Let_def split: option.splits)
        from sd_card_v2_init_process_trace[OF v tz(2) tz(4)] obtain new4 where
          n4: "trace s4 = new4 @ trace s3" "e3 = 0 \<longrightarrow> seen new4 = 0"
          by blast
        from r n4 n3' show ?thesis
          by (intro exI[of _ "new4 @ new3 @ ?new2"])
             (auto simp: end_of_initialization_def seen_append or_eq_0_iff)
      qed
    qed
  qed
  then show ?thesis
    by (auto simp: SD_OK_def events_since_append)
qed

subsection \<open>Voltage window check\<close>

text \<open>
  Claim C7. Both negotiation variants read the OCR with CMD58 and test the voltage window
  (some bit of \<open>0x1f\<close> in OCR byte 1 and bit \<open>0x80\<close> in OCR byte 2). When the test fails
  the function returns at once, whatever the fuel: the only hardware call made is the CMD58
  exchange, so no CMD55 or ACMD41 is sent. The earlier-revision variant returns
  \<^verbatim>\<open>SD_ERROR\<close>, the later-revision variant \<^verbatim>\<open>SD_UNUSABLE_CARD\<close>.
\<close>

theorem voltage_check_fails_before_polling:
  assumes "\<not> voltage_window_ok (rep_bytes (hw (trace s) (Op_SEND_CMD (sd_card_get_cmd 58 0))))"
  shows "sd_card_v1_init_process fuel c hw s =
           Some (SD_ERROR c,
             s\<lparr>trace := (Op_SEND_CMD (sd_card_get_cmd 58 0),
                          hw (trace s) (Op_SEND_CMD (sd_card_get_cmd 58 0))) # trace s\<rparr>) \<and>
         sd_card_v2_init_process fuel c hw s =
           Some (SD_UNUSABLE_CARD c,
             s\<lparr>trace := (Op_SEND_CMD (sd_card_get_cmd 58 0),
                          hw (trace s) (Op_SEND_CMD (sd_card_get_cmd 58 0))) # trace s\<rparr>)"
  using assms
  by (simp add: sd_card_v1_init_process_def sd_card_v2_init_process_def SEND_CMD_eq)

theorem voltage_check_fails_before_polling_witness:
  "\<not> voltage_window_ok
       (rep_bytes (sim_hw (card_v2\<lparr>sim_ocr := [0x01, 0x00, 0x1f, 0x00, 0x00]\<rparr>) (trace s_init)
          (Op_SEND_CMD (sd_card_get_cmd 58 0)))) \<and>
   map_option fst
     (sd_card_v1_init_process 0 example_codes
        (sim_hw (card_v2\<lparr>sim_ocr := [0x01, 0x00, 0x1f, 0x00, 0x00]\<rparr>)) s_init) = Some 1 \<and>
   map_option fst
     (sd_card_v2_init_process 0 example_codes
        (sim_hw (card_v2\<lparr>sim_ocr := [0x01, 0x00, 0x1f, 0x00, 0x00]\<rparr>)) s_init) = Some 8"
proof -
  have h: "\<not> voltage_window_ok
       (rep_bytes (sim_hw (card_v2\<lparr>sim_ocr := [0x01, 0x00, 0x1f, 0x00, 0x00]\<rparr>) (trace s_init)
          (Op_SEND_CMD (sd_card_get_cmd 58 0))))"
    by code_simp
  show ?thesis
    using h voltage_check_fails_before_polling
      [where hw = "sim_hw (card_v2\<lparr>sim_ocr := [0x01, 0x00, 0x1f, 0x00, 0x00]\<rparr>)"
         and s = s_init and fuel = 0 and c = example_codes]
    by (simp add: example_codes_def)
qed

subsection \<open>Illegal command during polling\<close>

text \<open>
  Claim C8. In every iteration of the earlier-revision loop in which the card answers
  ACMD41 with the illegal-command flag set, the loop returns \<^verbatim>\<open>SD_UNUSABLE_CARD\<close> right
  after the exchange. An iteration of the later-revision loop ends the loop on a ready
  answer (all flags clear) and otherwise, whatever the flags of the answer, reads the tick,
  returns \<^verbatim>\<open>SD_TIMEOUT\<close> when the deadline has passed and goes round again when it has
  not. Both functions, once the voltage check has passed, read the tick and run their
  loop, and return what the loop returns (recording version and capacity when the loop
  ends on a ready answer).

  For a call of the earlier-revision variant as a whole: no ACMD41 before the latest
  hardware call was answered with the illegal-command flag, and when the latest call is
  an ACMD41 answered with the flag the result is \<^verbatim>\<open>SD_UNUSABLE_CARD\<close>; so the first such
  answer ends the call. A call of the later-revision variant never ends on an ACMD41
  answered with the flag; no ACMD41 before its latest call was answered ready; and, the
  voltage check passed, it ends on a ready answer or on a tick read with result
  \<^verbatim>\<open>SD_TIMEOUT\<close>.
\<close>

theorem illegal_command_ends_v1_polling_only:
  "(acmd41_exchange hw status s = (resp, status', s') \<and>
    r1_of resp AND R1_ILLEGAL_COMMAND \<noteq> 0 \<longrightarrow>
      v1_init_poll (Suc n) c hw tickstart status s =
        Some (Return (SD_UNUSABLE_CARD c), s')) \<and>
   (acmd41_exchange hw status s = (resp, status', s') \<longrightarrow>
      v2_init_poll (Suc n) c hw tickstart status s =
        (if r1_of resp = R1_CLEAR_FLAGS then Some (Break status', s')
         else if rep_tick (fst (io hw Op_GetTick s')) - tickstart > 1000
         then Some (Return (SD_TIMEOUT c), snd (io hw Op_GetTick s'))
         else v2_init_poll n c hw tickstart status' (snd (io hw Op_GetTick s')))) \<and>
   (SEND_CMD hw (sd_card_get_cmd 58 0) SD_OK s = (ocr, st0, s1) \<and> voltage_window_ok ocr \<longrightarrow>
      sd_card_v1_init_process f c hw s =
        (case v1_init_poll f c hw (rep_tick (fst (io hw Op_GetTick s1))) st0
                (snd (io hw Op_GetTick s1)) of
           None \<Rightarrow> None
         | Some (Return e, s3) \<Rightarrow> Some (e, s3)
         | Some (Break status1, s3) \<Rightarrow>
             Some (status1,
               s3\<lparr>sd_card_status :=
                    (sd_card_status s3)\<lparr>version := 1, capacity := STANDART\<rparr>\<rparr>)) \<and>
      sd_card_v2_init_process f c hw s =
        (case v2_init_poll f c hw (rep_tick (fst (io hw Op_GetTick s1))) st0
                (snd (io hw Op_GetTick s1)) of
           None \<Rightarrow> None
         | Some (Return e, s3) \<Rightarrow> Some (e, s3)
         | Some (Break status1, s3) \<Rightarrow>
             Some (status1,
               s3\<lparr>sd_card_status :=
                    (sd_card_status s3)\<lparr>version := 2,
                       capacity := (if ocr_register_content ocr 0 AND 0x2 \<noteq> 0
                                    then HIGH_OR_EXTENDED else STANDART)\<rparr>\<rparr>))) \<and>
   (sd_card_v1_init_process f c hw s = Some (e, s') \<longrightarrow>
      (\<forall>ev \<in> set (tl (events_since s s')).
         is_acmd41 ev \<longrightarrow> polled_r1 ev AND R1_ILLEGAL_COMMAND = 0) \<and>
      (acmd41_illegal_last s' \<longrightarrow> e = SD_UNUSABLE_CARD c)) \<and>
   (sd_card_v2_init_process f c hw s = Some (e, s') \<longrightarrow>
      \<not> acmd41_illegal_last s' \<and>
      (\<forall>ev \<in> set (tl (events_since s s')). is_acmd41 ev \<longrightarrow> polled_r1 ev \<noteq> R1_CLEAR_FLAGS) \<and>
      (voltage_window_ok (rep_bytes (hw (trace s) (Op_SEND_CMD (sd_card_get_cmd 58 0)))) \<longrightarrow>
         acmd41_ready_last s' \<or> last_tick s' \<noteq> None \<and> e = SD_TIMEOUT c))"
proof (intro conjI impI)
  assume h: "acmd41_exchange hw status s = (resp, status', s') \<and>
    r1_of resp AND R1_ILLEGAL_COMMAND \<noteq> 0"
  from h[THEN conjunct1] h[THEN conjunct2]
  show "v1_init_poll (Suc n) c hw tickstart status s = Some (Return (SD_UNUSABLE_CARD c), s')"
    by (rule v1_init_poll_step_illegal)
next
  assume "acmd41_exchange hw status s = (resp, status', s')"
  then show "v2_init_poll (Suc n) c hw tickstart status s =
        (if r1_of resp = R1_CLEAR_FLAGS then Some (Break status', s')
         else if rep_tick (fst (io hw Op_GetTick s')) - tickstart > 1000
         then Some (Return (SD_TIMEOUT c), snd (io hw Op_GetTick s'))
         else v2_init_poll n c hw tickstart status' (snd (io hw Op_GetTick s')))"
    by (rule v2_init_poll_step)
next
  assume h: "SEND_CMD hw (sd_card_get_cmd 58 0) SD_OK s = (ocr, st0, s1) \<and> voltage_window_ok ocr"
  from h[THEN conjunct1] h[THEN conjunct2]
  show "sd_card_v1_init_process f c hw s =
        (case v1_init_poll f c hw (rep_tick (fst (io hw Op_GetTick s1))) st0
                (snd (io hw Op_GetTick s1)) of
           None \<Rightarrow> None
         | Some (Return e, s3) \<Rightarrow> Some (e, s3)
         | Some (Break status1, s3) \<Rightarrow>
             Some (status1,
               s3\<lparr>sd_card_status :=
                    (sd_card_status s3)\<lparr>version := 1, capacity := STANDART\<rparr>\<rparr>))"
    by (rule sd_card_v1_init_process_polls)
  from h[THEN conjunct1] h[THEN conjunct2]
  show "sd_card_v2_init_process f c hw s =
        (case v2_init_poll f c hw (rep_tick (fst (io hw Op_GetTick s1))) st0
                (snd (io hw Op_GetTick s1)) of
           None \<Rightarrow> None
         | Some (Return e, s3) \<Rightarrow> Some (e, s3)
         | Some (Break status1, s3) \<Rightarrow>
             Some (status1,
               s3\<lparr>sd_card_status :=
                    (sd_card_status s3)\<lparr>version := 2,
                       capacity := (if ocr_register_content ocr 0 AND 0x2 \<noteq> 0
                                    then HIGH_OR_EXTENDED else STANDART)\<rparr>\<rparr>))"
    by (rule sd_card_v2_init_process_polls)
next
  assume a: "sd_card_v1_init_process f c hw s = Some (e, s')"
  from sd_card_v1_init_process_illegal[OF a, THEN conjunct1]
  show "\<forall>ev \<in> set (tl (events_since s s')).
         is_acmd41 ev \<longrightarrow> polled_r1 ev AND R1_ILLEGAL_COMMAND = 0" .
  assume "acmd41_illegal_last s'"
  with sd_card_v1_init_process_illegal[OF a, THEN conjunct2]
  show "e = SD_UNUSABLE_CARD c" by (rule mp)
next
  assume a: "sd_card_v2_init_process f c hw s = Some (e, s')"
  from sd_card_v2_init_process_exits[OF a, THEN conjunct1]
  show "\<not> acmd41_illegal_last s'" .
  from sd_card_v2_init_process_exits[OF a, THEN conjunct2, THEN conjunct1]
  show "\<forall>ev \<in> set (tl (events_since s s')). is_acmd41 ev \<longrightarrow> polled_r1 ev \<noteq> R1_CLEAR_FLAGS" .
  assume "voltage_window_ok (rep_bytes (hw (trace s) (Op_SEND_CMD (sd_card_get_cmd 58 0))))"
  with sd_card_v2_init_process_exits[OF a, THEN conjunct2, THEN conjunct2]
  show "acmd41_ready_last s' \<or> last_tick s' \<noteq> None \<and> e = SD_TIMEOUT c" by (rule mp)
qed

text \<open>
  A card that answers every ACMD41 with idle and illegal-command (0x05). The
  earlier-revision loop returns unusable-card (8) in its first iteration, and so does the
  function, its latest call being that ACMD41. The later-revision loop is still polling
  after one iteration when the clock is slow, and returns timeout (2) when 1000 ticks pass
  per hardware call; the function, with 100 ticks per call, polls four times and returns
  timeout, the ACMD41 before the final tick read having been answered with the flag. A
  card that answers ready ends the later-revision loop in the first iteration.
\<close>

theorem illegal_command_ends_v1_polling_only_witness:
  "r1_of (fst (acmd41_exchange (sim_hw (card_v2\<lparr>sim_acmd41 := 0x05\<rparr>)) 0 s_init))
      AND R1_ILLEGAL_COMMAND \<noteq> 0 \<and>
   map_option fst
     (v1_init_poll 1 example_codes (sim_hw (card_v2\<lparr>sim_acmd41 := 0x05\<rparr>)) 0 0 s_init) =
     Some (Return 8) \<and>
   map_option fst
     (v2_init_poll 1 example_codes (sim_hw (card_v2\<lparr>sim_acmd41 := 0x05\<rparr>)) 0 0 s_init) =
     None \<and>
   map_option fst
     (v2_init_poll 1 example_codes
        (sim_hw (card_v2\<lparr>sim_acmd41 := 0x05, sim_tick_step := 1000\<rparr>)) 0 0 s_init) =
     Some (Return 2) \<and>
   map_option fst
     (v2_init_poll 1 example_codes (sim_hw card_v2) 0 0 s_init) = Some (Break 0) \<and>
   voltage_window_ok
     (fst (SEND_CMD (sim_hw (card_v2\<lparr>sim_acmd41 := 0x05\<rparr>)) (sd_card_get_cmd 58 0) SD_OK s_init)) \<and>
   sd_card_v1_init_process 1 example_codes (sim_hw (card_v2\<lparr>sim_acmd41 := 0x05\<rparr>)) s_init =
     (case v1_init_poll 1 example_codes (sim_hw (card_v2\<lparr>sim_acmd41 := 0x05\<rparr>))
             (rep_tick (fst (io (sim_hw (card_v2\<lparr>sim_acmd41 := 0x05\<rparr>)) Op_GetTick
                (snd (snd (SEND_CMD (sim_hw (card_v2\<lparr>sim_acmd41 := 0x05\<rparr>))
                   (sd_card_get_cmd 58 0) SD_OK s_init))))))
             (fst (snd (SEND_CMD (sim_hw (card_v2\<lparr>sim_acmd41 := 0x05\<rparr>))
                (sd_card_get_cmd 58 0) SD_OK s_init)))
             (snd (io (sim_hw (card_v2\<lparr>sim_acmd41 := 0x05\<rparr>)) Op_GetTick
                (snd (snd (SEND_CMD (sim_hw (card_v2\<lparr>sim_acmd41 := 0x05\<rparr>))
                   (sd_card_get_cmd 58 0) SD_OK s_init))))) of
        None \<Rightarrow> None
      | Some (Return e, s3) \<Rightarrow> Some (e, s3)
      | Some (Break status1, s3) \<Rightarrow>
          Some (status1,
            s3\<lparr>sd_card_status :=
                 (sd_card_status s3)\<lparr>version := 1, capacity := STANDART\<rparr>\<rparr>)) \<and>
   map_option fst
     (sd_card_v1_init_process 1 example_codes (sim_hw (card_v2\<lparr>sim_acmd41 := 0x05\<rparr>)) s_init) =
     Some 8 \<and>
   acmd41_illegal_last
     (snd (the (sd_card_v1_init_process 1 example_codes
        (sim_hw (card_v2\<lparr>sim_acmd41 := 0x05\<rparr>)) s_init))) \<and>
   map_option fst
     (sd_card_v2_init_process 4 example_codes
        (sim_hw (card_v2\<lparr>sim_acmd41 := 0x05, sim_tick_step := 100\<rparr>)) s_init) = Some 2 \<and>
   polled_r1 (trace (snd (the (sd_card_v2_init_process 4 example_codes
        (sim_hw (card_v2\<lparr>sim_acmd41 := 0x05, sim_tick_step := 100\<rparr>)) s_init))) ! 1)
      AND R1_ILLEGAL_COMMAND \<noteq> 0 \<and>
   \<not> acmd41_illegal_last
     (snd (the (sd_card_v2_init_process 4 example_codes
        (sim_hw (card_v2\<lparr>sim_acmd41 := 0x05, sim_tick_step := 100\<rparr>)) s_init)))"
proof -
  note w = illegal_command_ends_v1_polling_only
  let ?c = example_codes
  let ?hw = "sim_hw (card_v2\<lparr>sim_acmd41 := 0x05\<rparr>)"
  let ?hw' = "sim_hw (card_v2\<lparr>sim_acmd41 := 0x05, sim_tick_step := 1000\<rparr>)"
  let ?hws = "sim_hw (card_v2\<lparr>sim_acmd41 := 0x05, sim_tick_step := 100\<rparr>)"
  let ?hwr = "sim_hw card_v2"
  obtain resp st1 s1 where ex: "acmd41_exchange ?hw 0 s_init = (resp, st1, s1)"
    by (cases "acmd41_exchange ?hw 0 s_init") auto
  have h: "r1_of (fst (acmd41_exchange ?hw 0 s_init)) AND R1_ILLEGAL_COMMAND \<noteq> 0"
    by code_simp
  with ex have h': "r1_of resp AND R1_ILLEGAL_COMMAND \<noteq> 0" by simp
  then have h'': "r1_of resp \<noteq> R1_CLEAR_FLAGS" by (auto simp: R1_CLEAR_FLAGS_def)
  from w [where hw = "?hw" and status = 0 and s = s_init and n = 0 and c = ?c
            and tickstart = 0 and resp = resp and status' = st1 and s' = s1,
          THEN conjunct1] ex h'
  have a1: "map_option fst (v1_init_poll 1 ?c ?hw 0 0 s_init) = Some (Return 8)"
    by (simp add: example_codes_def)
  have t1: "\<not> rep_tick (fst (io ?hw Op_GetTick (snd (snd (acmd41_exchange ?hw 0 s_init))))) - 0
              > 1000"
    by code_simp
  from w [where hw = "?hw" and status = 0 and s = s_init and n = 0 and c = ?c
            and tickstart = 0 and resp = resp and status' = st1 and s' = s1,
          THEN conjunct2, THEN conjunct1] ex h'' t1
  have a2: "map_option fst (v2_init_poll 1 ?c ?hw 0 0 s_init) = None"
    by simp
  obtain resp' st1' s1' where ex': "acmd41_exchange ?hw' 0 s_init = (resp', st1', s1')"
    by (cases "acmd41_exchange ?hw' 0 s_init") auto
  have "r1_of (fst (acmd41_exchange ?hw' 0 s_init)) \<noteq> R1_CLEAR_FLAGS"
    by code_simp
  with ex' have k: "r1_of resp' \<noteq> R1_CLEAR_FLAGS" by simp
  have t2: "rep_tick (fst (io ?hw' Op_GetTick (snd (snd (acmd41_exchange ?hw' 0 s_init))))) - 0
              > 1000"
    by code_simp
  from w [where hw = "?hw'" and status = 0 and s = s_init and n = 0 and c = ?c
            and tickstart = 0 and resp = resp' and status' = st1' and s' = s1',
          THEN conjunct2, THEN conjunct1] ex' k t2
  have a3: "map_option fst (v2_init_poll 1 ?c ?hw' 0 0 s_init) = Some (Return 2)"
    by (simp add: example_codes_def)
  obtain respr str sr where exr: "acmd41_exchange ?hwr 0 s_init = (respr, str, sr)"
    by (cases "acmd41_exchange ?hwr 0 s_init") auto
  have "r1_of (fst (acmd41_exchange ?hwr 0 s_init)) = R1_CLEAR_FLAGS"
       "fst (snd (acmd41_exchange ?hwr 0 s_init)) = 0"
    by code_simp+
  with exr have kr: "r1_of respr = R1_CLEAR_FLAGS" "str = 0" by simp_all
  from w [where hw = "?hwr" and status = 0 and s = s_init and n = 0 and c = ?c
            and tickstart = 0 and resp = respr and status' = str and s' = sr,
          THEN conjunct2, THEN conjunct1] exr kr
  have a4: "map_option fst (v2_init_poll 1 ?c ?hwr 0 0 s_init) = Some (Break 0)"
    by simp
  have vw: "voltage_window_ok (fst (SEND_CMD ?hw (sd_card_get_cmd 58 0) SD_OK s_init))"
    by code_simp
  let ?v1 = "sd_card_v1_init_process 1 ?c ?hw s_init"
  let ?sc = "SEND_CMD ?hw (sd_card_get_cmd 58 0) SD_OK s_init"
  obtain ocr st0 so where sc: "?sc = (ocr, st0, so)" by (cases ?sc) auto
  with vw have vo: "voltage_window_ok ocr" by simp
  from w [where hw = "?hw" and s = s_init and f = 1 and c = ?c and ocr = ocr and ?st0.0 = st0
            and ?s1.0 = so,
          THEN conjunct2, THEN conjunct2, THEN conjunct1, THEN mp, THEN conjunct1] sc vo
  have lk: "?v1 =
     (case v1_init_poll 1 ?c ?hw (rep_tick (fst (io ?hw Op_GetTick (snd (snd ?sc)))))
             (fst (snd ?sc)) (snd (io ?hw Op_GetTick (snd (snd ?sc)))) of
        None \<Rightarrow> None
      | Some (Return e, s3) \<Rightarrow> Some (e, s3)
      | Some (Break status1, s3) \<Rightarrow>
          Some (status1,
            s3\<lparr>sd_card_status :=
                 (sd_card_status s3)\<lparr>version := 1, capacity := STANDART\<rparr>\<rparr>))"
    by simp
  have b1: "?v1 \<noteq> None" by code_simp
  then obtain e1 r1 where b2: "?v1 = Some (e1, r1)" by (cases ?v1) auto
  have b3: "acmd41_illegal_last (snd (the ?v1))" by code_simp
  from w [where hw = "?hw" and s = s_init and f = 1 and c = ?c and e = e1 and s' = r1,
          THEN conjunct2, THEN conjunct2, THEN conjunct2, THEN conjunct1] b2 b3
  have b4: "map_option fst ?v1 = Some 8"
    by (simp add: example_codes_def)
  let ?v2 = "sd_card_v2_init_process 4 ?c ?hws s_init"
  have c1: "map_option fst ?v2 = Some 2" by code_simp
  then obtain r2 where c2: "?v2 = Some (2, r2)" by (cases ?v2) auto
  have c3: "polled_r1 (trace (snd (the ?v2)) ! 1) AND R1_ILLEGAL_COMMAND \<noteq> 0" by code_simp
  from w [where hw = "?hws" and s = s_init and f = 4 and c = ?c and e = 2 and s' = r2,
          THEN conjunct2, THEN conjunct2, THEN conjunct2, THEN conjunct2] c2
  have c4: "\<not> acmd41_illegal_last (snd (the ?v2))"
    by simp
  from h a1 a2 a3 a4 vw lk b4 b3 c1 c3 c4 show ?thesis
    by (intro conjI)
qed

subsection \<open>Version and capacity are written on success only\<close>

text \<open>
  Claim C10. When a negotiation variant returns, the session status is as it was before the
  call unless the latest hardware call was an ACMD41 exchange that the card answered with
  all flags clear. The three error returns end differently (voltage check: the CMD58
  exchange; unusable card: an ACMD41 answered with a flag set; timeout: a tick read), so
  each of them leaves version and capacity, and the failure flag, untouched. After the
  ready answer the earlier-revision variant records version 1 and standard capacity, the
  later-revision variant version 2; neither touches the failure flag.
\<close>

theorem negotiation_writes_status_after_ready_only:
  "(sd_card_v1_init_process f c hw s = Some (e, s') \<longrightarrow>
      sd_card_status s' =
        (if acmd41_ready_last s'
         then (sd_card_status s)\<lparr>version := 1, capacity := STANDART\<rparr>
         else sd_card_status s)) \<and>
   (sd_card_v2_init_process f c hw s = Some (e, s') \<longrightarrow>
      (if acmd41_ready_last s'
       then version (sd_card_status s') = 2 \<and>
            error_in_initialization (sd_card_status s') =
              error_in_initialization (sd_card_status s)
       else sd_card_status s' = sd_card_status s))"
proof (intro conjI impI)
  assume a: "sd_card_v1_init_process f c hw s = Some (e, s')"
  show "sd_card_status s' =
        (if acmd41_ready_last s'
         then (sd_card_status s)\<lparr>version := 1, capacity := STANDART\<rparr>
         else sd_card_status s)"
    using a
    by (auto simp: sd_card_v1_init_process_def SEND_CMD_eq io_eq Let_def acmd41_ready_last_def
          sd_card_get_cmd_def
          split: if_splits option.splits loop_exit.splits dest!: v1_init_poll_frame)
next
  assume a: "sd_card_v2_init_process f c hw s = Some (e, s')"
  show "if acmd41_ready_last s'
       then version (sd_card_status s') = 2 \<and>
            error_in_initialization (sd_card_status s') =
              error_in_initialization (sd_card_status s)
       else sd_card_status s' = sd_card_status s"
    using a
    by (auto simp: sd_card_v2_init_process_def SEND_CMD_eq io_eq Let_def acmd41_ready_last_def
          sd_card_get_cmd_def
          split: if_splits option.splits loop_exit.splits dest!: v2_init_poll_frame)
qed

text \<open>
  An earlier-revision card that is ready at once gets version 1 recorded; a later-revision
  card that stays idle until the deadline leaves the status as it was.
\<close>

theorem negotiation_writes_status_after_ready_only_witness:
  "sd_card_v1_init_process 1 example_codes (sim_hw card_v1) s_init \<noteq> None \<and>
   acmd41_ready_last
     (snd (the (sd_card_v1_init_process 1 example_codes (sim_hw card_v1) s_init))) \<and>
   sd_card_status
     (snd (the (sd_card_v1_init_process 1 example_codes (sim_hw card_v1) s_init))) =
     \<lparr>version = 1, capacity = STANDART, error_in_initialization = False\<rparr> \<and>
   sd_card_v2_init_process 4 example_codes
     (sim_hw (card_v2\<lparr>sim_acmd41 := 0x01, sim_tick_step := 100\<rparr>)) s_init \<noteq> None \<and>
   \<not> acmd41_ready_last
     (snd (the (sd_card_v2_init_process 4 example_codes
        (sim_hw (card_v2\<lparr>sim_acmd41 := 0x01, sim_tick_step := 100\<rparr>)) s_init))) \<and>
   sd_card_status
     (snd (the (sd_card_v2_init_process 4 example_codes
        (sim_hw (card_v2\<lparr>sim_acmd41 := 0x01, sim_tick_step := 100\<rparr>)) s_init))) =
     \<lparr>version = 0, capacity = STANDART, error_in_initialization = False\<rparr>"
proof -
  let ?hw2 = "sim_hw (card_v2\<lparr>sim_acmd41 := 0x01, sim_tick_step := 100\<rparr>)"
  let ?r1 = "sd_card_v1_init_process 1 example_codes (sim_hw card_v1) s_init"
  let ?r2 = "sd_card_v2_init_process 4 example_codes ?hw2 s_init"
  have a1: "?r1 \<noteq> None" by code_simp
  have b1: "acmd41_ready_last (snd (the ?r1))" by code_simp
  have a2: "?r2 \<noteq> None" by code_simp
  have b2: "\<not> acmd41_ready_last (snd (the ?r2))" by code_simp
  have i: "sd_card_status s_init =
             \<lparr>version = 0, capacity = STANDART, error_in_initialization = False\<rparr>"
    by (simp add: s_init_def)
  from a1 obtain e1 s1 where c1: "?r1 = Some (e1, s1)" by (cases ?r1) auto
  from a2 obtain e2 s2 where c2: "?r2 = Some (e2, s2)" by (cases ?r2) auto
  from negotiation_writes_status_after_ready_only
         [of 1 example_codes "sim_hw card_v1" s_init e1 s1]
       negotiation_writes_status_after_ready_only
         [of 4 example_codes ?hw2 s_init e2 s2]
       a1 b1 a2 b2 c1 c2 i
  show ?thesis by simp
qed

subsection \<open>Geometry before a reset\<close>

text \<open>
  Claim C1 says that \<^verbatim>\<open>sd_card_get_common_info\<close> fails with an error when the session
  version is still unset (0). The code tests \<^verbatim>\<open>version == 1\<close> only and decodes every
  other version, 0 included, with the later-revision layout. On the start-up state, with
  a card whose CSD holds the size field 1000, it returns \<^verbatim>\<open>SD_OK\<close> and the size
  (1000 + 1) * 512.
\<close>

theorem get_common_info_unset_version_counterexample:
  "version (sd_card_status s_init) = 0 \<and>
   fst (sd_card_get_common_info (sim_hw card_v2) info_zero s_init) = SD_OK \<and>
   size (fst (snd (sd_card_get_common_info (sim_hw card_v2) info_zero s_init))) = 512512"
  by code_simp

text \<open>
  Claim C1 as amended. Called while the version is unset, the function does not fail on
  that account: when the CSD read returns status OK it returns \<^verbatim>\<open>SD_OK\<close> and the size
  decoded with the later-revision layout, (c_size + 1) * 512; it returns an error only
  when the CSD read itself does, passing that status on and leaving the result record as
  it was.
\<close>

theorem get_common_info_unset_version:
  assumes "version (sd_card_status s) = 0"
  shows "(rep_status (hw (trace s) Op_get_csd) = SD_OK \<longrightarrow>
            fst (sd_card_get_common_info hw info s) = SD_OK \<and>
            size (fst (snd (sd_card_get_common_info hw info s))) =
              (csd_c_size (rep_bytes (hw (trace s) Op_get_csd)) + 1) * 512) \<and>
         (rep_status (hw (trace s) Op_get_csd) \<noteq> SD_OK \<longrightarrow>
            fst (sd_card_get_common_info hw info s) = rep_status (hw (trace s) Op_get_csd) \<and>
            fst (snd (sd_card_get_common_info hw info s)) = info)"
  using assms
  by (simp add: sd_card_get_common_info_def io_eq Let_def SD_OK_def)

theorem get_common_info_unset_version_witness:
  "version (sd_card_status s_init) = 0 \<and>
   rep_status (sim_hw card_v2 (trace s_init) Op_get_csd) = SD_OK \<and>
   fst (sd_card_get_common_info (sim_hw card_v2) info_zero s_init) = SD_OK \<and>
   size (fst (snd (sd_card_get_common_info (sim_hw card_v2) info_zero s_init))) =
     (csd_c_size (rep_bytes (sim_hw card_v2 (trace s_init) Op_get_csd)) + 1) * 512"
proof -
  have v: "version (sd_card_status s_init) = 0" by (simp add: s_init_def)
  have r: "rep_status (sim_hw card_v2 (trace s_init) Op_get_csd) = SD_OK"
    by (simp add: sim_hw_def SD_OK_def)
  from get_common_info_unset_version [OF v, of "sim_hw card_v2" info_zero] v r show ?thesis by simp
qed

subsection \<open>The status returned by reset\<close>

text \<open>
  Claim C2 says that \<^verbatim>\<open>sd_card_reset\<close> returns the bitwise OR of every status observed
  along the path. The error returns inside the steps (\<^verbatim>\<open>return SD_TIMEOUT\<close>,
  \<^verbatim>\<open>return SD_UNUSABLE_CARD\<close>, \<^verbatim>\<open>return SD_ERROR\<close>, \<^verbatim>\<open>return SD_TRANSMISSION_ERROR\<close>)
  return the code alone and drop what \<^verbatim>\<open>status\<close> had accumulated. Here the CMD58 exchange
  of the later-revision negotiation comes back with status 2 and an empty OCR; the voltage
  check fails, the negotiation returns unusable-card (8), and reset returns 8: the observed
  status 2 is not in the result.
\<close>

theorem reset_status_loses_bits_counterexample:
  "map_option fst (sd_card_reset 1 example_codes (sim_hw card_ocr_timeout) False s_init) = Some 8 \<and>
   map_option (seen \<circ> trace \<circ> snd)
     (sd_card_reset 1 example_codes (sim_hw card_ocr_timeout) False s_init) = Some 2 \<and>
   (8 :: sd_error) OR 2 \<noteq> 8"
  by code_simp

text \<open>
  The loss does not hang on the numbers chosen for the codes. Whatever the four codes and
  the flag \<^verbatim>\<open>crc_enable\<close>, when the CMD58 exchange of an otherwise healthy later-revision
  card comes back with a status \<open>e\<close> and no bytes, reset returns \<^verbatim>\<open>SD_UNUSABLE_CARD\<close>
  alone, while the statuses the hardware returned during the run add up to \<open>e\<close>.
\<close>

lemma sim_hw_simps:
  "sim_hw sc h (Op_SEND_CMD cmd) =
     (if cmd_index cmd = 8
             then \<lparr>rep_status = 0, rep_bytes = sim_if_cond sc, rep_tick = 0\<rparr>
           else if cmd_index cmd = 58
             then \<lparr>rep_status = sim_ocr_status sc, rep_bytes = sim_ocr sc, rep_tick = 0\<rparr>
           else if cmd_index cmd = 41
             then \<lparr>rep_status = 0, rep_bytes = [sim_acmd41 sc], rep_tick = 0\<rparr>
           else \<lparr>rep_status = 0, rep_bytes = [0x01], rep_tick = 0\<rparr>)"
  "sim_hw sc h Op_receive_byte = \<lparr>rep_status = 0, rep_bytes = [sim_rx sc], rep_tick = 0\<rparr>"
  "sim_hw sc h Op_GetTick =
     \<lparr>rep_status = 0, rep_bytes = [], rep_tick = of_nat (length h) * sim_tick_step sc\<rparr>"
  "sim_hw sc h Op_DISELECT_SD = \<lparr>rep_status = 0, rep_bytes = [], rep_tick = 0\<rparr>"
  "sim_hw sc h Op_SELECT_SD = \<lparr>rep_status = 0, rep_bytes = [], rep_tick = 0\<rparr>"
  "sim_hw sc h (Op_SPI_Transmit bs) = \<lparr>rep_status = 0, rep_bytes = [], rep_tick = 0\<rparr>"
  "sim_hw sc h (Op_SPI_Transmit_cmd cmd) = \<lparr>rep_status = 0, rep_bytes = [], rep_tick = 0\<rparr>"
  by (simp_all add: sim_hw_def)

lemma power_on_clocks_sim_hw:
  "power_on_clocks (sim_hw sc) n st s =
     (st, s\<lparr>trace :=
              replicate n (Op_SPI_Transmit [0xff], \<lparr>rep_status = 0, rep_bytes = [], rep_tick = 0\<rparr>)
              @ trace s\<rparr>)"
proof (induction n arbitrary: st s)
  case 0
  then show ?case by simp
next
  case (Suc n)
  then show ?case
    by (simp add: io_eq sim_hw_simps replicate_app_Cons_same)
qed

lemma seen_replicate_ok:
  "seen (replicate n (op, \<lparr>rep_status = 0, rep_bytes = bs, rep_tick = t\<rparr>) @ tr) = seen tr"
  by (induction n) (simp_all add: event_status_def)

lemma reset_drops_status_for_any_codes:
  "map_option fst
     (sd_card_reset (Suc n) c
        (sim_hw (card_v2\<lparr>sim_ocr_status := e, sim_ocr := [], sim_tick_step := 0\<rparr>)) crc s_init) =
     Some (SD_UNUSABLE_CARD c) \<and>
   map_option (seen \<circ> trace \<circ> snd)
     (sd_card_reset (Suc n) c
        (sim_hw (card_v2\<lparr>sim_ocr_status := e, sim_ocr := [], sim_tick_step := 0\<rparr>)) crc s_init) =
     Some e"
  by (simp add: sd_card_reset_def sd_card_enter_spi_mode_def sd_card_power_on_def
        sd_card_crc_on_off_def sd_card_v2_init_process_def SEND_CMD_def io_def Let_def
        sim_hw_simps power_on_clocks_sim_hw seen_replicate_ok
        card_v2_def s_init_def sd_card_get_cmd_def SD_OK_def
        byte_at_def R1_IN_IDLE_STATE_def R1_ILLEGAL_COMMAND_def
        high_order_part_def echo_back_of_check_pattern_def GET_VOLTAGE_FROM_R7_def r1_of_def
        voltage_window_ok_def ocr_register_content_def end_of_initialization_def
        event_status_def)

text \<open>
  Claim C2 as amended. \<^verbatim>\<open>sd_card_reset\<close> stops at the first of mode entry and the
  interface-condition exchange whose status is not OK, and returns that status. Otherwise
  it returns the OR of the value of the CRC command with the value of the negotiation that
  ran or, when check pattern or voltage do not match, with the unusable-card code; the
  steps before were OK, so this is the OR of the values of all the steps that ran.

  The value of a step is the OR of the statuses the hardware returned during the step
  when the step runs to its normal end, and the code of the error return alone, in place
  of the statuses accumulated until then, when the step leaves through one of its error
  returns. Mode entry with the latch set makes no call and returns OK; with the latch
  clear it returns \<^verbatim>\<open>SD_TIMEOUT\<close> when it ends with a tick read and the OR of its statuses
  otherwise. The CRC command returns \<^verbatim>\<open>SD_TRANSMISSION_ERROR\<close> when the answer is not
  in-idle-state and the status of its one exchange otherwise. A negotiation returns the OR
  of its statuses when it ends on a ready answer; otherwise the earlier-revision variant
  returns \<^verbatim>\<open>SD_UNUSABLE_CARD\<close> after an illegal-command answer, \<^verbatim>\<open>SD_TIMEOUT\<close> after a
  tick read and \<^verbatim>\<open>SD_ERROR\<close> after the voltage check, and the later-revision variant
  returns \<^verbatim>\<open>SD_TIMEOUT\<close> after a tick read and \<^verbatim>\<open>SD_UNUSABLE_CARD\<close> after the voltage
  check.

  So single error bits can be missing from the result, but an error is never lost
  altogether: provided the four error codes are non-zero, the result is OK only if every
  status the hardware returned during the call was OK. The code after the label
  \<^verbatim>\<open>end_of_initialization\<close> returns the status it is given unchanged and sets the failure
  flag of the session exactly when that status is not OK.
\<close>

theorem reset_status_is_or_of_step_values:
  "(sd_card_enter_spi_mode f c hw s = Some (e0, s1) \<and> e0 \<noteq> SD_OK \<longrightarrow>
      sd_card_reset f c hw crc_enable s = Some (end_of_initialization e0 s1)) \<and>
   (sd_card_enter_spi_mode f c hw s = Some (SD_OK, s1) \<and>
    SEND_CMD hw (sd_card_get_cmd 8 0x155) SD_OK s1 = (resp, e1, s2) \<and> e1 \<noteq> SD_OK \<longrightarrow>
      sd_card_reset f c hw crc_enable s = Some (end_of_initialization e1 s2)) \<and>
   (sd_card_enter_spi_mode f c hw s = Some (SD_OK, s1) \<and>
    SEND_CMD hw (sd_card_get_cmd 8 0x155) SD_OK s1 = (resp, SD_OK, s2) \<and>
    sd_card_crc_on_off c hw crc_enable s2 = (e2, s3) \<longrightarrow>
      sd_card_reset f c hw crc_enable s =
        (if high_order_part resp AND R1_ILLEGAL_COMMAND \<noteq> 0
         then map_option (\<lambda>(e3, s4). end_of_initialization (e2 OR e3) s4)
                (sd_card_v1_init_process f c hw s3)
         else if echo_back_of_check_pattern resp = 0x55 \<and> GET_VOLTAGE_FROM_R7 resp = 0x1
         then map_option (\<lambda>(e3, s4). end_of_initialization (e2 OR e3) s4)
                (sd_card_v2_init_process f c hw s3)
         else Some (end_of_initialization (e2 OR SD_UNUSABLE_CARD c) s3))) \<and>
   (sd_card_enter_spi_mode f c hw s = Some (e, s') \<longrightarrow>
      (if sd_card_is_spi_mode s then e = SD_OK \<and> s' = s
       else (case last_tick s' of
               Some t \<Rightarrow> e = SD_TIMEOUT c
             | None \<Rightarrow> e = seen (events_since s s')))) \<and>
   (sd_card_crc_on_off c hw crc_enable s = (e, s') \<longrightarrow>
      e = (if polled_r1 (hd (trace s')) \<noteq> R1_IN_IDLE_STATE then SD_TRANSMISSION_ERROR c
           else seen (events_since s s'))) \<and>
   (sd_card_v1_init_process f c hw s = Some (e, s') \<longrightarrow>
      e = (if acmd41_ready_last s' then seen (events_since s s')
           else if acmd41_illegal_last s' then SD_UNUSABLE_CARD c
           else if last_tick s' \<noteq> None then SD_TIMEOUT c
           else SD_ERROR c)) \<and>
   (sd_card_v2_init_process f c hw s = Some (e, s') \<longrightarrow>
      e = (if acmd41_ready_last s' then seen (events_since s s')
           else if last_tick s' \<noteq> None then SD_TIMEOUT c
           else SD_UNUSABLE_CARD c)) \<and>
   (sd_card_reset f c hw crc_enable s = Some (e, s') \<longrightarrow>
      error_in_initialization (sd_card_status s') = (e \<noteq> SD_OK) \<and>
      (SD_ERROR c \<noteq> 0 \<and> SD_TIMEOUT c \<noteq> 0 \<and> SD_TRANSMISSION_ERROR c \<noteq> 0 \<and>
       SD_UNUSABLE_CARD c \<noteq> 0 \<and> e = SD_OK \<longrightarrow> seen (events_since s s') = SD_OK)) \<and>
   end_of_initialization e s =
     (e, s\<lparr>sd_card_status := (sd_card_status s)\<lparr>error_in_initialization := (e \<noteq> SD_OK)\<rparr>\<rparr>)"
proof (intro conjI impI)
  assume h: "sd_card_enter_spi_mode f c hw s = Some (e0, s1) \<and> e0 \<noteq> SD_OK"
  from h[THEN conjunct1] h[THEN conjunct2]
  show "sd_card_reset f c hw crc_enable s = Some (end_of_initialization e0 s1)"
    by (rule sd_card_reset_stops(1))
next
  assume h: "sd_card_enter_spi_mode f c hw s = Some (SD_OK, s1) \<and>
    SEND_CMD hw (sd_card_get_cmd 8 0x155) SD_OK s1 = (resp, e1, s2) \<and> e1 \<noteq> SD_OK"
  from h[THEN conjunct1] h[THEN conjunct2, THEN conjunct1] h[THEN conjunct2, THEN conjunct2]
  show "sd_card_reset f c hw crc_enable s = Some (end_of_initialization e1 s2)"
    by (rule sd_card_reset_stops(2))
next
  assume h: "sd_card_enter_spi_mode f c hw s = Some (SD_OK, s1) \<and>
    SEND_CMD hw (sd_card_get_cmd 8 0x155) SD_OK s1 = (resp, SD_OK, s2) \<and>
    sd_card_crc_on_off c hw crc_enable s2 = (e2, s3)"
  from h[THEN conjunct1] h[THEN conjunct2, THEN conjunct1] h[THEN conjunct2, THEN conjunct2]
  show "sd_card_reset f c hw crc_enable s =
        (if high_order_part resp AND R1_ILLEGAL_COMMAND \<noteq> 0
         then map_option (\<lambda>(e3, s4). end_of_initialization (e2 OR e3) s4)
                (sd_card_v1_init_process f c hw s3)
         else if echo_back_of_check_pattern resp = 0x55 \<and> GET_VOLTAGE_FROM_R7 resp = 0x1
         then map_option (\<lambda>(e3, s4). end_of_initialization (e2 OR e3) s4)
                (sd_card_v2_init_process f c hw s3)
         else Some (end_of_initialization (e2 OR SD_UNUSABLE_CARD c) s3))"
    by (rule sd_card_reset_steps)
next
  assume "sd_card_enter_spi_mode f c hw s = Some (e, s')"
  then show "if sd_card_is_spi_mode s then e = SD_OK \<and> s' = s
       else (case last_tick s' of
               Some t \<Rightarrow> e = SD_TIMEOUT c
             | None \<Rightarrow> e = seen (events_since s s'))"
    by (rule sd_card_enter_spi_mode_value)
next
  assume "sd_card_crc_on_off c hw crc_enable s = (e, s')"
  then show "e = (if polled_r1 (hd (trace s')) \<noteq> R1_IN_IDLE_STATE then SD_TRANSMISSION_ERROR c
           else seen (events_since s s'))"
    by (rule sd_card_crc_on_off_value)
next
  assume "sd_card_v1_init_process f c hw s = Some (e, s')"
  then show "e = (if acmd41_ready_last s' then seen (events_since s s')
           else if acmd41_illegal_last s' then SD_UNUSABLE_CARD c
           else if last_tick s' \<noteq> None then SD_TIMEOUT c
           else SD_ERROR c)"
    by (rule sd_card_v1_init_process_value)
next
  assume "sd_card_v2_init_process f c hw s = Some (e, s')"
  then show "e = (if acmd41_ready_last s' then seen (events_since s s')
           else if last_tick s' \<noteq> None then SD_TIMEOUT c
           else SD_UNUSABLE_CARD c)"
    by (rule sd_card_v2_init_process_value)
next
  assume "sd_card_reset f c hw crc_enable s = Some (e, s')"
  then show "error_in_initialization (sd_card_status s') = (e \<noteq> SD_OK)"
    by (rule sd_card_reset_flag)
next
  assume a: "sd_card_reset f c hw crc_enable s = Some (e, s')"
     and b: "SD_ERROR c \<noteq> 0 \<and> SD_TIMEOUT c \<noteq> 0 \<and> SD_TRANSMISSION_ERROR c \<noteq> 0 \<and>
       SD_UNUSABLE_CARD c \<noteq> 0 \<and> e = SD_OK"
  from b have tz: "SD_ERROR c \<noteq> 0" "SD_TIMEOUT c \<noteq> 0" "SD_TRANSMISSION_ERROR c \<noteq> 0"
    "SD_UNUSABLE_CARD c \<noteq> 0" and e: "e = SD_OK" by simp_all
  from sd_card_reset_ok_seen[OF a tz] e show "seen (events_since s s') = SD_OK" by simp
next
  show "end_of_initialization e s =
     (e, s\<lparr>sd_card_status := (sd_card_status s)\<lparr>error_in_initialization := (e \<noteq> SD_OK)\<rparr>\<rparr>)"
    by (simp add: end_of_initialization_def SD_OK_def)
qed

text \<open>
  Runs of reset: mode entry times out (result 2); the interface-condition exchange comes
  back with status 4 (result 4); the check pattern is echoed wrong (result 8, the
  unusable-card code, while every status the hardware returned was OK); a healthy card
  (result OK, failure flag clear). And the value of each step on a run: mode entry, the
  CRC command and the earlier-revision negotiation running to their normal end, and the
  later-revision negotiation leaving after the voltage check.
\<close>

theorem reset_status_is_or_of_step_values_witness:
  "map_option fst (sd_card_enter_spi_mode 3 example_codes
      (sim_hw (card_v2\<lparr>sim_rx := 0xff, sim_tick_step := 100\<rparr>)) s_init) = Some 2 \<and>
   map_option fst (sd_card_reset 3 example_codes
      (sim_hw (card_v2\<lparr>sim_rx := 0xff, sim_tick_step := 100\<rparr>)) False s_init) = Some 2 \<and>
   map_option fst (sd_card_enter_spi_mode 1 example_codes hw_if_cond_fails s_init) =
     Some SD_OK \<and>
   map_option fst (sd_card_reset 1 example_codes hw_if_cond_fails False s_init) = Some 4 \<and>
   map_option fst (sd_card_reset 1 example_codes
      (sim_hw (card_v2\<lparr>sim_if_cond := [0x01, 0x00, 0x00, 0x01, 0xaa]\<rparr>)) False s_init) =
     Some 8 \<and>
   map_option (seen \<circ> trace \<circ> snd) (sd_card_reset 1 example_codes
      (sim_hw (card_v2\<lparr>sim_if_cond := [0x01, 0x00, 0x00, 0x01, 0xaa]\<rparr>)) False s_init) =
     Some 0 \<and>
   \<not> sd_card_is_spi_mode s_init \<and>
   last_tick (snd (the (sd_card_enter_spi_mode 1 example_codes (sim_hw card_v2) s_init))) =
     None \<and>
   fst (the (sd_card_enter_spi_mode 1 example_codes (sim_hw card_v2) s_init)) =
     seen (events_since s_init
       (snd (the (sd_card_enter_spi_mode 1 example_codes (sim_hw card_v2) s_init)))) \<and>
   polled_r1 (hd (trace (snd (sd_card_crc_on_off example_codes (sim_hw card_v2) False s_init)))) =
     R1_IN_IDLE_STATE \<and>
   fst (sd_card_crc_on_off example_codes (sim_hw card_v2) False s_init) =
     seen (events_since s_init
       (snd (sd_card_crc_on_off example_codes (sim_hw card_v2) False s_init))) \<and>
   acmd41_ready_last (snd (the (sd_card_v1_init_process 1 example_codes (sim_hw card_v1) s_init))) \<and>
   fst (the (sd_card_v1_init_process 1 example_codes (sim_hw card_v1) s_init)) =
     seen (events_since s_init
       (snd (the (sd_card_v1_init_process 1 example_codes (sim_hw card_v1) s_init)))) \<and>
   \<not> acmd41_ready_last
       (snd (the (sd_card_v2_init_process 1 example_codes (sim_hw card_ocr_timeout) s_init))) \<and>
   last_tick (snd (the (sd_card_v2_init_process 1 example_codes (sim_hw card_ocr_timeout) s_init))) =
     None \<and>
   fst (the (sd_card_v2_init_process 1 example_codes (sim_hw card_ocr_timeout) s_init)) =
     SD_UNUSABLE_CARD example_codes \<and>
   fst (the (sd_card_reset 1 example_codes (sim_hw card_v2) False s_init)) = SD_OK \<and>
   seen (events_since s_init
     (snd (the (sd_card_reset 1 example_codes (sim_hw card_v2) False s_init)))) = SD_OK \<and>
   \<not> error_in_initialization (sd_card_status
     (snd (the (sd_card_reset 1 example_codes (sim_hw card_v2) False s_init))))"
proof -
  note w = reset_status_is_or_of_step_values
  let ?c = example_codes
  let ?hwT = "sim_hw (card_v2\<lparr>sim_rx := 0xff, sim_tick_step := 100\<rparr>)"
  let ?hwB = "sim_hw (card_v2\<lparr>sim_if_cond := [0x01, 0x00, 0x00, 0x01, 0xaa]\<rparr>)"
  let ?hw = "sim_hw card_v2"
  let ?enT = "sd_card_enter_spi_mode 3 ?c ?hwT s_init"
  have t1: "map_option fst ?enT = Some 2" by code_simp
  then obtain sT where t2: "?enT = Some (2, sT)" by (cases ?enT) auto
  from w [where f = 3 and c = ?c and hw = ?hwT and s = s_init and ?e0.0 = 2 and ?s1.0 = sT
            and crc_enable = False, THEN conjunct1] t2
  have t3: "map_option fst (sd_card_reset 3 ?c ?hwT False s_init) = Some 2"
    by (simp add: SD_OK_def end_of_initialization_def)
  let ?enF = "sd_card_enter_spi_mode 1 ?c hw_if_cond_fails s_init"
  have f1: "map_option fst ?enF = Some SD_OK" by code_simp
  then obtain sF where f2: "?enF = Some (SD_OK, sF)" by (cases ?enF) auto
  obtain respF eF sF' where
    f3: "SEND_CMD hw_if_cond_fails (sd_card_get_cmd 8 0x155) SD_OK sF = (respF, eF, sF')"
    by (cases "SEND_CMD hw_if_cond_fails (sd_card_get_cmd 8 0x155) SD_OK sF") auto
  then have f4: "eF = 4"
    by (simp add: SEND_CMD_eq hw_if_cond_fails_def SD_OK_def)
  from w [where f = 1 and c = ?c and hw = hw_if_cond_fails and s = s_init and ?s1.0 = sF
            and resp = respF and ?e1.0 = eF and ?s2.0 = sF' and crc_enable = False,
          THEN conjunct2, THEN conjunct1] f2 f3 f4
  have f5: "map_option fst (sd_card_reset 1 ?c hw_if_cond_fails False s_init) = Some 4"
    by (simp add: SD_OK_def end_of_initialization_def)
  let ?enB = "sd_card_enter_spi_mode 1 ?c ?hwB s_init"
  have b1: "map_option fst ?enB = Some SD_OK" by code_simp
  then obtain sB where b2: "?enB = Some (SD_OK, sB)" by (cases ?enB) auto
  obtain respB eB sB' where
    b3: "SEND_CMD ?hwB (sd_card_get_cmd 8 0x155) SD_OK sB = (respB, eB, sB')"
    by (cases "SEND_CMD ?hwB (sd_card_get_cmd 8 0x155) SD_OK sB") auto
  then have b4: "eB = SD_OK" "respB = [0x01, 0x00, 0x00, 0x01, 0xaa]"
    by (simp_all add: SEND_CMD_eq sim_hw_def sd_card_get_cmd_def SD_OK_def card_v2_def)
  obtain e2B s3B where b5: "sd_card_crc_on_off ?c ?hwB False sB' = (e2B, s3B)"
    by (cases "sd_card_crc_on_off ?c ?hwB False sB'") auto
  then have b6: "e2B = SD_OK"
    by (auto simp: sd_card_crc_on_off_def SEND_CMD_eq sim_hw_def sd_card_get_cmd_def SD_OK_def
          r1_of_def byte_at_def R1_IN_IDLE_STATE_def Let_def split: if_splits)
  from w [where f = 1 and c = ?c and hw = ?hwB and s = s_init and ?s1.0 = sB
            and resp = respB and ?s2.0 = sB' and crc_enable = False and ?e2.0 = e2B
            and ?s3.0 = s3B, THEN conjunct2, THEN conjunct2, THEN conjunct1] b2 b3 b4 b5 b6
  have b7: "map_option fst (sd_card_reset 1 ?c ?hwB False s_init) = Some 8"
    by (simp add: SD_OK_def end_of_initialization_def high_order_part_def byte_at_def
          R1_ILLEGAL_COMMAND_def echo_back_of_check_pattern_def example_codes_def)
  have b8: "map_option (seen \<circ> trace \<circ> snd) (sd_card_reset 1 ?c ?hwB False s_init) = Some 0"
    by code_simp
  have n: "\<not> sd_card_is_spi_mode s_init" by (simp add: s_init_def)
  let ?en = "sd_card_enter_spi_mode 1 ?c ?hw s_init"
  have e1: "?en \<noteq> None" by code_simp
  then obtain e s1 where e2: "?en = Some (e, s1)" by (cases ?en) auto
  have e3: "last_tick (snd (the ?en)) = None" by code_simp
  from w [where f = 1 and c = ?c and hw = ?hw and s = s_init and e = e and s' = s1,
          THEN conjunct2, THEN conjunct2, THEN conjunct2, THEN conjunct1] e2 e3 n
  have e4: "fst (the ?en) = seen (events_since s_init (snd (the ?en)))"
    by simp
  let ?crc = "sd_card_crc_on_off ?c ?hw False s_init"
  obtain ec sc where c1: "?crc = (ec, sc)" by (cases ?crc) auto
  have c2: "polled_r1 (hd (trace (snd ?crc))) = R1_IN_IDLE_STATE"
    by code_simp
  from w [where c = ?c and hw = ?hw and s = s_init and crc_enable = False and e = ec
            and s' = sc,
          THEN conjunct2, THEN conjunct2, THEN conjunct2, THEN conjunct2, THEN conjunct1] c1 c2
  have c3: "fst ?crc = seen (events_since s_init (snd ?crc))"
    by simp
  let ?v1 = "sd_card_v1_init_process 1 ?c (sim_hw card_v1) s_init"
  have v1: "?v1 \<noteq> None" by code_simp
  then obtain ev1 sv1 where v2: "?v1 = Some (ev1, sv1)" by (cases ?v1) auto
  have v3: "acmd41_ready_last (snd (the ?v1))" by code_simp
  from w [where f = 1 and c = ?c and hw = "sim_hw card_v1" and s = s_init and e = ev1
            and s' = sv1,
          THEN conjunct2, THEN conjunct2, THEN conjunct2, THEN conjunct2, THEN conjunct2,
          THEN conjunct1] v2 v3
  have v4: "fst (the ?v1) = seen (events_since s_init (snd (the ?v1)))"
    by simp
  let ?v2 = "sd_card_v2_init_process 1 ?c (sim_hw card_ocr_timeout) s_init"
  have u1: "?v2 \<noteq> None" by code_simp
  then obtain ev2 sv2 where u2: "?v2 = Some (ev2, sv2)" by (cases ?v2) auto
  have u3: "\<not> acmd41_ready_last (snd (the ?v2))" by code_simp
  have u4: "last_tick (snd (the ?v2)) = None" by code_simp
  from w [where f = 1 and c = ?c and hw = "sim_hw card_ocr_timeout" and s = s_init and e = ev2
            and s' = sv2,
          THEN conjunct2, THEN conjunct2, THEN conjunct2, THEN conjunct2, THEN conjunct2,
          THEN conjunct2, THEN conjunct1] u2 u3 u4
  have u5: "fst (the ?v2) = SD_UNUSABLE_CARD ?c"
    by simp
  let ?r = "sd_card_reset 1 ?c ?hw False s_init"
  have r1: "?r \<noteq> None" by code_simp
  have r2: "fst (the ?r) = SD_OK" by code_simp
  from r1 obtain er sr where r3: "?r = Some (er, sr)" by (cases ?r) auto
  from w [where f = 1 and c = ?c and hw = ?hw and s = s_init and crc_enable = False
            and e = er and s' = sr,
          THEN conjunct2, THEN conjunct2, THEN conjunct2, THEN conjunct2, THEN conjunct2,
          THEN conjunct2, THEN conjunct2, THEN conjunct1] r1 r2 r3
  have r4: "seen (events_since s_init (snd (the ?r))) = SD_OK"
           "\<not> error_in_initialization (sd_card_status (snd (the ?r)))"
    by (simp_all add: example_codes_def)
  from t1 t3 f1 f5 b7 b8 n e3 e4 c2 c3 v3 v4 u3 u4 u5 r2 r4 show ?thesis
    by (simp only: simp_thms)
qed

subsection \<open>Capacity class on the later-revision path\<close>

text \<open>
  Claim C3: after successful polling on the later-revision path, OCR byte 0 equal to 0x40
  (the CCS bit) gives capacity class high-or-extended and OCR byte 0 equal to 0x00 gives
  standard. The code comments the test as \<^verbatim>\<open>Check CCS\<close> but masks byte 0 with 0x2. The
  run below has a card that is ready at the first ACMD41: with OCR byte 0 equal to 0x40
  the code records \<^verbatim>\<open>STANDART\<close>; it records \<^verbatim>\<open>HIGH_OR_EXTENDED\<close> for 0x02, and
  \<^verbatim>\<open>STANDART\<close> for 0x00.
\<close>

theorem v2_capacity_bit_evaluated:
  "ocr_register_content (sim_ocr card_v2) 0 = 0x40 \<and>
   map_option fst (sd_card_v2_init_process 1 example_codes (sim_hw card_v2) s_init) = Some SD_OK \<and>
   map_option (capacity \<circ> sd_card_status \<circ> snd)
     (sd_card_v2_init_process 1 example_codes (sim_hw card_v2) s_init) = Some STANDART \<and>
   map_option (capacity \<circ> sd_card_status \<circ> snd)
     (sd_card_v2_init_process 1 example_codes
        (sim_hw (card_v2\<lparr>sim_ocr := [0x00, 0x02, 0xff, 0x80, 0x00]\<rparr>)) s_init) =
     Some HIGH_OR_EXTENDED \<and>
   map_option (capacity \<circ> sd_card_status \<circ> snd)
     (sd_card_v2_init_process 1 example_codes
        (sim_hw (card_v2\<lparr>sim_ocr := [0x00, 0x00, 0xff, 0x80, 0x00]\<rparr>)) s_init) =
     Some STANDART"
  by code_simp

subsection \<open>Where reset issues the CRC command\<close>

text \<open>
  Claim C4 says that with the illegal-command flag set in the interface-condition response
  the CRC on/off command is never issued, and that it is issued only on the other branch,
  after the check pattern and voltage have been validated. In the code the call of
  \<^verbatim>\<open>sd_card_crc_on_off\<close> stands before the branch. An earlier-revision card (CMD8 answered
  with 0x05) is reset successfully and the trace of the run holds the CMD59 exchange.
\<close>

theorem reset_crc_on_v1_path_counterexample:
  "high_order_part (sim_if_cond card_v1) AND R1_ILLEGAL_COMMAND \<noteq> 0 \<and>
   map_option fst (sd_card_reset 1 example_codes (sim_hw card_v1) False s_init) = Some SD_OK \<and>
   Op_SEND_CMD (sd_card_get_cmd 59 0) \<in>
     set (map fst (trace (snd (the (sd_card_reset 1 example_codes (sim_hw card_v1) False s_init)))))"
  by code_simp

text \<open>
  Claim C4 as amended. Once mode entry and the interface-condition exchange have returned
  OK, reset issues the CRC on/off command (CMD59 with argument 1 or 0) as its next hardware
  call, on every branch and before the check pattern and voltage are looked at. Then,
  with the illegal-command flag set, it runs the earlier-revision negotiation from the
  state the CRC command left and nothing else: the check pattern, the voltage field and
  the later-revision negotiation take no part in the result. With the flag clear it
  validates check pattern and voltage and runs the later-revision negotiation, or reports
  unusable-card.
\<close>

theorem reset_branches_after_crc:
  assumes en: "sd_card_enter_spi_mode f c hw s = Some (SD_OK, s1)"
      and ic: "SEND_CMD hw (sd_card_get_cmd 8 0x155) SD_OK s1 = (resp, SD_OK, s2)"
      and crc: "sd_card_crc_on_off c hw crc_enable s2 = (e, s3)"
  shows "sd_card_reset f c hw crc_enable s =
           (if high_order_part resp AND R1_ILLEGAL_COMMAND \<noteq> 0
            then map_option (\<lambda>(e1, s4). end_of_initialization (e OR e1) s4)
                   (sd_card_v1_init_process f c hw s3)
            else if echo_back_of_check_pattern resp = 0x55 \<and> GET_VOLTAGE_FROM_R7 resp = 0x1
            then map_option (\<lambda>(e2, s4). end_of_initialization (e OR e2) s4)
                   (sd_card_v2_init_process f c hw s3)
            else Some (end_of_initialization (e OR SD_UNUSABLE_CARD c) s3)) \<and>
         trace s3 =
           (Op_SEND_CMD (sd_card_get_cmd 59 (if crc_enable then 1 else 0)),
            hw (trace s2) (Op_SEND_CMD (sd_card_get_cmd 59 (if crc_enable then 1 else 0)))) # trace s2"
proof -
  have t: "trace s3 =
           (Op_SEND_CMD (sd_card_get_cmd 59 (if crc_enable then 1 else 0)),
            hw (trace s2) (Op_SEND_CMD (sd_card_get_cmd 59 (if crc_enable then 1 else 0)))) # trace s2"
    using crc by (auto simp: sd_card_crc_on_off_def SEND_CMD_eq Let_def split: if_splits)
  have "(push_bit 8 1 OR 0x55 :: u32) = 0x155" by simp
  with en ic crc have "sd_card_reset f c hw crc_enable s =
           (if high_order_part resp AND R1_ILLEGAL_COMMAND \<noteq> 0
            then map_option (\<lambda>(e1, s4). end_of_initialization (e OR e1) s4)
                   (sd_card_v1_init_process f c hw s3)
            else if echo_back_of_check_pattern resp = 0x55 \<and> GET_VOLTAGE_FROM_R7 resp = 0x1
            then map_option (\<lambda>(e2, s4). end_of_initialization (e OR e2) s4)
                   (sd_card_v2_init_process f c hw s3)
            else Some (end_of_initialization (e OR SD_UNUSABLE_CARD c) s3))"
    by (auto simp: sd_card_reset_def SD_OK_def Let_def split: option.splits)
  with t show ?thesis by simp
qed

theorem reset_branches_after_crc_witness:
  "sd_card_enter_spi_mode 1 example_codes (sim_hw card_v1) s_init \<noteq> None \<and>
   high_order_part (sim_if_cond card_v1) AND R1_ILLEGAL_COMMAND \<noteq> 0 \<and>
   sd_card_reset 1 example_codes (sim_hw card_v1) True s_init =
     map_option (\<lambda>(e1, s4). end_of_initialization (SD_OK OR e1) s4)
       (sd_card_v1_init_process 1 example_codes (sim_hw card_v1)
          (snd (sd_card_crc_on_off example_codes (sim_hw card_v1) True
             (snd (snd (SEND_CMD (sim_hw card_v1) (sd_card_get_cmd 8 0x155) SD_OK
                (snd (the (sd_card_enter_spi_mode 1 example_codes (sim_hw card_v1) s_init)))))))))"
proof -
  let ?hw = "sim_hw card_v1"
  let ?en = "sd_card_enter_spi_mode 1 example_codes ?hw s_init"
  have a: "?en \<noteq> None" by code_simp
  then obtain e0 s1 where en: "?en = Some (e0, s1)" by (cases ?en) auto
  have "fst (the ?en) = SD_OK" by code_simp
  with en have e0: "e0 = SD_OK" by simp
  obtain resp e1 s2 where
    ic: "SEND_CMD ?hw (sd_card_get_cmd 8 0x155) SD_OK s1 = (resp, e1, s2)"
    by (cases "SEND_CMD ?hw (sd_card_get_cmd 8 0x155) SD_OK s1") auto
  then have r: "e1 = SD_OK" "resp = sim_if_cond card_v1"
    by (simp_all add: SEND_CMD_eq sim_hw_def sd_card_get_cmd_def SD_OK_def)
  obtain e2 s3 where crc: "sd_card_crc_on_off example_codes ?hw True s2 = (e2, s3)"
    by (cases "sd_card_crc_on_off example_codes ?hw True s2") auto
  then have e2: "e2 = SD_OK"
    by (auto simp: sd_card_crc_on_off_def SEND_CMD_eq sim_hw_def sd_card_get_cmd_def SD_OK_def
          r1_of_def byte_at_def R1_IN_IDLE_STATE_def Let_def split: if_splits)
  have h: "high_order_part (sim_if_cond card_v1) AND R1_ILLEGAL_COMMAND \<noteq> 0" by code_simp
  from reset_branches_after_crc [OF en [unfolded e0] ic [unfolded r] crc [unfolded e2]] a h en ic crc
  show ?thesis by simp
qed

subsection \<open>Size decoding\<close>

text \<open>
  Claim C5: for version 1 the size is (device_size + 1) * 2 ^ (size_mult + 2) * block size
  with device_size the 12-bit field over CSD bytes 6 to 8. The code assembles device_size
  from the low two bits of byte 6, byte 7 and the high two bits of byte 8, but shifts the
  bits of byte 6 by 11 instead of 10. With all twelve bits of the field set the field is
  4095 and the size would be 4096 * 4 * 512 = 8388608; the code computes device_size 7167,
  which does not fit 12 bits, and size 14680064.
\<close>

theorem v1_device_size_evaluated:
  "version (sd_card_status s_v1) = 1 \<and>
   csd_byte csd_v1_example 6 AND 0x3 = 0x3 \<and> csd_byte csd_v1_example 7 = 0xff \<and>
   drop_bit 6 (csd_byte csd_v1_example 8) = 0x3 \<and>
   csd_device_size csd_v1_example = 7167 \<and>
   csd_size_mult csd_v1_example = 0 \<and>
   fst (sd_card_get_common_info (sim_hw (card_v2\<lparr>sim_csd := csd_v1_example\<rparr>)) info_zero s_v1) = SD_OK \<and>
   max_data_block_size (fst (snd (sd_card_get_common_info (sim_hw (card_v2\<lparr>sim_csd := csd_v1_example\<rparr>)) info_zero s_v1))) = 512 \<and>
   size (fst (snd (sd_card_get_common_info (sim_hw (card_v2\<lparr>sim_csd := csd_v1_example\<rparr>)) info_zero s_v1))) = 14680064 \<and>
   (4095 + 1) * 2 ^ (0 + 2) * 512 = (8388608 :: u32)"
  by code_simp

subsection \<open>The SPI mode latch\<close>

text \<open>
  Claim C6. With the latch set, \<^verbatim>\<open>sd_card_enter_spi_mode\<close> returns \<^verbatim>\<open>SD_OK\<close> and the
  state it was given, so it makes no hardware call, whatever the fuel and the hardware. A
  call that returns \<^verbatim>\<open>SD_OK\<close> leaves the latch set (the timeout code being different from
  OK), so every later call takes that short cut; a reset does not clear the latch.

  A call that finds the latch clear and sets it has run the whole entry sequence with
  every status OK: the hardware calls it made are exactly those of \<open>entry_sequence\<close>
  (power on, select, CMD0, a byte read, the tick read for \<^verbatim>\<open>tickstart\<close>, one or more
  polls, the closing deselect), every status the hardware returned in them was OK, the
  byte read by the last poll was in-idle-state, the result is \<^verbatim>\<open>SD_OK\<close>, and version,
  capacity and failure flag of the session are as they were.
\<close>

theorem enter_spi_mode_latch_after_whole_sequence:
  "(sd_card_is_spi_mode s \<longrightarrow> sd_card_enter_spi_mode f c hw s = Some (SD_OK, s)) \<and>
   (sd_card_enter_spi_mode f c hw s = Some (SD_OK, s') \<and> SD_TIMEOUT c \<noteq> SD_OK \<longrightarrow>
      sd_card_is_spi_mode s' \<and> sd_card_enter_spi_mode f' c hw' s' = Some (SD_OK, s')) \<and>
   (sd_card_enter_spi_mode f c hw s = Some (e, s') \<and> \<not> sd_card_is_spi_mode s \<and>
      sd_card_is_spi_mode s' \<longrightarrow>
      e = SD_OK \<and> seen (events_since s s') = SD_OK \<and>
      (\<exists>k. map fst (events_since s s') = entry_sequence k) \<and>
      polled_r1 (events_since s s' ! 2) = R1_IN_IDLE_STATE \<and>
      map fst (take 1 (trace s')) = [Op_DISELECT_SD] \<and>
      sd_card_status s' = sd_card_status s) \<and>
   (sd_card_is_spi_mode s \<and> sd_card_reset f c hw crc_enable s = Some (e, s') \<longrightarrow>
      sd_card_is_spi_mode s')"
proof (intro conjI impI)
  show "sd_card_is_spi_mode s \<Longrightarrow> sd_card_enter_spi_mode f c hw s = Some (SD_OK, s)"
    by (simp add: sd_card_enter_spi_mode_def)
next
  assume a: "sd_card_enter_spi_mode f c hw s = Some (SD_OK, s') \<and> SD_TIMEOUT c \<noteq> SD_OK"
  have l: "sd_card_is_spi_mode s'"
  proof (cases "sd_card_is_spi_mode s")
    case True
    with a show ?thesis by (simp add: sd_card_enter_spi_mode_def)
  next
    case False
    with a show ?thesis
      by (auto simp: sd_card_enter_spi_mode_def io_eq Let_def SD_OK_def
            split: prod.splits if_splits option.splits loop_exit.splits
            dest!: enter_spi_mode_poll_trace)
  qed
  then show "sd_card_is_spi_mode s'" .
  from l show "sd_card_enter_spi_mode f' c hw' s' = Some (SD_OK, s')"
    by (simp add: sd_card_enter_spi_mode_def)
next
  assume a: "sd_card_enter_spi_mode f c hw s = Some (e, s') \<and> \<not> sd_card_is_spi_mode s \<and>
      sd_card_is_spi_mode s'"
  note r = sd_card_enter_spi_mode_sets_latch
             [OF a[THEN conjunct1] a[THEN conjunct2, THEN conjunct1]
                 a[THEN conjunct2, THEN conjunct2]]
  from r show "e = SD_OK" by (rule conjunct1)
  from r[THEN conjunct2] show "seen (events_since s s') = SD_OK" by (rule conjunct1)
  from r[THEN conjunct2, THEN conjunct2]
  show k: "\<exists>k. map fst (events_since s s') = entry_sequence k" by (rule conjunct1)
  from r[THEN conjunct2, THEN conjunct2, THEN conjunct2]
  show "polled_r1 (events_since s s' ! 2) = R1_IN_IDLE_STATE" by (rule conjunct1)
  from r[THEN conjunct2, THEN conjunct2, THEN conjunct2]
  show "sd_card_status s' = sd_card_status s" by (rule conjunct2)
  from k obtain k where ks: "map fst (events_since s s') = entry_sequence k" by (rule exE)
  have "events_since s s' = take (length (trace s') - length (trace s)) (trace s')"
    by (simp add: events_since_def)
  with ks have "map fst (take (length (trace s') - length (trace s)) (trace s')) =
                  entry_sequence k" by simp
  then have "take 1 (map fst (take (length (trace s') - length (trace s)) (trace s'))) =
               take 1 (entry_sequence k)" by simp
  moreover have "0 < length (trace s') - length (trace s)"
  proof (rule ccontr)
    assume "\<not> 0 < length (trace s') - length (trace s)"
    then have "events_since s s' = []" by (simp add: events_since_def)
    with ks show False by (simp add: entry_sequence_def)
  qed
  ultimately show "map fst (take 1 (trace s')) = [Op_DISELECT_SD]"
    by (simp add: take_map entry_sequence_def min_def split: if_splits)
next
  assume "sd_card_is_spi_mode s \<and> sd_card_reset f c hw crc_enable s = Some (e, s')"
  then show "sd_card_is_spi_mode s'"
    using sd_card_reset_keeps_latch by blast
qed

text \<open>
  A healthy card is in idle state at the first poll: the latch is set after the sixteen
  calls before the poll, one poll and the deselect, and a second call, as well as a reset,
  leaves it set. With a card that never goes idle the call times out and the latch stays
  clear.
\<close>

theorem enter_spi_mode_latch_after_whole_sequence_witness:
  "\<not> sd_card_is_spi_mode s_init \<and>
   SD_TIMEOUT example_codes \<noteq> SD_OK \<and>
   map_option fst (sd_card_enter_spi_mode 1 example_codes (sim_hw card_v2) s_init) = Some SD_OK \<and>
   sd_card_is_spi_mode (snd (the (sd_card_enter_spi_mode 1 example_codes (sim_hw card_v2) s_init))) \<and>
   seen (events_since s_init
     (snd (the (sd_card_enter_spi_mode 1 example_codes (sim_hw card_v2) s_init)))) = SD_OK \<and>
   map fst (events_since s_init
     (snd (the (sd_card_enter_spi_mode 1 example_codes (sim_hw card_v2) s_init)))) =
     entry_sequence 0 \<and>
   polled_r1 (events_since s_init
     (snd (the (sd_card_enter_spi_mode 1 example_codes (sim_hw card_v2) s_init))) ! 2) =
     R1_IN_IDLE_STATE \<and>
   map fst (take 1 (trace (snd (the (sd_card_enter_spi_mode 1 example_codes (sim_hw card_v2) s_init))))) = [Op_DISELECT_SD] \<and>
   map_option fst (sd_card_enter_spi_mode 0 example_codes (sim_hw card_v1)
     (snd (the (sd_card_enter_spi_mode 1 example_codes (sim_hw card_v2) s_init)))) = Some SD_OK \<and>
   map_option (sd_card_is_spi_mode \<circ> snd) (sd_card_reset 1 example_codes (sim_hw card_v1) False
     (snd (the (sd_card_enter_spi_mode 1 example_codes (sim_hw card_v2) s_init)))) = Some True \<and>
   map_option fst (sd_card_enter_spi_mode 3 example_codes
      (sim_hw (card_v2\<lparr>sim_rx := 0xff, sim_tick_step := 100\<rparr>)) s_init) =
     Some (SD_TIMEOUT example_codes) \<and>
   \<not> sd_card_is_spi_mode (snd (the (sd_card_enter_spi_mode 3 example_codes
      (sim_hw (card_v2\<lparr>sim_rx := 0xff, sim_tick_step := 100\<rparr>)) s_init)))"
proof -
  note w = enter_spi_mode_latch_after_whole_sequence
  let ?en = "sd_card_enter_spi_mode 1 example_codes (sim_hw card_v2) s_init"
  have a: "?en \<noteq> None" by code_simp
  then obtain e s1 where en: "?en = Some (e, s1)" by (cases ?en) auto
  have "fst (the ?en) = SD_OK" by code_simp
  with en have e: "e = SD_OK" by simp
  have n: "\<not> sd_card_is_spi_mode s_init" by (simp add: s_init_def)
  have t: "SD_TIMEOUT example_codes \<noteq> SD_OK" by (simp add: example_codes_def SD_OK_def)
  have k: "map fst (events_since s_init (snd (the ?en))) = entry_sequence 0" by code_simp
  let ?rs = "sd_card_reset 1 example_codes (sim_hw card_v1) False s1"
  have "sd_card_reset 1 example_codes (sim_hw card_v1) False (snd (the ?en)) \<noteq> None"
    by code_simp
  with en obtain er sr where rs: "?rs = Some (er, sr)" by (cases ?rs) auto
  from w [where s = s_init and f = 1 and c = example_codes and hw = "sim_hw card_v2"
            and s' = s1 and f' = 0 and hw' = "sim_hw card_v1" and e = SD_OK,
          THEN conjunct2, THEN conjunct1] en e t
  have p2: "sd_card_is_spi_mode s1"
    "sd_card_enter_spi_mode 0 example_codes (sim_hw card_v1) s1 = Some (SD_OK, s1)"
    by simp_all
  from w [where s = s_init and f = 1 and c = example_codes and hw = "sim_hw card_v2"
            and s' = s1 and e = SD_OK,
          THEN conjunct2, THEN conjunct2, THEN conjunct1] en e n p2(1)
  have p3: "seen (events_since s_init s1) = SD_OK"
    "polled_r1 (events_since s_init s1 ! 2) = R1_IN_IDLE_STATE"
    "map fst (take 1 (trace s1)) = [Op_DISELECT_SD]"
    by simp_all
  from w [where s = s1 and f = 1 and c = example_codes and hw = "sim_hw card_v1"
            and crc_enable = False and s' = sr and e = er,
          THEN conjunct2, THEN conjunct2, THEN conjunct2] p2(1) rs
  have p4: "sd_card_is_spi_mode sr" by simp
  let ?to = "sd_card_enter_spi_mode 3 example_codes
      (sim_hw (card_v2\<lparr>sim_rx := 0xff, sim_tick_step := 100\<rparr>)) s_init"
  have q1: "map_option fst ?to = Some (SD_TIMEOUT example_codes)" by code_simp
  have q2: "\<not> sd_card_is_spi_mode (snd (the ?to))" by code_simp
  from en e n t k p2 p3 p4 rs q1 q2 show ?thesis by simp
qed

subsection \<open>Timeouts and deadlines\<close>

text \<open>
  Claim C9 says that mode entry returns a timeout status only once more than 500 ms have
  elapsed without the status byte equalling in-idle-state. The loop of
  \<^verbatim>\<open>sd_card_enter_spi_mode\<close> reads the byte, then tests the deadline and returns, and only
  the loop condition after that looks at the byte. With the hardware
  \<open>hw_idle_at_deadline\<close>, \<^verbatim>\<open>tickstart\<close> is 0, the first poll reads 0xff and then tick
  499, and the second poll reads in-idle-state and then tick 501: the call returns
  \<^verbatim>\<open>SD_TIMEOUT\<close> although the byte it has just read is in-idle-state. Every status the
  hardware returned in the twenty calls was OK.
\<close>

theorem mode_entry_timeout_with_idle_byte_counterexample:
  "map_option fst (sd_card_enter_spi_mode 2 example_codes hw_idle_at_deadline s_init) =
     Some (SD_TIMEOUT example_codes) \<and>
   map fst (take 5 (trace (snd (the
     (sd_card_enter_spi_mode 2 example_codes hw_idle_at_deadline s_init))))) =
     [Op_GetTick, Op_receive_byte, Op_GetTick, Op_receive_byte, Op_GetTick] \<and>
   rep_tick (snd (trace (snd (the
     (sd_card_enter_spi_mode 2 example_codes hw_idle_at_deadline s_init))) ! 4)) = 0 \<and>
   polled_r1 (trace (snd (the
     (sd_card_enter_spi_mode 2 example_codes hw_idle_at_deadline s_init))) ! 3) = 0xff \<and>
   rep_tick (snd (trace (snd (the
     (sd_card_enter_spi_mode 2 example_codes hw_idle_at_deadline s_init))) ! 2)) = 499 \<and>
   polled_r1 (trace (snd (the
     (sd_card_enter_spi_mode 2 example_codes hw_idle_at_deadline s_init))) ! 1) =
     R1_IN_IDLE_STATE \<and>
   rep_tick (snd (trace (snd (the
     (sd_card_enter_spi_mode 2 example_codes hw_idle_at_deadline s_init))) ! 0)) = 501 \<and>
   seen (trace (snd (the
     (sd_card_enter_spi_mode 2 example_codes hw_idle_at_deadline s_init)))) = SD_OK \<and>
   length (trace (snd (the
     (sd_card_enter_spi_mode 2 example_codes hw_idle_at_deadline s_init)))) = 20"
  by code_simp

text \<open>
  Claim C9 as amended. Elapsed time is what the code measures: the tick just read minus
  \<^verbatim>\<open>tickstart\<close>, in 32-bit arithmetic.

  A timeout is not reported before the deadline. Each polling loop has one
  \<^verbatim>\<open>return SD_TIMEOUT\<close>, and the loop takes it only when the tick read in that iteration
  is more than 500 (mode entry) or more than 1000 (both negotiation variants) past
  \<^verbatim>\<open>tickstart\<close>; that tick read is then the last hardware call. The earlier-revision
  loop has a second return, unusable-card, after an ACMD41 answered with illegal-command.
  When a negotiation loop returns, no ACMD41 of the loop was answered with all flags
  clear. When the mode entry loop returns, no byte polled before the final iteration was
  in-idle-state; the byte of the final iteration is not looked at, because the deadline is
  tested first, and may be in-idle-state.

  The same for the three functions. \<^verbatim>\<open>tickstart\<close> is the first tick a call reads, right
  before the loop; for the negotiations that is just before the first CMD55 and ACMD41. A
  call that ends with a tick read has returned \<^verbatim>\<open>SD_TIMEOUT\<close>, and that tick is more than
  500, or 1000, past the first one. Such a call of mode entry has made the calls of the
  entry sequence short of the closing deselect, and no poll before the final one read
  in-idle-state. Such a call of a negotiation has made the calls of \<open>negotiation_sequence\<close>
  (CMD58, the tick read for \<^verbatim>\<open>tickstart\<close>, then one or more polls, each CMD55, ACMD41
  and a tick read), and none of its ACMD41 was answered with all flags clear. Every other
  return ends with a different hardware call and carries the OR of the
  statuses the hardware returned during the call or, for the negotiations, \<^verbatim>\<open>SD_ERROR\<close>
  or \<^verbatim>\<open>SD_UNUSABLE_CARD\<close>; the timeout return is told apart by how the call ends, not by
  the number returned, since a transport status can have the value of the timeout code.
  Mode entry is taken with the latch clear; with the latch set it makes no hardware call.

  No loop goes on past its deadline. An iteration in which the tick read is more than 500
  (mode entry) or 1000 (negotiations) past \<^verbatim>\<open>tickstart\<close>, and which has not left the loop
  before that test (on a ready answer or, in the earlier-revision loop, on an
  illegal-command answer), returns \<^verbatim>\<open>SD_TIMEOUT\<close>.
\<close>

theorem polling_timeout_after_deadline_only:
  "(enter_spi_mode_poll f c hw t0 st s = Some (Return e, s') \<longrightarrow>
      e = SD_TIMEOUT c \<and> (\<exists>t. last_tick s' = Some t \<and> 500 < t - t0) \<and>
      (\<forall>ev \<in> set (drop 2 (events_since s s')).
         fst ev = Op_receive_byte \<longrightarrow> polled_r1 ev \<noteq> R1_IN_IDLE_STATE)) \<and>
   (v1_init_poll f c hw t0 st s = Some (Return e, s') \<longrightarrow>
      (e = SD_UNUSABLE_CARD c \<and> acmd41_illegal_last s' \<or>
       e = SD_TIMEOUT c \<and> (\<exists>t. last_tick s' = Some t \<and> 1000 < t - t0)) \<and>
      (\<forall>ev \<in> set (events_since s s'). is_acmd41 ev \<longrightarrow> polled_r1 ev \<noteq> R1_CLEAR_FLAGS)) \<and>
   (v2_init_poll f c hw t0 st s = Some (Return e, s') \<longrightarrow>
      e = SD_TIMEOUT c \<and> (\<exists>t. last_tick s' = Some t \<and> 1000 < t - t0) \<and>
      (\<forall>ev \<in> set (events_since s s'). is_acmd41 ev \<longrightarrow> polled_r1 ev \<noteq> R1_CLEAR_FLAGS)) \<and>
   (sd_card_enter_spi_mode f c hw s = Some (e, s') \<and> \<not> sd_card_is_spi_mode s \<longrightarrow>
      (case last_tick s' of
         Some t \<Rightarrow> e = SD_TIMEOUT c \<and>
           (\<exists>t0. first_tick (events_since s s') = Some t0 \<and> 500 < t - t0) \<and>
           (\<exists>k. map fst (events_since s s') = tl (entry_sequence k) \<and>
              (\<forall>ev \<in> set (drop 2 (take (2 * Suc k) (events_since s s'))).
                 fst ev = Op_receive_byte \<longrightarrow> polled_r1 ev \<noteq> R1_IN_IDLE_STATE))
       | None \<Rightarrow> e = seen (events_since s s'))) \<and>
   (sd_card_v1_init_process f c hw s = Some (e, s') \<longrightarrow>
      (case last_tick s' of
         Some t \<Rightarrow> e = SD_TIMEOUT c \<and>
           (\<exists>t0. first_tick (events_since s s') = Some t0 \<and> 1000 < t - t0) \<and>
           (\<exists>k. map fst (events_since s s') = negotiation_sequence k) \<and>
           (\<forall>ev \<in> set (events_since s s'). is_acmd41 ev \<longrightarrow> polled_r1 ev \<noteq> R1_CLEAR_FLAGS)
       | None \<Rightarrow> e = SD_ERROR c \<or> e = SD_UNUSABLE_CARD c \<or> e = seen (events_since s s'))) \<and>
   (sd_card_v2_init_process f c hw s = Some (e, s') \<longrightarrow>
      (case last_tick s' of
         Some t \<Rightarrow> e = SD_TIMEOUT c \<and>
           (\<exists>t0. first_tick (events_since s s') = Some t0 \<and> 1000 < t - t0) \<and>
           (\<exists>k. map fst (events_since s s') = negotiation_sequence k) \<and>
           (\<forall>ev \<in> set (events_since s s'). is_acmd41 ev \<longrightarrow> polled_r1 ev \<noteq> R1_CLEAR_FLAGS)
       | None \<Rightarrow> e = SD_UNUSABLE_CARD c \<or> e = seen (events_since s s'))) \<and>
   (500 < rep_tick (fst (io hw Op_GetTick (snd (io hw Op_receive_byte s)))) - t0 \<longrightarrow>
      enter_spi_mode_poll (Suc n) c hw t0 st s =
        Some (Return (SD_TIMEOUT c), snd (io hw Op_GetTick (snd (io hw Op_receive_byte s))))) \<and>
   (acmd41_exchange hw st s = (resp, st', s'') \<and> r1_of resp \<noteq> R1_CLEAR_FLAGS \<and>
    r1_of resp AND R1_ILLEGAL_COMMAND = 0 \<and>
    1000 < rep_tick (fst (io hw Op_GetTick s'')) - t0 \<longrightarrow>
      v1_init_poll (Suc n) c hw t0 st s =
        Some (Return (SD_TIMEOUT c), snd (io hw Op_GetTick s''))) \<and>
   (acmd41_exchange hw st s = (resp, st', s'') \<and> r1_of resp \<noteq> R1_CLEAR_FLAGS \<and>
    1000 < rep_tick (fst (io hw Op_GetTick s'')) - t0 \<longrightarrow>
      v2_init_poll (Suc n) c hw t0 st s =
        Some (Return (SD_TIMEOUT c), snd (io hw Op_GetTick s'')))"
proof (intro conjI impI)
  assume a: "enter_spi_mode_poll f c hw t0 st s = Some (Return e, s')"
  from enter_spi_mode_poll_trace[OF a] obtain new where
    n: "trace s' = new @ trace s"
       "\<forall>e \<in> set (drop 2 new). fst e = Op_receive_byte \<longrightarrow> polled_r1 e \<noteq> R1_IN_IDLE_STATE"
       "e = SD_TIMEOUT c" "\<exists>t. last_tick s' = Some t \<and> 500 < t - t0"
    by auto
  from n show "e = SD_TIMEOUT c" "\<exists>t. last_tick s' = Some t \<and> 500 < t - t0" by simp_all
  from n show "\<forall>ev \<in> set (drop 2 (events_since s s')).
         fst ev = Op_receive_byte \<longrightarrow> polled_r1 ev \<noteq> R1_IN_IDLE_STATE"
    by (simp add: events_since_append)
next
  assume a: "v1_init_poll f c hw t0 st s = Some (Return e, s')"
  from v1_init_poll_trace[OF a] obtain new where
    n: "trace s' = new @ trace s"
       "\<forall>ev \<in> set new. is_acmd41 ev \<longrightarrow> polled_r1 ev \<noteq> R1_CLEAR_FLAGS"
       "e = SD_UNUSABLE_CARD c \<and> acmd41_illegal_last s' \<or>
        e = SD_TIMEOUT c \<and> (\<exists>t. last_tick s' = Some t \<and> 1000 < t - t0)"
    by auto
  from n show "e = SD_UNUSABLE_CARD c \<and> acmd41_illegal_last s' \<or>
        e = SD_TIMEOUT c \<and> (\<exists>t. last_tick s' = Some t \<and> 1000 < t - t0)" by simp
  from n show "\<forall>ev \<in> set (events_since s s'). is_acmd41 ev \<longrightarrow> polled_r1 ev \<noteq> R1_CLEAR_FLAGS"
    by (simp add: events_since_append)
next
  assume a: "v2_init_poll f c hw t0 st s = Some (Return e, s')"
  from v2_init_poll_trace[OF a] obtain new where
    n: "trace s' = new @ trace s"
       "\<forall>ev \<in> set new. is_acmd41 ev \<longrightarrow> polled_r1 ev \<noteq> R1_CLEAR_FLAGS"
       "e = SD_TIMEOUT c" "\<exists>t. last_tick s' = Some t \<and> 1000 < t - t0"
    by auto
  from n show "e = SD_TIMEOUT c" "\<exists>t. last_tick s' = Some t \<and> 1000 < t - t0" by simp_all
  from n show "\<forall>ev \<in> set (events_since s s'). is_acmd41 ev \<longrightarrow> polled_r1 ev \<noteq> R1_CLEAR_FLAGS"
    by (simp add: events_since_append)
next
  assume h: "sd_card_enter_spi_mode f c hw s = Some (e, s') \<and> \<not> sd_card_is_spi_mode s"
  from h[THEN conjunct1] h[THEN conjunct2]
  show "case last_tick s' of
         Some t \<Rightarrow> e = SD_TIMEOUT c \<and>
           (\<exists>t0. first_tick (events_since s s') = Some t0 \<and> 500 < t - t0) \<and>
           (\<exists>k. map fst (events_since s s') = tl (entry_sequence k) \<and>
              (\<forall>ev \<in> set (drop 2 (take (2 * Suc k) (events_since s s'))).
                 fst ev = Op_receive_byte \<longrightarrow> polled_r1 ev \<noteq> R1_IN_IDLE_STATE))
       | None \<Rightarrow> e = seen (events_since s s')"
    by (rule sd_card_enter_spi_mode_deadline)
next
  assume "sd_card_v1_init_process f c hw s = Some (e, s')"
  then show "case last_tick s' of
         Some t \<Rightarrow> e = SD_TIMEOUT c \<and>
           (\<exists>t0. first_tick (events_since s s') = Some t0 \<and> 1000 < t - t0) \<and>
           (\<exists>k. map fst (events_since s s') = negotiation_sequence k) \<and>
           (\<forall>ev \<in> set (events_since s s'). is_acmd41 ev \<longrightarrow> polled_r1 ev \<noteq> R1_CLEAR_FLAGS)
       | None \<Rightarrow> e = SD_ERROR c \<or> e = SD_UNUSABLE_CARD c \<or> e = seen (events_since s s')"
    by (rule sd_card_v1_init_process_deadline)
next
  assume "sd_card_v2_init_process f c hw s = Some (e, s')"
  then show "case last_tick s' of
         Some t \<Rightarrow> e = SD_TIMEOUT c \<and>
           (\<exists>t0. first_tick (events_since s s') = Some t0 \<and> 1000 < t - t0) \<and>
           (\<exists>k. map fst (events_since s s') = negotiation_sequence k) \<and>
           (\<forall>ev \<in> set (events_since s s'). is_acmd41 ev \<longrightarrow> polled_r1 ev \<noteq> R1_CLEAR_FLAGS)
       | None \<Rightarrow> e = SD_UNUSABLE_CARD c \<or> e = seen (events_since s s')"
    by (rule sd_card_v2_init_process_deadline)
next
  assume "500 < rep_tick (fst (io hw Op_GetTick (snd (io hw Op_receive_byte s)))) - t0"
  then show "enter_spi_mode_poll (Suc n) c hw t0 st s =
        Some (Return (SD_TIMEOUT c), snd (io hw Op_GetTick (snd (io hw Op_receive_byte s))))"
    by (rule enter_spi_mode_poll_deadline)
next
  assume h: "acmd41_exchange hw st s = (resp, st', s'') \<and> r1_of resp \<noteq> R1_CLEAR_FLAGS \<and>
    r1_of resp AND R1_ILLEGAL_COMMAND = 0 \<and>
    1000 < rep_tick (fst (io hw Op_GetTick s'')) - t0"
  from h[THEN conjunct1] h[THEN conjunct2, THEN conjunct1]
       h[THEN conjunct2, THEN conjunct2, THEN conjunct1]
       h[THEN conjunct2, THEN conjunct2, THEN conjunct2]
  show "v1_init_poll (Suc n) c hw t0 st s =
        Some (Return (SD_TIMEOUT c), snd (io hw Op_GetTick s''))"
    by (rule v1_init_poll_deadline)
next
  assume h: "acmd41_exchange hw st s = (resp, st', s'') \<and> r1_of resp \<noteq> R1_CLEAR_FLAGS \<and>
    1000 < rep_tick (fst (io hw Op_GetTick s'')) - t0"
  from h[THEN conjunct1] h[THEN conjunct2, THEN conjunct1] h[THEN conjunct2, THEN conjunct2]
  show "v2_init_poll (Suc n) c hw t0 st s =
        Some (Return (SD_TIMEOUT c), snd (io hw Op_GetTick s''))"
    by (rule v2_init_poll_deadline)
qed

text \<open>
  Cards that never leave idle, with 100 ticks passing per hardware call. The loops, run
  with \<^verbatim>\<open>tickstart\<close> 0, time out at tick 700 (mode entry) and 1100 (negotiations). Mode
  entry as a whole reads tick 1500 first and times out at 2100, after three polls; the
  negotiations read 100 first and time out at 1300, after four polls. On \<open>hw_idle_at_deadline\<close> mode entry
  reads tick 0 first and times out at 501. With 1000 ticks per call each loop times out in
  its first iteration.
\<close>

theorem polling_timeout_after_deadline_only_witness:
  "map_option fst (enter_spi_mode_poll 4 example_codes
      (sim_hw (card_v2\<lparr>sim_rx := 0xff, sim_tick_step := 100\<rparr>)) 0 0 s_init) = Some (Return 2) \<and>
   last_tick (snd (the (enter_spi_mode_poll 4 example_codes
      (sim_hw (card_v2\<lparr>sim_rx := 0xff, sim_tick_step := 100\<rparr>)) 0 0 s_init))) = Some 700 \<and>
   map_option fst (v1_init_poll 4 example_codes
      (sim_hw (card_v1\<lparr>sim_acmd41 := 0x01, sim_tick_step := 100\<rparr>)) 0 0 s_init) = Some (Return 2) \<and>
   last_tick (snd (the (v1_init_poll 4 example_codes
      (sim_hw (card_v1\<lparr>sim_acmd41 := 0x01, sim_tick_step := 100\<rparr>)) 0 0 s_init))) = Some 1100 \<and>
   map_option fst (v2_init_poll 4 example_codes
      (sim_hw (card_v2\<lparr>sim_acmd41 := 0x01, sim_tick_step := 100\<rparr>)) 0 0 s_init) = Some (Return 2) \<and>
   last_tick (snd (the (v2_init_poll 4 example_codes
      (sim_hw (card_v2\<lparr>sim_acmd41 := 0x01, sim_tick_step := 100\<rparr>)) 0 0 s_init))) = Some 1100 \<and>
   \<not> sd_card_is_spi_mode s_init \<and>
   map_option fst (sd_card_enter_spi_mode 3 example_codes
      (sim_hw (card_v2\<lparr>sim_rx := 0xff, sim_tick_step := 100\<rparr>)) s_init) = Some 2 \<and>
   last_tick (snd (the (sd_card_enter_spi_mode 3 example_codes
      (sim_hw (card_v2\<lparr>sim_rx := 0xff, sim_tick_step := 100\<rparr>)) s_init))) = Some 2100 \<and>
   first_tick (events_since s_init (snd (the (sd_card_enter_spi_mode 3 example_codes
      (sim_hw (card_v2\<lparr>sim_rx := 0xff, sim_tick_step := 100\<rparr>)) s_init)))) = Some 1500 \<and>
   map fst (events_since s_init (snd (the (sd_card_enter_spi_mode 3 example_codes
      (sim_hw (card_v2\<lparr>sim_rx := 0xff, sim_tick_step := 100\<rparr>)) s_init)))) =
     tl (entry_sequence 2) \<and>
   map_option fst (sd_card_enter_spi_mode 2 example_codes hw_idle_at_deadline s_init) = Some 2 \<and>
   last_tick (snd (the (sd_card_enter_spi_mode 2 example_codes hw_idle_at_deadline s_init))) =
     Some 501 \<and>
   first_tick (events_since s_init
     (snd (the (sd_card_enter_spi_mode 2 example_codes hw_idle_at_deadline s_init)))) = Some 0 \<and>
   map_option fst (sd_card_v1_init_process 4 example_codes
      (sim_hw (card_v1\<lparr>sim_acmd41 := 0x01, sim_tick_step := 100\<rparr>)) s_init) = Some 2 \<and>
   last_tick (snd (the (sd_card_v1_init_process 4 example_codes
      (sim_hw (card_v1\<lparr>sim_acmd41 := 0x01, sim_tick_step := 100\<rparr>)) s_init))) = Some 1300 \<and>
   first_tick (events_since s_init (snd (the (sd_card_v1_init_process 4 example_codes
      (sim_hw (card_v1\<lparr>sim_acmd41 := 0x01, sim_tick_step := 100\<rparr>)) s_init)))) = Some 100 \<and>
   map fst (events_since s_init (snd (the (sd_card_v1_init_process 4 example_codes
      (sim_hw (card_v1\<lparr>sim_acmd41 := 0x01, sim_tick_step := 100\<rparr>)) s_init)))) =
     negotiation_sequence 3 \<and>
   map_option fst (sd_card_v2_init_process 4 example_codes
      (sim_hw (card_v2\<lparr>sim_acmd41 := 0x01, sim_tick_step := 100\<rparr>)) s_init) = Some 2 \<and>
   last_tick (snd (the (sd_card_v2_init_process 4 example_codes
      (sim_hw (card_v2\<lparr>sim_acmd41 := 0x01, sim_tick_step := 100\<rparr>)) s_init))) = Some 1300 \<and>
   first_tick (events_since s_init (snd (the (sd_card_v2_init_process 4 example_codes
      (sim_hw (card_v2\<lparr>sim_acmd41 := 0x01, sim_tick_step := 100\<rparr>)) s_init)))) = Some 100 \<and>
   map_option fst (enter_spi_mode_poll 1 example_codes
      (sim_hw (card_v2\<lparr>sim_tick_step := 1000\<rparr>)) 0 0 s_init) = Some (Return 2) \<and>
   map_option fst (v1_init_poll 1 example_codes
      (sim_hw (card_v1\<lparr>sim_acmd41 := 0x01, sim_tick_step := 1000\<rparr>)) 0 0 s_init) =
     Some (Return 2) \<and>
   map_option fst (v2_init_poll 1 example_codes
      (sim_hw (card_v2\<lparr>sim_acmd41 := 0x05, sim_tick_step := 1000\<rparr>)) 0 0 s_init) =
     Some (Return 2)"
proof -
  note w = polling_timeout_after_deadline_only
  let ?c = example_codes
  let ?hw0 = "sim_hw (card_v2\<lparr>sim_rx := 0xff, sim_tick_step := 100\<rparr>)"
  let ?hw1 = "sim_hw (card_v1\<lparr>sim_acmd41 := 0x01, sim_tick_step := 100\<rparr>)"
  let ?hw2 = "sim_hw (card_v2\<lparr>sim_acmd41 := 0x01, sim_tick_step := 100\<rparr>)"
  let ?p0 = "enter_spi_mode_poll 4 ?c ?hw0 0 0 s_init"
  let ?p1 = "v1_init_poll 4 ?c ?hw1 0 0 s_init"
  let ?p2 = "v2_init_poll 4 ?c ?hw2 0 0 s_init"
  let ?q0 = "sd_card_enter_spi_mode 3 ?c ?hw0 s_init"
  let ?qd = "sd_card_enter_spi_mode 2 ?c hw_idle_at_deadline s_init"
  let ?q1 = "sd_card_v1_init_process 4 ?c ?hw1 s_init"
  let ?q2 = "sd_card_v2_init_process 4 ?c ?hw2 s_init"
  have a0: "map_option fst ?p0 = Some (Return 2)" by code_simp
  have a1: "map_option fst ?p1 = Some (Return 2)" by code_simp
  have a2: "map_option fst ?p2 = Some (Return 2)" by code_simp
  have b0: "last_tick (snd (the ?p0)) = Some 700" by code_simp
  have b1: "last_tick (snd (the ?p1)) = Some 1100" by code_simp
  have b2: "last_tick (snd (the ?p2)) = Some 1100" by code_simp
  from a0 obtain s0 where f0: "?p0 = Some (Return 2, s0)" by (cases ?p0) auto
  from a1 obtain s1 where f1: "?p1 = Some (Return 2, s1)" by (cases ?p1) auto
  from a2 obtain s2 where f2: "?p2 = Some (Return 2, s2)" by (cases ?p2) auto
  from w [where f = 4 and c = ?c and hw = ?hw0 and ?t0.0 = 0 and st = 0 and s = s_init
            and e = 2 and s' = s0, THEN conjunct1] f0 b0
  have g0: "(500 :: u32) < 700 - 0" by simp
  from w [where f = 4 and c = ?c and hw = ?hw1 and ?t0.0 = 0 and st = 0 and s = s_init
            and e = 2 and s' = s1, THEN conjunct2, THEN conjunct1] f1 b1
  have g1: "(1000 :: u32) < 1100 - 0" by simp
  from w [where f = 4 and c = ?c and hw = ?hw2 and ?t0.0 = 0 and st = 0 and s = s_init
            and e = 2 and s' = s2, THEN conjunct2, THEN conjunct2, THEN conjunct1] f2 b2
  have g2: "(1000 :: u32) < 1100 - 0" by simp
  have n: "\<not> sd_card_is_spi_mode s_init" by (simp add: s_init_def)
  have c0: "map_option fst ?q0 = Some 2" by code_simp
  have cd: "map_option fst ?qd = Some 2" by code_simp
  have c1: "map_option fst ?q1 = Some 2" by code_simp
  have c2: "map_option fst ?q2 = Some 2" by code_simp
  have d0: "last_tick (snd (the ?q0)) = Some 2100" by code_simp
  have dd: "last_tick (snd (the ?qd)) = Some 501" by code_simp
  have d1: "last_tick (snd (the ?q1)) = Some 1300" by code_simp
  have d2: "last_tick (snd (the ?q2)) = Some 1300" by code_simp
  have e0: "first_tick (events_since s_init (snd (the ?q0))) = Some 1500" by code_simp
  have ed: "first_tick (events_since s_init (snd (the ?qd))) = Some 0" by code_simp
  have e1: "first_tick (events_since s_init (snd (the ?q1))) = Some 100" by code_simp
  have e2: "first_tick (events_since s_init (snd (the ?q2))) = Some 100" by code_simp
  have k0: "map fst (events_since s_init (snd (the ?q0))) = tl (entry_sequence 2)" by code_simp
  have k1: "map fst (events_since s_init (snd (the ?q1))) = negotiation_sequence 3" by code_simp
  from c0 obtain r0 where h0: "?q0 = Some (2, r0)" by (cases ?q0) auto
  from cd obtain rd where hd: "?qd = Some (2, rd)" by (cases ?qd) auto
  from c1 obtain r1 where h1: "?q1 = Some (2, r1)" by (cases ?q1) auto
  from c2 obtain r2 where h2: "?q2 = Some (2, r2)" by (cases ?q2) auto
  from w [where f = 3 and c = ?c and hw = ?hw0 and s = s_init and e = 2 and s' = r0,
          THEN conjunct2, THEN conjunct2, THEN conjunct2, THEN conjunct1] h0 n d0 e0
  have i0: "(500 :: u32) < 2100 - 1500" by simp
  from w [where f = 2 and c = ?c and hw = hw_idle_at_deadline and s = s_init and e = 2
            and s' = rd,
          THEN conjunct2, THEN conjunct2, THEN conjunct2, THEN conjunct1] hd n dd ed
  have id: "(500 :: u32) < 501 - 0" by simp
  from w [where f = 4 and c = ?c and hw = ?hw1 and s = s_init and e = 2 and s' = r1,
          THEN conjunct2, THEN conjunct2, THEN conjunct2, THEN conjunct2, THEN conjunct1]
       h1 d1 e1
  have i1: "(1000 :: u32) < 1300 - 100" by simp
  from w [where f = 4 and c = ?c and hw = ?hw2 and s = s_init and e = 2 and s' = r2,
          THEN conjunct2, THEN conjunct2, THEN conjunct2, THEN conjunct2, THEN conjunct2,
          THEN conjunct1] h2 d2 e2
  have i2: "(1000 :: u32) < 1300 - 100" by simp
  let ?hwa = "sim_hw (card_v2\<lparr>sim_tick_step := 1000\<rparr>)"
  let ?hwb = "sim_hw (card_v1\<lparr>sim_acmd41 := 0x01, sim_tick_step := 1000\<rparr>)"
  let ?hwc = "sim_hw (card_v2\<lparr>sim_acmd41 := 0x05, sim_tick_step := 1000\<rparr>)"
  have ta: "500 < rep_tick (fst (io ?hwa Op_GetTick (snd (io ?hwa Op_receive_byte s_init)))) - 0"
    by code_simp
  from w [where n = 0 and c = ?c and hw = ?hwa and ?t0.0 = 0 and st = 0 and s = s_init,
          THEN conjunct2, THEN conjunct2, THEN conjunct2, THEN conjunct2, THEN conjunct2,
          THEN conjunct2, THEN conjunct1] ta
  have ja: "map_option fst (enter_spi_mode_poll 1 ?c ?hwa 0 0 s_init) = Some (Return 2)"
    by (simp add: example_codes_def)
  obtain respb stb sb where xb: "acmd41_exchange ?hwb 0 s_init = (respb, stb, sb)"
    by (cases "acmd41_exchange ?hwb 0 s_init") auto
  have "r1_of (fst (acmd41_exchange ?hwb 0 s_init)) \<noteq> R1_CLEAR_FLAGS"
       "r1_of (fst (acmd41_exchange ?hwb 0 s_init)) AND R1_ILLEGAL_COMMAND = 0"
       "1000 < rep_tick (fst (io ?hwb Op_GetTick (snd (snd (acmd41_exchange ?hwb 0 s_init))))) - 0"
    by code_simp+
  with xb have tb: "r1_of respb \<noteq> R1_CLEAR_FLAGS" "r1_of respb AND R1_ILLEGAL_COMMAND = 0"
    "1000 < rep_tick (fst (io ?hwb Op_GetTick sb)) - 0"
    by simp_all
  from w [where n = 0 and c = ?c and hw = ?hwb and ?t0.0 = 0 and st = 0 and s = s_init
            and resp = respb and st' = stb and s'' = sb,
          THEN conjunct2, THEN conjunct2, THEN conjunct2, THEN conjunct2, THEN conjunct2,
          THEN conjunct2, THEN conjunct2, THEN conjunct1] xb tb
  have jb: "map_option fst (v1_init_poll 1 ?c ?hwb 0 0 s_init) = Some (Return 2)"
    by (simp add: example_codes_def)
  obtain respc stc sc where xc: "acmd41_exchange ?hwc 0 s_init = (respc, stc, sc)"
    by (cases "acmd41_exchange ?hwc 0 s_init") auto
  have "r1_of (fst (acmd41_exchange ?hwc 0 s_init)) \<noteq> R1_CLEAR_FLAGS"
       "1000 < rep_tick (fst (io ?hwc Op_GetTick (snd (snd (acmd41_exchange ?hwc 0 s_init))))) - 0"
    by code_simp+
  with xc have tc: "r1_of respc \<noteq> R1_CLEAR_FLAGS"
    "1000 < rep_tick (fst (io ?hwc Op_GetTick sc)) - 0"
    by simp_all
  from w [where n = 0 and c = ?c and hw = ?hwc and ?t0.0 = 0 and st = 0 and s = s_init
            and resp = respc and st' = stc and s'' = sc,
          THEN conjunct2, THEN conjunct2, THEN conjunct2, THEN conjunct2, THEN conjunct2,
          THEN conjunct2, THEN conjunct2, THEN conjunct2] xc tc
  have jc: "map_option fst (v2_init_poll 1 ?c ?hwc 0 0 s_init) = Some (Return 2)"
    by (simp add: example_codes_def)
  from a0 b0 a1 b1 a2 b2 n c0 d0 e0 k0 cd dd ed c1 d1 e1 k1 c2 d2 e2 ja jb jc
  show ?thesis by (intro conjI)
qed

end
